theory Spec2Isabelle
  imports Main "HOL-Library.Word" "HOL-Library.Signed_Division"
begin

section \<open>Result codes and the platform timer service\<close>

text \<open>
  The result codes of \<^verbatim>\<open>esp_err_t\<close> that the media playback orchestrator produces or
  tests for.
\<close>

datatype esp_err =
    ESP_OK
  | ESP_FAIL
  | ESP_ERR_NO_MEM
  | ESP_ERR_INVALID_ARG
  | ESP_ERR_INVALID_STATE
  | ESP_ERR_NOT_FOUND
  | ESP_ERR_NOT_SUPPORTED
  | ESP_ERR_TIMEOUT

text \<open>
  \<^verbatim>\<open>esp_timer\<close> is the platform's timer service; the repository only calls it. A timer
  handle is \<open>None\<close> while it is \<^verbatim>\<open>NULL\<close>; a created timer is disarmed, armed one-shot
  or armed periodic, with its timeout in microseconds. The calls follow the service's
  contract: a \<^verbatim>\<open>NULL\<close> handle is an invalid argument, starting an armed timer and
  stopping a disarmed one are invalid-state errors that leave the timer as it is.
\<close>

datatype timer_arm = Disarmed | Once nat | Periodic nat

type_synonym esp_timer_handle_t = "timer_arm option"

definition esp_timer_start_once :: "esp_timer_handle_t \<Rightarrow> nat \<Rightarrow> esp_err \<times> esp_timer_handle_t" where
  "esp_timer_start_once h timeout_us =
     (case h of
        None \<Rightarrow> (ESP_ERR_INVALID_ARG, h)
      | Some Disarmed \<Rightarrow> (ESP_OK, Some (Once timeout_us))
      | Some _ \<Rightarrow> (ESP_ERR_INVALID_STATE, h))"

definition esp_timer_start_periodic :: "esp_timer_handle_t \<Rightarrow> nat \<Rightarrow> esp_err \<times> esp_timer_handle_t" where
  "esp_timer_start_periodic h period_us =
     (case h of
        None \<Rightarrow> (ESP_ERR_INVALID_ARG, h)
      | Some Disarmed \<Rightarrow> (ESP_OK, Some (Periodic period_us))
      | Some _ \<Rightarrow> (ESP_ERR_INVALID_STATE, h))"

definition esp_timer_stop :: "esp_timer_handle_t \<Rightarrow> esp_err \<times> esp_timer_handle_t" where
  "esp_timer_stop h =
     (case h of
        None \<Rightarrow> (ESP_ERR_INVALID_ARG, h)
      | Some Disarmed \<Rightarrow> (ESP_ERR_INVALID_STATE, h)
      | Some _ \<Rightarrow> (ESP_OK, Some Disarmed))"

fun is_periodic :: "esp_timer_handle_t \<Rightarrow> bool" where
  "is_periodic (Some (Periodic p)) = True"
| "is_periodic _ = False"

fun is_once :: "esp_timer_handle_t \<Rightarrow> bool" where
  "is_once (Some (Once t)) = True"
| "is_once _ = False"

section \<open>Slideshow timer (slideshow\_ctrl.c)\<close>

text \<open>The static \<^verbatim>\<open>s_slideshow\<close>. \<open>next_cb\<close> records whether the callback pointer is set.\<close>

record slideshow_t =
  timer :: esp_timer_handle_t
  idle_timer :: esp_timer_handle_t
  next_cb :: bool
  interval_ms :: "32 word"
  is_running :: bool
  manual_control :: bool

definition IDLE_TIMEOUT_MS :: nat where
  "IDLE_TIMEOUT_MS = 3000"

text \<open>
  \<^verbatim>\<open>s_slideshow.interval_ms * 1000\<close> is a 32-bit unsigned product, widened to the 64-bit
  period afterwards.
\<close>

definition period_us :: "slideshow_t \<Rightarrow> nat" where
  "period_us s = unat (interval_ms s * 1000)"

text \<open>Body of \<^verbatim>\<open>idle_timer_callback\<close>.\<close>

definition idle_timer_callback :: "slideshow_t \<Rightarrow> slideshow_t" where
  "idle_timer_callback s =
     (if manual_control s then
        (let s1 = s\<lparr>manual_control := False\<rparr> in
         if is_running s1
         then s1\<lparr>timer := snd (esp_timer_start_periodic (timer s1) (period_us s1))\<rparr>
         else s1)
      else s)"

text \<open>
  \<^verbatim>\<open>slideshow_ctrl_init\<close>; \<open>r1\<close> and \<open>r2\<close> are the results of the two
  \<^verbatim>\<open>esp_timer_create\<close> calls. When the second creation fails the first timer is deleted
  and its handle left as it was; the model keeps it as a created timer.
\<close>

definition slideshow_ctrl_init :: "bool \<Rightarrow> 32 word \<Rightarrow> esp_err \<Rightarrow> esp_err \<Rightarrow> slideshow_t \<Rightarrow> esp_err \<times> slideshow_t" where
  "slideshow_ctrl_init cb interval r1 r2 s =
     (if \<not> cb then (ESP_ERR_INVALID_ARG, s)
      else
        (let s1 = s\<lparr>next_cb := cb, interval_ms := interval, is_running := False,
                    manual_control := False\<rparr> in
         if r1 \<noteq> ESP_OK then (r1, s1)
         else
           (let s2 = s1\<lparr>timer := Some Disarmed\<rparr> in
            if r2 \<noteq> ESP_OK then (r2, s2)
            else (ESP_OK, s2\<lparr>idle_timer := Some Disarmed\<rparr>))))"

definition slideshow_ctrl_start :: "slideshow_t \<Rightarrow> esp_err \<times> slideshow_t" where
  "slideshow_ctrl_start s =
     (if is_running s then (ESP_OK, s)
      else
        (let s1 = s\<lparr>is_running := True, manual_control := False\<rparr>;
             r = esp_timer_start_periodic (timer s1) (period_us s1)
         in (fst r, s1\<lparr>timer := snd r\<rparr>)))"

definition slideshow_ctrl_stop :: "slideshow_t \<Rightarrow> esp_err \<times> slideshow_t" where
  "slideshow_ctrl_stop s =
     (if \<not> is_running s then (ESP_OK, s)
      else
        (ESP_OK, s\<lparr>is_running := False, manual_control := False,
                   timer := snd (esp_timer_stop (timer s)),
                   idle_timer := snd (esp_timer_stop (idle_timer s))\<rparr>))"

definition slideshow_ctrl_pause :: "slideshow_t \<Rightarrow> esp_err \<times> slideshow_t" where
  "slideshow_ctrl_pause s =
     (if \<not> is_running s \<or> manual_control s then (ESP_OK, s)
      else
        (ESP_OK, s\<lparr>manual_control := True,
                   timer := snd (esp_timer_stop (timer s)),
                   idle_timer := snd (esp_timer_start_once (idle_timer s) (IDLE_TIMEOUT_MS * 1000))\<rparr>))"

definition slideshow_ctrl_resume :: "slideshow_t \<Rightarrow> esp_err \<times> slideshow_t" where
  "slideshow_ctrl_resume s =
     (if \<not> is_running s \<or> \<not> manual_control s then (ESP_OK, s)
      else
        (let s1 = s\<lparr>manual_control := False, idle_timer := snd (esp_timer_stop (idle_timer s))\<rparr>;
             r = esp_timer_start_periodic (timer s1) (period_us s1)
         in (fst r, s1\<lparr>timer := snd r\<rparr>)))"

definition slideshow_ctrl_set_interval :: "32 word \<Rightarrow> slideshow_t \<Rightarrow> esp_err \<times> slideshow_t" where
  "slideshow_ctrl_set_interval interval s =
     (let s1 = s\<lparr>interval_ms := interval\<rparr> in
      if is_running s1 \<and> \<not> manual_control s1
      then (ESP_OK, s1\<lparr>timer := snd (esp_timer_start_periodic (snd (esp_timer_stop (timer s1)))
                                         (unat (interval * 1000)))\<rparr>)
      else (ESP_OK, s1))"

definition slideshow_ctrl_manual_trigger :: "slideshow_t \<Rightarrow> esp_err \<times> slideshow_t" where
  "slideshow_ctrl_manual_trigger s =
     (if \<not> is_running s then (ESP_ERR_INVALID_STATE, s)
      else
        (let s1 = snd (slideshow_ctrl_pause s);
             t1 = snd (esp_timer_stop (idle_timer s1));
             t2 = snd (esp_timer_start_once t1 (IDLE_TIMEOUT_MS * 1000))
         in (ESP_OK, s1\<lparr>idle_timer := t2\<rparr>)))"

definition slideshow_ctrl_is_running :: "slideshow_t \<Rightarrow> bool" where
  "slideshow_ctrl_is_running s = is_running s"

text \<open>
  The three states of the controller after \<^verbatim>\<open>slideshow_ctrl_init\<close>, as the two flags and
  the two timers encode them: stopped (nothing armed), manually paused (only the idle
  timer armed) and running (only the periodic timer armed).
\<close>

definition slideshow_inv :: "slideshow_t \<Rightarrow> bool" where
  "slideshow_inv s =
     (if \<not> is_running s
      then timer s = Some Disarmed \<and> idle_timer s = Some Disarmed \<and> \<not> manual_control s
      else if manual_control s
      then timer s = Some Disarmed \<and> is_once (idle_timer s)
      else is_periodic (timer s) \<and> idle_timer s = Some Disarmed)"

text \<open>\<open>manual_triggers k\<close> is \<open>k\<close> successive calls of \<^verbatim>\<open>slideshow_ctrl_manual_trigger\<close>.\<close>

fun manual_triggers :: "nat \<Rightarrow> slideshow_t \<Rightarrow> slideshow_t" where
  "manual_triggers 0 s = s"
| "manual_triggers (Suc k) s = manual_triggers k (snd (slideshow_ctrl_manual_trigger s))"

section \<open>Media entries\<close>

text \<open>
  \<^verbatim>\<open>image_file_info_t\<close>, with the fields the orchestrator reads. \<^verbatim>\<open>photo_collection_t\<close>
  holds the scanned entries \<^verbatim>\<open>files[0 .. total_count)\<close> as a list, so that
  \<^verbatim>\<open>total_count\<close> is its length.
\<close>

record image_file_info_t =
  filename :: string
  full_path :: string
  file_size :: nat

record photo_collection_t =
  files :: "image_file_info_t list"
  current_index :: int

definition total_count :: "photo_collection_t \<Rightarrow> int" where
  "total_count c = int (length (files c))"

section \<open>External collaborators\<close>

text \<open>
  What the calls into the file system, the image decoder and processor, the presenter,
  the container extractor and the operating system return. They are outside the
  orchestrator; each is a parameter, fixed while an operation runs. The functions on file
  paths give the outcome for the file at that path. \<open>task_stops\<close> says whether the
  extraction task acknowledges a stop request within the 1000 ms wait. \<open>scan_images\<close>
  is the result of a directory scan and the entries it leaves in the collection
  (\<open>None\<close> when the scan returns before touching the collection). \<open>adapter_alloc\<close> is
  the first failure among the allocations of \<^verbatim>\<open>app_stream_adapter_init\<close>, or
  \<open>ESP_OK\<close>.
\<close>

record env =
  screen_width :: "32 word"
  screen_height :: "32 word"
  load_image :: "string \<Rightarrow> esp_err"
  decode_image :: "string \<Rightarrow> esp_err \<times> 32 word \<times> 32 word"
  process_image :: "string \<Rightarrow> esp_err"
  display_image :: "string \<Rightarrow> esp_err"
  extractor_start :: "string \<Rightarrow> esp_err"
  extractor_video_info :: "string \<Rightarrow> esp_err \<times> 32 word \<times> 32 word \<times> 32 word \<times> 32 word"
  task_create :: bool
  task_stops :: bool
  mutex_create :: bool
  timer_create :: esp_err
  scan_images :: "esp_err \<times> image_file_info_t list option"
  adapter_alloc :: esp_err
  buffer_alloc :: "bool \<times> bool"
  selected_interval :: "32 word"
  codec_set_vol :: esp_err

section \<open>Frame extraction pipeline (app\_stream\_adapter.c)\<close>

text \<open>
  The adapter context. Pointers are modelled by what the code tests: a buffer pointer,
  the task handle and the frame mutex by whether they are non-\<^verbatim>\<open>NULL\<close>, the file name
  by \<open>None\<close> for \<^verbatim>\<open>NULL\<close>. \<open>decode_buffers\<close> is the caller's array of buffer pointers.

  The code keeps in \<^verbatim>\<open>filename\<close> the caller's pointer, which for the album points into
  the file table of the collection, and a rescan rewrites that table in place. The
  field \<open>a_filename\<close> holds the string the pointer designates when
  \<^verbatim>\<open>app_stream_adapter_set_file\<close> is called. The two agree where the name is read, in
  \<^verbatim>\<open>app_stream_adapter_start\<close>, which the player calls right after setting the file; they
  differ after a later rescan, when the code's pointer designates whatever entry the
  table then holds at that place, so nothing stated here about \<open>a_filename\<close> after
  \<open>photo_album_refresh\<close> carries over to the pointer of the code.
\<close>

record app_stream_adapter_t =
  decode_buffers :: "bool list"
  buffer_count :: "32 word"
  buffer_size :: "32 word"
  a_filename :: "string option"
  running :: bool
  current_buffer :: "32 word"
  frame_count :: "32 word"
  has_info :: bool
  width :: "32 word"
  height :: "32 word"
  fps :: "32 word"
  duration :: "32 word"
  jpeg_buffer_size :: "32 word"
  extract_task_handle :: bool
  event_bits :: "32 word"
  frame_mutex :: bool
  extract_audio :: bool
  audio_dev :: bool

definition EXTRACT_TASK_START_BIT :: "32 word" where "EXTRACT_TASK_START_BIT = 1"
definition EXTRACT_TASK_STOP_BIT :: "32 word" where "EXTRACT_TASK_STOP_BIT = 2"
definition EXTRACT_TASK_STOPPED_BIT :: "32 word" where "EXTRACT_TASK_STOPPED_BIT = 4"
definition EXTRACT_TASK_PAUSE_BIT :: "32 word" where "EXTRACT_TASK_PAUSE_BIT = 8"
definition EXTRACT_TASK_RESUME_BIT :: "32 word" where "EXTRACT_TASK_RESUME_BIT = 16"

definition ALL_TASK_BITS :: "32 word" where
  "ALL_TASK_BITS = 31"

text \<open>
  One compressed frame handed to \<^verbatim>\<open>extractor_frame_callback\<close>, with the outcomes of the
  calls made for it: whether the frame mutex is obtained within 100 ms, what
  \<^verbatim>\<open>jpeg_decoder_get_info\<close> and \<^verbatim>\<open>jpeg_decoder_process\<close> return, and what the
  adapter's frame callback returns.
\<close>

record frame_in =
  f_is_video :: bool
  f_size :: "32 word"
  f_lock :: bool
  f_info :: esp_err
  f_width :: "32 word"
  f_height :: "32 word"
  f_process :: esp_err
  f_out_size :: "32 word"
  f_cb :: esp_err

text \<open>
  \<^verbatim>\<open>decode_buffers[current_buffer]\<close>; an index outside the caller's array reads as
  \<^verbatim>\<open>NULL\<close> here (the C code reads past the array).
\<close>

definition buffer_at :: "app_stream_adapter_t \<Rightarrow> bool" where
  "buffer_at a =
     (unat (current_buffer a) < length (decode_buffers a)
      \<and> decode_buffers a ! unat (current_buffer a))"

text \<open>\<^verbatim>\<open>decode_jpeg_frame\<close>: result and the adapter with the buffer index it selected.\<close>

definition decode_jpeg_frame :: "app_stream_adapter_t \<Rightarrow> frame_in \<Rightarrow> esp_err \<times> app_stream_adapter_t" where
  "decode_jpeg_frame a f =
     (if f_info f \<noteq> ESP_OK then (f_info f, a)
      else
        (let a1 = a\<lparr>current_buffer := (current_buffer a + 1) mod buffer_count a\<rparr> in
         if \<not> buffer_at a1 then (ESP_ERR_INVALID_ARG, a1)
         else if f_process f \<noteq> ESP_OK then (f_process f, a1)
         else (ESP_OK, a1)))"

text \<open>
  \<^verbatim>\<open>extractor_frame_callback\<close> for the adapter \<^verbatim>\<open>g_adapter_instance\<close>. The third
  component is the invocation of the adapter's frame callback, when there is one: the
  index of the buffer handed over and the frame index. The adapter has a frame callback
  (\<^verbatim>\<open>video_player_init\<close> installs one); the static call counter, which nothing reads, is
  left out.
\<close>

definition extractor_frame_callback ::
  "app_stream_adapter_t option \<Rightarrow> frame_in \<Rightarrow> esp_err \<times> app_stream_adapter_t option \<times> (32 word \<times> 32 word) option" where
  "extractor_frame_callback g f =
     (case g of
        None \<Rightarrow> (ESP_ERR_INVALID_STATE, g, None)
      | Some a \<Rightarrow>
          if \<not> f_is_video f then (ESP_OK, g, None)
          else if f_size f > jpeg_buffer_size a then (ESP_ERR_NO_MEM, g, None)
          else if \<not> f_lock f then (ESP_ERR_TIMEOUT, g, None)
          else
            (let r = decode_jpeg_frame a f; a1 = snd r in
             if fst r \<noteq> ESP_OK then (fst r, Some a1, None)
             else
               (let a2 = (if \<not> has_info a1
                          then a1\<lparr>width := f_width f, height := f_height f, has_info := True\<rparr>
                          else a1);
                    a3 = a2\<lparr>frame_count := frame_count a2 + 1\<rparr>
                in (f_cb f, Some a3, Some (current_buffer a3, frame_count a3 - 1)))))"

text \<open>
  The frames of a stream, one callback after the other, with the list of frame-callback
  invocations they produce: for each delivered frame the buffer index it is in and its
  frame number. The list of frames is the invocations of \<^verbatim>\<open>extractor_frame_callback\<close>
  that take place; which invocations follow one that returned an error is decided by
  \<^verbatim>\<open>app_extractor_read_frame\<close> of the extractor component, whose source is not part of
  \<^verbatim>\<open>main\<close>, and by later starts of the extraction loop.
\<close>

fun deliver_frames :: "app_stream_adapter_t option \<Rightarrow> frame_in list \<Rightarrow> (32 word \<times> 32 word) list" where
  "deliver_frames g [] = []"
| "deliver_frames g (f # fs) =
     (let r = extractor_frame_callback g f in
      (case snd (snd r) of None \<Rightarrow> [] | Some d \<Rightarrow> [d]) @ deliver_frames (fst (snd r)) fs)"

text \<open>A frame that reaches the decoder and is decoded.\<close>

definition frame_decodes :: "app_stream_adapter_t \<Rightarrow> frame_in \<Rightarrow> bool" where
  "frame_decodes a f =
     (f_is_video f \<and> f_size f \<le> jpeg_buffer_size a \<and> f_lock f
      \<and> f_info f = ESP_OK \<and> f_process f = ESP_OK)"

text \<open>
  A frame on which the decode is attempted and fails: the buffer index has advanced by
  then, and nothing is handed to the frame callback.
\<close>

definition frame_decode_fails :: "app_stream_adapter_t \<Rightarrow> frame_in \<Rightarrow> bool" where
  "frame_decode_fails a f =
     (f_is_video f \<and> f_size f \<le> jpeg_buffer_size a \<and> f_lock f
      \<and> f_info f = ESP_OK \<and> f_process f \<noteq> ESP_OK)"

text \<open>The adapter after the callbacks for a list of frames.\<close>

fun adapter_after :: "app_stream_adapter_t option \<Rightarrow> frame_in list \<Rightarrow> app_stream_adapter_t option" where
  "adapter_after g [] = g"
| "adapter_after g (f # fs) = adapter_after (fst (snd (extractor_frame_callback g f))) fs"

text \<open>The round-robin step of \<^verbatim>\<open>decode_jpeg_frame\<close> over \<open>n\<close> buffers.\<close>

definition next_buffer :: "32 word \<Rightarrow> 32 word \<Rightarrow> 32 word" where
  "next_buffer n b = (b + 1) mod n"

text \<open>
  \<^verbatim>\<open>stop_extract_task\<close>. The task clears its own handle when it acknowledges the stop;
  after the timeout the requester recreates the frame mutex and deletes the task.
\<close>

definition stop_extract_task :: "env \<Rightarrow> app_stream_adapter_t \<Rightarrow> app_stream_adapter_t" where
  "stop_extract_task e a =
     (if \<not> extract_task_handle a then a
      else
        (let a1 = (if task_stops e then a
                   else a\<lparr>frame_mutex := (if frame_mutex a then mutex_create e else False)\<rparr>)
         in a1\<lparr>extract_task_handle := False,
                event_bits := and (event_bits a) (not ALL_TASK_BITS)\<rparr>))"

definition start_extract_task :: "env \<Rightarrow> app_stream_adapter_t \<Rightarrow> esp_err \<times> app_stream_adapter_t" where
  "start_extract_task e a =
     (let a1 = (if extract_task_handle a then stop_extract_task e a else a) in
      if \<not> frame_mutex a1 then (ESP_ERR_INVALID_STATE, a1)
      else
        (let a2 = a1\<lparr>event_bits := and (event_bits a1) (not ALL_TASK_BITS)\<rparr> in
         if \<not> task_create e then (ESP_FAIL, a2)
         else (ESP_OK, a2\<lparr>extract_task_handle := True,
                          event_bits := or (event_bits a2) EXTRACT_TASK_START_BIT\<rparr>)))"

definition app_stream_adapter_stop :: "env \<Rightarrow> app_stream_adapter_t option \<Rightarrow> esp_err \<times> app_stream_adapter_t option" where
  "app_stream_adapter_stop e h =
     (case h of
        None \<Rightarrow> (ESP_ERR_INVALID_ARG, h)
      | Some a \<Rightarrow>
          if \<not> running a then (ESP_OK, h)
          else (ESP_OK, Some ((stop_extract_task e a)\<lparr>running := False\<rparr>)))"

definition app_stream_adapter_set_file ::
  "env \<Rightarrow> app_stream_adapter_t option \<Rightarrow> string option \<Rightarrow> bool \<Rightarrow> esp_err \<times> app_stream_adapter_t option" where
  "app_stream_adapter_set_file e h fname want_audio =
     (case h of
        None \<Rightarrow> (ESP_ERR_INVALID_ARG, h)
      | Some a \<Rightarrow>
          if fname = None then (ESP_ERR_INVALID_ARG, h)
          else
            (let a1 = (if running a
                       then (case snd (app_stream_adapter_stop e h) of Some x \<Rightarrow> x | None \<Rightarrow> a)
                       else a) in
             (ESP_OK, Some (a1\<lparr>a_filename := fname, frame_count := 0, has_info := False,
                               width := 0, height := 0, fps := 0, duration := 0,
                               current_buffer := buffer_count a1 - 1,
                               extract_audio := (want_audio \<and> audio_dev a1)\<rparr>))))"

definition app_stream_adapter_start :: "env \<Rightarrow> app_stream_adapter_t option \<Rightarrow> esp_err \<times> app_stream_adapter_t option" where
  "app_stream_adapter_start e h =
     (case h of
        None \<Rightarrow> (ESP_ERR_INVALID_ARG, h)
      | Some a \<Rightarrow>
          if running a then (ESP_OK, h)
          else
            (case a_filename a of
               None \<Rightarrow> (ESP_ERR_INVALID_STATE, h)
             | Some fname \<Rightarrow>
                 (let a1 = a\<lparr>frame_count := 0, has_info := False,
                              current_buffer := buffer_count a - 1\<rparr> in
                  if extractor_start e fname \<noteq> ESP_OK then (extractor_start e fname, Some a1)
                  else
                    (let (ri, w, h', f, d) = extractor_video_info e fname;
                         a2 = (if ri = ESP_OK
                               then a1\<lparr>width := w, height := h', fps := f, duration := d,
                                       has_info := True\<rparr>
                               else a1);
                         r = start_extract_task e a2
                     in if fst r \<noteq> ESP_OK then (fst r, Some (snd r))
                        else (ESP_OK, Some ((snd r)\<lparr>running := True\<rparr>))))))"

definition app_stream_adapter_pause :: "app_stream_adapter_t option \<Rightarrow> esp_err \<times> app_stream_adapter_t option" where
  "app_stream_adapter_pause h =
     (case h of
        None \<Rightarrow> (ESP_ERR_INVALID_ARG, h)
      | Some a \<Rightarrow>
          if \<not> running a then (ESP_ERR_INVALID_STATE, h)
          else (ESP_OK, Some (a\<lparr>event_bits := or (event_bits a) EXTRACT_TASK_PAUSE_BIT\<rparr>)))"

definition app_stream_adapter_resume :: "app_stream_adapter_t option \<Rightarrow> esp_err \<times> app_stream_adapter_t option" where
  "app_stream_adapter_resume h =
     (case h of
        None \<Rightarrow> (ESP_ERR_INVALID_ARG, h)
      | Some a \<Rightarrow>
          if \<not> running a then (ESP_ERR_INVALID_STATE, h)
          else (ESP_OK, Some (a\<lparr>event_bits := or (event_bits a) EXTRACT_TASK_RESUME_BIT\<rparr>)))"

text \<open>\<^verbatim>\<open>app_stream_adapter_get_info\<close>, as called with only the duration requested.\<close>

definition app_stream_adapter_get_info :: "app_stream_adapter_t option \<Rightarrow> esp_err \<times> 32 word" where
  "app_stream_adapter_get_info h =
     (case h of
        None \<Rightarrow> (ESP_ERR_INVALID_ARG, 0)
      | Some a \<Rightarrow> if \<not> has_info a then (ESP_ERR_NOT_FOUND, 0) else (ESP_OK, duration a))"

text \<open>
  \<^verbatim>\<open>app_stream_adapter_init\<close> with the configuration's buffer array and buffer count.
  Every failing allocation releases what was allocated before it and returns its error
  without an adapter.
\<close>

definition app_stream_adapter_init ::
  "env \<Rightarrow> bool list \<Rightarrow> 32 word \<Rightarrow> 32 word \<Rightarrow> bool \<Rightarrow> esp_err \<times> app_stream_adapter_t option" where
  "app_stream_adapter_init e bufs cnt sz audio =
     (if adapter_alloc e \<noteq> ESP_OK then (adapter_alloc e, None)
      else (ESP_OK, Some \<lparr>decode_buffers = bufs, buffer_count = cnt, buffer_size = sz,
              a_filename = None, running = False, current_buffer = cnt - 1, frame_count = 0,
              has_info = False, width = 0, height = 0, fps = 0, duration = 0,
              jpeg_buffer_size = 512 * 1024, extract_task_handle = False, event_bits = 0,
              frame_mutex = True, extract_audio = audio, audio_dev = audio\<rparr>))"

section \<open>State of the orchestrator\<close>

datatype video_state_t =
  VIDEO_STATE_STOPPED | VIDEO_STATE_PLAYING | VIDEO_STATE_PAUSED | VIDEO_STATE_ERROR

datatype ui_mode_t = UI_MODE_IMAGE | UI_MODE_VIDEO

datatype media_type_t = MEDIA_TYPE_UNKNOWN | MEDIA_TYPE_IMAGE | MEDIA_TYPE_VIDEO

datatype pause_reason_t = PAUSE_REASON_NONE | PAUSE_REASON_USER | PAUSE_REASON_USB

datatype ui_event_t =
    UI_EVENT_SWIPE_LEFT | UI_EVENT_SWIPE_RIGHT | UI_EVENT_SWIPE_UP | UI_EVENT_SWIPE_DOWN
  | UI_EVENT_LONG_PRESS | UI_EVENT_TAP | UI_EVENT_SETTINGS_CLOSE | UI_EVENT_SETTINGS_CANCEL

text \<open>The static \<^verbatim>\<open>s_video\<close> of video\_player.c.\<close>

record video_t =
  adapter :: "app_stream_adapter_t option"
  state :: video_state_t
  playback_finished :: bool
  v_audio_dev :: bool
  current_volume :: int
  current_file :: string
  has_error :: bool
  finish_timer :: esp_timer_handle_t

text \<open>The static \<^verbatim>\<open>s_album\<close> of photo\_album.c; \<open>collection\<close> is \<open>None\<close> for \<^verbatim>\<open>NULL\<close>.\<close>

record photo_album_t =
  collection :: "photo_collection_t option"
  album_interval_ms :: "32 word"
  initialized :: bool

text \<open>
  All the statics together, with the presenter's mode, loading overlay, progress label,
  settings panel and volume display. \<open>attempts\<close> is not a variable of the program: it
  records, in order, the index of every candidate on which the body of the retry loop of
  \<^verbatim>\<open>load_and_display_media\<close> runs, so that load attempts can be counted.
\<close>

record world =
  slideshow :: slideshow_t
  video :: video_t
  album :: photo_album_t
  pause_reason :: pause_reason_t
  ui_mode :: ui_mode_t
  ui_loading :: bool
  ui_progress :: "(int \<times> int) option"
  ui_settings_visible :: bool
  ui_volume :: "int option"
  attempts :: "int list"

section \<open>Presenter calls (ui\_manager.c)\<close>

text \<open>
  The display lock is taken with an unbounded wait (\<^verbatim>\<open>UI_DISPLAY_LOCK_TIMEOUT\<close> is 0),
  so these calls always go through.
\<close>

definition ui_manager_switch_mode :: "ui_mode_t \<Rightarrow> world \<Rightarrow> world" where
  "ui_manager_switch_mode m w = w\<lparr>ui_mode := m\<rparr>"

definition ui_manager_show_loading :: "world \<Rightarrow> world" where
  "ui_manager_show_loading w = w\<lparr>ui_loading := True\<rparr>"

definition ui_manager_hide_loading :: "world \<Rightarrow> world" where
  "ui_manager_hide_loading w = w\<lparr>ui_loading := False\<rparr>"

definition ui_manager_update_progress :: "int \<Rightarrow> int \<Rightarrow> world \<Rightarrow> world" where
  "ui_manager_update_progress cur tot w =
     w\<lparr>ui_progress := (if tot \<le> 0 then None else Some (cur + 1, tot))\<rparr>"

definition ui_manager_show_settings :: "world \<Rightarrow> world" where
  "ui_manager_show_settings w = w\<lparr>ui_settings_visible := True\<rparr>"

definition ui_manager_hide_settings :: "world \<Rightarrow> world" where
  "ui_manager_hide_settings w = w\<lparr>ui_settings_visible := False\<rparr>"

text \<open>
  \<^verbatim>\<open>ui_manager_display_image\<close> for the decoded image of the file at \<open>p\<close>: the argument
  check fails before anything is touched, an allocation failure after the switch to
  image mode; success hides the loading spinner.
\<close>

definition ui_manager_display_image :: "env \<Rightarrow> string \<Rightarrow> world \<Rightarrow> esp_err \<times> world" where
  "ui_manager_display_image e p w =
     (let r = display_image e p in
      if r = ESP_ERR_INVALID_ARG then (r, w)
      else if r \<noteq> ESP_OK then (r, ui_manager_switch_mode UI_MODE_IMAGE w)
      else (ESP_OK, (ui_manager_switch_mode UI_MODE_IMAGE w)\<lparr>ui_loading := False\<rparr>))"

section \<open>Media type of a file (file\_manager.c)\<close>

text \<open>\<^verbatim>\<open>strcasecmp\<close> compares after mapping the upper-case ASCII letters to lower case.\<close>

definition tolower_c :: "char \<Rightarrow> char" where
  "tolower_c c =
     (case map_of (zip ''ABCDEFGHIJKLMNOPQRSTUVWXYZ'' ''abcdefghijklmnopqrstuvwxyz'') c of
        Some l \<Rightarrow> l
      | None \<Rightarrow> c)"

definition strcasecmp_eq :: "string \<Rightarrow> string \<Rightarrow> bool" where
  "strcasecmp_eq a b = (map tolower_c a = map tolower_c b)"

text \<open>\<^verbatim>\<open>strrchr(s, '.')\<close>: the suffix that starts at the last dot.\<close>

fun strrchr_dot :: "string \<Rightarrow> string option" where
  "strrchr_dot [] = None"
| "strrchr_dot (c # cs) =
     (case strrchr_dot cs of
        Some r \<Rightarrow> Some r
      | None \<Rightarrow> if c = CHR ''.'' then Some (c # cs) else None)"

definition file_manager_get_media_type :: "string \<Rightarrow> media_type_t" where
  "file_manager_get_media_type fname =
     (case strrchr_dot fname of
        None \<Rightarrow> MEDIA_TYPE_UNKNOWN
      | Some ext \<Rightarrow>
          if strcasecmp_eq ext ''.mp4'' \<or> strcasecmp_eq ext ''.avi'' then MEDIA_TYPE_VIDEO
          else if strcasecmp_eq ext ''.jpg'' \<or> strcasecmp_eq ext ''.jpeg''
                  \<or> strcasecmp_eq ext ''.png'' then MEDIA_TYPE_IMAGE
          else MEDIA_TYPE_UNKNOWN)"

section \<open>Video playback controller (video\_player.c)\<close>

definition DEFAULT_AUDIO_VOLUME :: int where "DEFAULT_AUDIO_VOLUME = 50"
definition MIN_AUDIO_VOLUME :: int where "MIN_AUDIO_VOLUME = 0"
definition MAX_AUDIO_VOLUME :: int where "MAX_AUDIO_VOLUME = 100"
definition VOLUME_ADJUSTMENT_STEP :: int where "VOLUME_ADJUSTMENT_STEP = 10"

text \<open>\<^verbatim>\<open>VIDEO_BUFFER_SIZE\<close> is 1920 * 1080 * 2.\<close>

definition VIDEO_BUFFER_SIZE :: "32 word" where
  "VIDEO_BUFFER_SIZE = 4147200"

definition video_player_init :: "env \<Rightarrow> bool \<Rightarrow> video_t \<Rightarrow> esp_err \<times> video_t" where
  "video_player_init e audio v =
     (if adapter v \<noteq> None then (ESP_OK, v)
      else
        (let v1 = v\<lparr>v_audio_dev := audio, current_volume := DEFAULT_AUDIO_VOLUME,
                    has_error := False, current_file := []\<rparr> in
         if \<not> fst (buffer_alloc e) \<or> \<not> snd (buffer_alloc e) then (ESP_ERR_NO_MEM, v1)
         else
           (let r = app_stream_adapter_init e [True, True] 2 VIDEO_BUFFER_SIZE audio in
            if fst r = ESP_OK then (ESP_OK, v1\<lparr>adapter := snd r, state := VIDEO_STATE_STOPPED\<rparr>)
            else (fst r, v1\<lparr>adapter := snd r\<rparr>))))"

text \<open>
  Arming of the completion timer, as \<^verbatim>\<open>video_player_play\<close> and
  \<^verbatim>\<open>video_player_switch_file\<close> do it once playback has started: only for a known,
  non-zero duration, for the duration plus 500 ms, in microseconds. \<open>stop_first\<close> is
  the \<^verbatim>\<open>esp_timer_stop\<close> that only \<^verbatim>\<open>video_player_play\<close> issues at this point.
\<close>

definition arm_finish_timer :: "env \<Rightarrow> bool \<Rightarrow> video_t \<Rightarrow> video_t" where
  "arm_finish_timer e stop_first v =
     (let info = app_stream_adapter_get_info (adapter v) in
      if fst info = ESP_OK \<and> snd info > 0 then
        (let timeout_us = (unat (snd info) + 500) * 1000;
             ft = (case finish_timer v of
                     None \<Rightarrow> if timer_create e = ESP_OK then Some Disarmed else None
                   | Some t \<Rightarrow> Some t)
         in case ft of
              None \<Rightarrow> v\<lparr>finish_timer := ft\<rparr>
            | Some t \<Rightarrow>
                v\<lparr>finish_timer := snd (esp_timer_start_once
                                        (if stop_first then snd (esp_timer_stop ft) else ft)
                                        timeout_us)\<rparr>)
      else v)"

text \<open>
  \<^verbatim>\<open>video_player_play\<close>. The path is a C string (the first statement copies from it);
  the stored copy keeps at most 255 characters.
\<close>

definition video_player_play :: "env \<Rightarrow> string \<Rightarrow> world \<Rightarrow> esp_err \<times> world" where
  "video_player_play e mp4_file w =
     (let v = video w in
      if adapter v = None then (ESP_ERR_INVALID_STATE, w)
      else
        (let v1 = v\<lparr>current_file := take 255 mp4_file, has_error := False\<rparr>;
             r1 = app_stream_adapter_set_file e (adapter v1) (Some mp4_file) (v_audio_dev v1)
         in if fst r1 \<noteq> ESP_OK
            then (fst r1, w\<lparr>video := v1\<lparr>adapter := snd r1, has_error := True,
                                         state := VIDEO_STATE_ERROR\<rparr>\<rparr>)
            else
              (let r2 = app_stream_adapter_start e (snd r1) in
               if fst r2 = ESP_OK then
                 (let v2 = v1\<lparr>adapter := snd r2, state := VIDEO_STATE_PLAYING,
                             playback_finished := False\<rparr>;
                      w1 = ui_manager_switch_mode UI_MODE_VIDEO (w\<lparr>video := v2\<rparr>)
                  in (ESP_OK, w1\<lparr>video := arm_finish_timer e True (video w1)\<rparr>))
               else (fst r2, w\<lparr>video := v1\<lparr>adapter := snd r2, has_error := True,
                                            state := VIDEO_STATE_ERROR\<rparr>\<rparr>))))"

definition video_player_pause :: "video_t \<Rightarrow> esp_err \<times> video_t" where
  "video_player_pause v =
     (if state v = VIDEO_STATE_PLAYING then
        (let r = app_stream_adapter_pause (adapter v) in
         if fst r = ESP_OK then (ESP_OK, v\<lparr>adapter := snd r, state := VIDEO_STATE_PAUSED\<rparr>)
         else (fst r, v\<lparr>adapter := snd r, has_error := True, state := VIDEO_STATE_ERROR\<rparr>))
      else (ESP_OK, v))"

definition video_player_resume :: "video_t \<Rightarrow> esp_err \<times> video_t" where
  "video_player_resume v =
     (if state v = VIDEO_STATE_PAUSED then
        (let r = app_stream_adapter_resume (adapter v) in
         if fst r = ESP_OK then (ESP_OK, v\<lparr>adapter := snd r, state := VIDEO_STATE_PLAYING\<rparr>)
         else (fst r, v\<lparr>adapter := snd r, has_error := True, state := VIDEO_STATE_ERROR\<rparr>))
      else (ESP_OK, v))"

definition video_player_stop :: "env \<Rightarrow> video_t \<Rightarrow> esp_err \<times> video_t" where
  "video_player_stop e v =
     (if adapter v \<noteq> None \<and> state v \<noteq> VIDEO_STATE_STOPPED then
        (let v1 = v\<lparr>state := VIDEO_STATE_STOPPED, playback_finished := True, has_error := False\<rparr>;
             v2 = v1\<lparr>adapter := snd (app_stream_adapter_stop e (adapter v1))\<rparr>
         in (ESP_OK, if finish_timer v2 \<noteq> None
                     then v2\<lparr>finish_timer := snd (esp_timer_stop (finish_timer v2))\<rparr>
                     else v2))
      else (ESP_OK, v))"

definition video_player_get_state :: "video_t \<Rightarrow> video_state_t" where
  "video_player_get_state v = state v"

definition video_player_has_error :: "video_t \<Rightarrow> bool" where
  "video_player_has_error v = (has_error v \<or> state v = VIDEO_STATE_ERROR)"

text \<open>\<^verbatim>\<open>video_player_switch_file\<close>; the path is \<open>None\<close> for a \<^verbatim>\<open>NULL\<close> pointer.\<close>

definition video_player_switch_file :: "env \<Rightarrow> string option \<Rightarrow> video_t \<Rightarrow> esp_err \<times> video_t" where
  "video_player_switch_file e mp4_file v =
     (if adapter v = None then (ESP_ERR_INVALID_STATE, v)
      else
        (case mp4_file of
           None \<Rightarrow> (ESP_ERR_INVALID_ARG, v)
         | Some path \<Rightarrow>
             (let v1 = v\<lparr>current_file := take 255 path\<rparr>;
                  v2 = (if finish_timer v1 \<noteq> None
                        then v1\<lparr>finish_timer := snd (esp_timer_stop (finish_timer v1))\<rparr>
                        else v1);
                  v3 = (if state v2 \<noteq> VIDEO_STATE_STOPPED
                        then v2\<lparr>adapter := snd (app_stream_adapter_stop e (adapter v2))\<rparr>
                        else v2);
                  v4 = v3\<lparr>has_error := False, playback_finished := False\<rparr>;
                  r1 = app_stream_adapter_set_file e (adapter v4) mp4_file (v_audio_dev v4)
              in if fst r1 \<noteq> ESP_OK
                 then (fst r1, v4\<lparr>adapter := snd r1, has_error := True,
                                  state := VIDEO_STATE_ERROR\<rparr>)
                 else
                   (let r2 = app_stream_adapter_start e (snd r1) in
                    if fst r2 = ESP_OK
                    then (ESP_OK, arm_finish_timer e False
                                    (v4\<lparr>adapter := snd r2, state := VIDEO_STATE_PLAYING\<rparr>))
                    else (fst r2, v4\<lparr>adapter := snd r2, has_error := True,
                                     state := VIDEO_STATE_ERROR\<rparr>)))))"

definition video_player_set_volume :: "env \<Rightarrow> int \<Rightarrow> video_t \<Rightarrow> esp_err \<times> video_t" where
  "video_player_set_volume e volume v =
     (let vol1 = (if volume < MIN_AUDIO_VOLUME then MIN_AUDIO_VOLUME else volume);
          vol2 = (if vol1 > MAX_AUDIO_VOLUME then MAX_AUDIO_VOLUME else vol1);
          v1 = v\<lparr>current_volume := vol2\<rparr>
      in if v_audio_dev v1 then (codec_set_vol e, v1) else (ESP_OK, v1))"

section \<open>Album navigator (photo\_album.c)\<close>

definition validate_file_for_decoding :: "image_file_info_t \<Rightarrow> bool" where
  "validate_file_for_decoding fi =
     (if file_size fi > 10 * 1024 * 1024 then False
      else if file_size fi < 100 then False
      else True)"

definition image_needs_processing :: "env \<Rightarrow> 32 word \<Rightarrow> 32 word \<Rightarrow> bool" where
  "image_needs_processing e iw ih = (iw > screen_width e \<or> ih > screen_height e)"

definition set_current_index :: "int \<Rightarrow> world \<Rightarrow> world" where
  "set_current_index i w =
     w\<lparr>album := (album w)\<lparr>collection :=
          map_option (\<lambda>c. c\<lparr>current_index := i\<rparr>) (collection (album w))\<rparr>\<rparr>"

definition on_slideshow :: "(slideshow_t \<Rightarrow> esp_err \<times> slideshow_t) \<Rightarrow> world \<Rightarrow> esp_err \<times> world" where
  "on_slideshow f w = (let r = f (slideshow w) in (fst r, w\<lparr>slideshow := snd r\<rparr>))"

definition on_video :: "(video_t \<Rightarrow> esp_err \<times> video_t) \<Rightarrow> world \<Rightarrow> esp_err \<times> world" where
  "on_video f w = (let r = f (video w) in (fst r, w\<lparr>video := snd r\<rparr>))"

text \<open>
  \<^verbatim>\<open>load_and_display_image\<close>. Every exit after the loading overlay was shown goes through
  the \<^verbatim>\<open>cleanup\<close> label, which hides it again.
\<close>

definition load_and_display_image :: "env \<Rightarrow> int \<Rightarrow> world \<Rightarrow> esp_err \<times> world" where
  "load_and_display_image e index w =
     (case collection (album w) of
        None \<Rightarrow> (ESP_ERR_INVALID_ARG, w)
      | Some c \<Rightarrow>
          if index < 0 \<or> index \<ge> total_count c then (ESP_ERR_INVALID_ARG, w)
          else
            (let fi = files c ! nat index; p = full_path fi in
             if \<not> validate_file_for_decoding fi then (ESP_ERR_INVALID_ARG, w)
             else
               (let w1 = ui_manager_show_loading w in
                if load_image e p \<noteq> ESP_OK then (load_image e p, ui_manager_hide_loading w1)
                else
                  (let (rd, iw, ih) = decode_image e p in
                   if rd \<noteq> ESP_OK then (rd, ui_manager_hide_loading w1)
                   else if image_needs_processing e iw ih \<and> process_image e p \<noteq> ESP_OK
                   then (process_image e p, ui_manager_hide_loading w1)
                   else
                     (let r = ui_manager_display_image e p w1 in
                      if fst r \<noteq> ESP_OK then (fst r, ui_manager_hide_loading (snd r))
                      else
                        (let w2 = snd r;
                             w3 = (if \<not> slideshow_ctrl_is_running (slideshow w2)
                                      \<and> pause_reason w2 = PAUSE_REASON_NONE
                                   then snd (on_slideshow slideshow_ctrl_start w2) else w2);
                             w4 = set_current_index index w3;
                             w5 = ui_manager_update_progress index (total_count c) w4
                         in (ESP_OK, ui_manager_hide_loading w5)))))))"

text \<open>
  The retry loop of \<^verbatim>\<open>load_and_display_media\<close>, by the number of retries left
  (\<^verbatim>\<open>max_retries - retry_count\<close>). \<open>playing\<close> is \<^verbatim>\<open>is_currently_playing_video\<close>, read
  once before the loop; \<open>fs\<close> is the collection's entries, which the loop does not
  change. The candidate stays inside the collection, so \<open>fs ! nat cur\<close> is an entry.
\<close>

fun media_loop :: "env \<Rightarrow> bool \<Rightarrow> image_file_info_t list \<Rightarrow> nat \<Rightarrow> int \<Rightarrow> world \<Rightarrow> esp_err \<times> world" where
  "media_loop e playing fs 0 cur w = (ESP_ERR_NOT_FOUND, w)"
| "media_loop e playing fs (Suc k) cur w =
     (let w0 = w\<lparr>attempts := attempts w @ [cur]\<rparr>;
          p = full_path (fs ! nat cur);
          nxt = (cur + 1) smod int (length fs)
      in case file_manager_get_media_type p of
           MEDIA_TYPE_VIDEO \<Rightarrow>
             (let r = (if playing then on_video (video_player_switch_file e (Some p)) w0
                       else
                         (let w1 = ui_manager_switch_mode UI_MODE_VIDEO (ui_manager_show_loading w0);
                              w2 = snd (on_slideshow slideshow_ctrl_stop w1);
                              r0 = video_player_play e p w2
                          in (fst r0, ui_manager_hide_loading (snd r0))))
              in if fst r = ESP_OK
                 then (ESP_OK, ui_manager_update_progress cur (int (length fs))
                                 (set_current_index cur (snd r)))
                 else media_loop e playing fs k nxt
                        (if \<not> playing then ui_manager_switch_mode UI_MODE_IMAGE (snd r) else snd r))
         | MEDIA_TYPE_IMAGE \<Rightarrow>
             (let r = load_and_display_image e cur (ui_manager_switch_mode UI_MODE_IMAGE w0) in
              if fst r = ESP_OK then (ESP_OK, snd r)
              else media_loop e playing fs k nxt (snd r))
         | MEDIA_TYPE_UNKNOWN \<Rightarrow> media_loop e playing fs k nxt w0)"

definition load_and_display_media :: "env \<Rightarrow> int \<Rightarrow> world \<Rightarrow> esp_err \<times> world" where
  "load_and_display_media e index w =
     (case collection (album w) of
        None \<Rightarrow> (ESP_ERR_INVALID_ARG, w)
      | Some c \<Rightarrow>
          if index < 0 \<or> index \<ge> total_count c then (ESP_ERR_INVALID_ARG, w)
          else
            (let video_state = video_player_get_state (video w);
                 playing = (video_state = VIDEO_STATE_PLAYING \<or> video_state = VIDEO_STATE_PAUSED)
             in media_loop e playing (files c) (nat (total_count c)) index w))"

text \<open>The test and the stop that open \<^verbatim>\<open>photo_album_next\<close> and \<^verbatim>\<open>photo_album_prev\<close>.\<close>

definition stop_video_before_switch :: "env \<Rightarrow> world \<Rightarrow> world" where
  "stop_video_before_switch e w =
     (let video_state = video_player_get_state (video w) in
      if video_state = VIDEO_STATE_PLAYING \<or> video_state = VIDEO_STATE_PAUSED
      then snd (on_video (video_player_stop e)
                  (ui_manager_switch_mode UI_MODE_IMAGE (ui_manager_show_loading w)))
      else w)"

definition photo_album_next :: "env \<Rightarrow> world \<Rightarrow> esp_err \<times> world" where
  "photo_album_next e w =
     (case collection (album w) of
        None \<Rightarrow> (ESP_ERR_INVALID_STATE, w)
      | Some c \<Rightarrow>
          if \<not> initialized (album w) \<or> total_count c = 0 then (ESP_ERR_INVALID_STATE, w)
          else
            (let w1 = stop_video_before_switch e w;
                 next_index = (current_index c + 1) smod total_count c
             in load_and_display_media e next_index w1))"

text \<open>The retry loop of \<^verbatim>\<open>photo_album_prev\<close>, by the number of retries left.\<close>

fun prev_loop :: "env \<Rightarrow> int \<Rightarrow> nat \<Rightarrow> int \<Rightarrow> world \<Rightarrow> esp_err \<times> world" where
  "prev_loop e n 0 prev_index w = (ESP_ERR_NOT_FOUND, w)"
| "prev_loop e n (Suc k) prev_index w =
     (let r = load_and_display_media e prev_index w in
      if fst r = ESP_OK then (ESP_OK, snd r)
      else prev_loop e n k ((prev_index - 1 + n) smod n) (snd r))"

definition photo_album_prev :: "env \<Rightarrow> world \<Rightarrow> esp_err \<times> world" where
  "photo_album_prev e w =
     (case collection (album w) of
        None \<Rightarrow> (ESP_ERR_INVALID_STATE, w)
      | Some c \<Rightarrow>
          if \<not> initialized (album w) \<or> total_count c = 0 then (ESP_ERR_INVALID_STATE, w)
          else
            (let w1 = stop_video_before_switch e w;
                 n = total_count c;
                 prev_index = (current_index c - 1 + n) smod n
             in prev_loop e n (nat n) prev_index w1))"

definition photo_album_goto :: "env \<Rightarrow> int \<Rightarrow> world \<Rightarrow> esp_err \<times> world" where
  "photo_album_goto e index w =
     (case collection (album w) of
        None \<Rightarrow> (ESP_ERR_INVALID_ARG, w)
      | Some c \<Rightarrow>
          if \<not> initialized (album w) \<or> index < 0 \<or> index \<ge> total_count c
          then (ESP_ERR_INVALID_ARG, w)
          else load_and_display_media e index w)"

definition photo_album_get_total_count :: "world \<Rightarrow> int" where
  "photo_album_get_total_count w =
     (case collection (album w) of
        None \<Rightarrow> 0
      | Some c \<Rightarrow> if \<not> initialized (album w) then 0 else total_count c)"

definition photo_album_get_current_index :: "world \<Rightarrow> int" where
  "photo_album_get_current_index w =
     (case collection (album w) of
        None \<Rightarrow> - 1
      | Some c \<Rightarrow> if \<not> initialized (album w) then - 1 else current_index c)"

definition photo_album_set_interval :: "32 word \<Rightarrow> world \<Rightarrow> esp_err \<times> world" where
  "photo_album_set_interval interval w =
     (if \<not> initialized (album w) then (ESP_ERR_INVALID_STATE, w)
      else on_slideshow (slideshow_ctrl_set_interval interval)
             (w\<lparr>album := (album w)\<lparr>album_interval_ms := interval\<rparr>\<rparr>))"

definition photo_album_pause :: "world \<Rightarrow> esp_err \<times> world" where
  "photo_album_pause w =
     (if \<not> initialized (album w) then (ESP_ERR_INVALID_STATE, w)
      else on_slideshow slideshow_ctrl_pause (w\<lparr>pause_reason := PAUSE_REASON_USER\<rparr>))"

definition photo_album_pause_for_usb :: "world \<Rightarrow> esp_err \<times> world" where
  "photo_album_pause_for_usb w =
     (if \<not> initialized (album w) then (ESP_ERR_INVALID_STATE, w)
      else on_slideshow slideshow_ctrl_stop (w\<lparr>pause_reason := PAUSE_REASON_USB\<rparr>))"

definition photo_album_resume :: "world \<Rightarrow> esp_err \<times> world" where
  "photo_album_resume w =
     (if \<not> initialized (album w) then (ESP_ERR_INVALID_STATE, w)
      else if pause_reason w = PAUSE_REASON_USB
      then on_slideshow slideshow_ctrl_start (w\<lparr>pause_reason := PAUSE_REASON_NONE\<rparr>)
      else on_slideshow slideshow_ctrl_resume (w\<lparr>pause_reason := PAUSE_REASON_NONE\<rparr>))"

definition photo_album_is_paused :: "world \<Rightarrow> bool" where
  "photo_album_is_paused w =
     (if \<not> initialized (album w) then True
      else \<not> slideshow_ctrl_is_running (slideshow w))"

text \<open>
  \<^verbatim>\<open>photo_album_start\<close> and \<^verbatim>\<open>photo_album_refresh\<close>. A scan replaces the entries of the
  collection and leaves \<^verbatim>\<open>current_index\<close> alone. Both functions read the collection
  without a \<^verbatim>\<open>NULL\<close> test; the model answers \<open>ESP_FAIL\<close> for a missing collection,
  which an initialised album never has.
\<close>

definition file_manager_scan_images :: "env \<Rightarrow> world \<Rightarrow> esp_err \<times> world" where
  "file_manager_scan_images e w =
     (case snd (scan_images e) of
        None \<Rightarrow> (fst (scan_images e), w)
      | Some fs \<Rightarrow>
          (fst (scan_images e),
           w\<lparr>album := (album w)\<lparr>collection :=
                map_option (\<lambda>c. c\<lparr>files := fs\<rparr>) (collection (album w))\<rparr>\<rparr>))"

definition count_of :: "world \<Rightarrow> int" where
  "count_of w = (case collection (album w) of None \<Rightarrow> 0 | Some c \<Rightarrow> total_count c)"

definition index_of :: "world \<Rightarrow> int" where
  "index_of w = (case collection (album w) of None \<Rightarrow> 0 | Some c \<Rightarrow> current_index c)"

definition photo_album_start :: "env \<Rightarrow> world \<Rightarrow> esp_err \<times> world" where
  "photo_album_start e w =
     (if \<not> initialized (album w) then (ESP_ERR_INVALID_STATE, w)
      else if collection (album w) = None then (ESP_FAIL, w)
      else
        (let r = file_manager_scan_images e w in
         if fst r \<noteq> ESP_OK \<or> count_of (snd r) = 0 then (ESP_ERR_NOT_FOUND, snd r)
         else
           (let r2 = load_and_display_media e 0 (snd r) in
            if fst r2 = ESP_OK then (ESP_OK, snd (on_slideshow slideshow_ctrl_start (snd r2)))
            else r2)))"

text \<open>The search of \<^verbatim>\<open>photo_album_refresh\<close> for the remembered file name.\<close>

fun find_filename :: "string \<Rightarrow> image_file_info_t list \<Rightarrow> nat \<Rightarrow> int" where
  "find_filename name [] i = 0"
| "find_filename name (f # fs) i =
     (if filename f = name then int i else find_filename name fs (Suc i))"

definition photo_album_refresh :: "env \<Rightarrow> world \<Rightarrow> esp_err \<times> world" where
  "photo_album_refresh e w =
     (if \<not> initialized (album w) then (ESP_ERR_INVALID_STATE, w)
      else
        (case collection (album w) of
           None \<Rightarrow> (ESP_FAIL, w)
         | Some c \<Rightarrow>
             (let old_index = current_index c;
                  current_filename =
                    (if old_index \<ge> 0 \<and> old_index < total_count c
                     then take 255 (filename (files c ! nat old_index)) else []);
                  r = file_manager_scan_images e w
              in if fst r \<noteq> ESP_OK then r
                 else
                   (let w1 = snd r;
                        fs = (case collection (album w1) of None \<Rightarrow> [] | Some c1 \<Rightarrow> files c1);
                        new_index = (if length current_filename > 0
                                     then find_filename current_filename fs 0 else 0);
                        w2 = set_current_index
                               (if count_of w1 > 0 then new_index smod count_of w1 else 0) w1
                    in if \<not> photo_album_is_paused w2
                       then (ESP_OK, snd (load_and_display_media e (index_of w2) w2))
                       else (ESP_OK, w2)))))"

section \<open>Timer callbacks and presenter events\<close>

text \<open>\<^verbatim>\<open>video_finish_timer_cb\<close> of video\_player.c.\<close>

definition video_finish_timer_cb :: "env \<Rightarrow> world \<Rightarrow> world" where
  "video_finish_timer_cb e w =
     snd (photo_album_next e (snd (on_slideshow slideshow_ctrl_start w)))"

text \<open>\<^verbatim>\<open>slideshow_timer_callback\<close>, whose \<^verbatim>\<open>next_cb\<close> is \<^verbatim>\<open>photo_album_next\<close>.\<close>

definition slideshow_timer_callback :: "env \<Rightarrow> world \<Rightarrow> world" where
  "slideshow_timer_callback e w =
     (if next_cb (slideshow w) \<and> is_running (slideshow w) \<and> \<not> manual_control (slideshow w)
      then snd (photo_album_next e w) else w)"

text \<open>
  Passing time shows as timer expiries. An armed timer can expire and then runs its
  callback; a one-shot timer is disarmed when it expires. \<open>None\<close> means that the timer
  is not armed, so this expiry cannot happen.
\<close>

definition idle_timer_expires :: "world \<Rightarrow> world option" where
  "idle_timer_expires w =
     (if is_once (idle_timer (slideshow w))
      then Some (w\<lparr>slideshow := idle_timer_callback ((slideshow w)\<lparr>idle_timer := Some Disarmed\<rparr>)\<rparr>)
      else None)"

definition slideshow_timer_expires :: "env \<Rightarrow> world \<Rightarrow> world option" where
  "slideshow_timer_expires e w =
     (if is_periodic (timer (slideshow w)) then Some (slideshow_timer_callback e w) else None)"

definition finish_timer_expires :: "env \<Rightarrow> world \<Rightarrow> world option" where
  "finish_timer_expires e w =
     (if is_once (finish_timer (video w))
      then Some (video_finish_timer_cb e (w\<lparr>video := (video w)\<lparr>finish_timer := Some Disarmed\<rparr>\<rparr>))
      else None)"

text \<open>\<^verbatim>\<open>ui_event_handler\<close> of photo\_album.c.\<close>

definition current_media_type :: "world \<Rightarrow> media_type_t" where
  "current_media_type w =
     (case collection (album w) of
        None \<Rightarrow> MEDIA_TYPE_UNKNOWN
      | Some c \<Rightarrow>
          if current_index c \<ge> 0 \<and> current_index c < total_count c
          then file_manager_get_media_type (full_path (files c ! nat (current_index c)))
          else MEDIA_TYPE_UNKNOWN)"

definition ui_event_handler :: "env \<Rightarrow> ui_event_t \<Rightarrow> world \<Rightarrow> world" where
  "ui_event_handler e ev w =
     (let mt = current_media_type w in
      case ev of
        UI_EVENT_SWIPE_LEFT \<Rightarrow>
          snd (photo_album_next e (snd (on_slideshow slideshow_ctrl_manual_trigger w)))
      | UI_EVENT_SWIPE_RIGHT \<Rightarrow>
          snd (photo_album_prev e (snd (on_slideshow slideshow_ctrl_manual_trigger w)))
      | UI_EVENT_SWIPE_UP \<Rightarrow>
          if mt = MEDIA_TYPE_VIDEO then
            (let nv = current_volume (video w) + VOLUME_ADJUSTMENT_STEP;
                 nv1 = (if nv > MAX_AUDIO_VOLUME then MAX_AUDIO_VOLUME else nv)
             in (snd (on_video (video_player_set_volume e nv1) w))\<lparr>ui_volume := Some nv1\<rparr>)
          else w
      | UI_EVENT_SWIPE_DOWN \<Rightarrow>
          if mt = MEDIA_TYPE_VIDEO then
            (let nv = current_volume (video w) - VOLUME_ADJUSTMENT_STEP;
                 nv1 = (if nv < MIN_AUDIO_VOLUME then MIN_AUDIO_VOLUME else nv)
             in (snd (on_video (video_player_set_volume e nv1) w))\<lparr>ui_volume := Some nv1\<rparr>)
          else w
      | UI_EVENT_LONG_PRESS \<Rightarrow>
          snd (on_slideshow slideshow_ctrl_stop (ui_manager_show_settings w))
      | UI_EVENT_TAP \<Rightarrow>
          if mt = MEDIA_TYPE_VIDEO then
            (if video_player_get_state (video w) = VIDEO_STATE_PLAYING
             then snd (on_slideshow slideshow_ctrl_pause (snd (on_video video_player_pause w)))
             else if video_player_get_state (video w) = VIDEO_STATE_PAUSED
             then snd (on_video video_player_resume w)
             else w)
          else w
      | UI_EVENT_SETTINGS_CLOSE \<Rightarrow>
          (let w1 = (if selected_interval e \<noteq> album_interval_ms (album w)
                     then snd (on_slideshow (slideshow_ctrl_set_interval (selected_interval e))
                                 (w\<lparr>album := (album w)\<lparr>album_interval_ms := selected_interval e\<rparr>\<rparr>))
                     else w)
           in snd (on_slideshow slideshow_ctrl_start (ui_manager_hide_settings w1)))
      | UI_EVENT_SETTINGS_CANCEL \<Rightarrow>
          snd (on_slideshow slideshow_ctrl_start (ui_manager_hide_settings w)))"

section \<open>Sequences of calls and example configurations\<close>

text \<open>\<open>nexts e k\<close> is \<open>k\<close> successive calls of \<^verbatim>\<open>photo_album_next\<close>.\<close>

fun nexts :: "env \<Rightarrow> nat \<Rightarrow> world \<Rightarrow> world" where
  "nexts e 0 w = w"
| "nexts e (Suc k) w = nexts e k (snd (photo_album_next e w))"

text \<open>The statics before any initialisation: all zero.\<close>

definition ss0 :: slideshow_t where
  "ss0 = \<lparr>timer = None, idle_timer = None, next_cb = False, interval_ms = 0,
          is_running = False, manual_control = False\<rparr>"

definition video0 :: video_t where
  "video0 = \<lparr>adapter = None, state = VIDEO_STATE_STOPPED, playback_finished = False,
             v_audio_dev = False, current_volume = 0, current_file = [], has_error = False,
             finish_timer = None\<rparr>"

text \<open>
  An environment for a 1024 x 600 screen in which every platform call succeeds and every
  video lasts 3000 ms; the files whose paths are in \<open>bad\<close> are corrupt: the image decoder
  and the container extractor reject them.
\<close>

definition ex_env :: "string list \<Rightarrow> env" where
  "ex_env bad =
     \<lparr>screen_width = 1024, screen_height = 600,
      load_image = (\<lambda>p. ESP_OK),
      decode_image = (\<lambda>p. if p \<in> set bad then (ESP_FAIL, 0, 0) else (ESP_OK, 800, 480)),
      process_image = (\<lambda>p. ESP_OK),
      display_image = (\<lambda>p. ESP_OK),
      extractor_start = (\<lambda>p. if p \<in> set bad then ESP_FAIL else ESP_OK),
      extractor_video_info = (\<lambda>p. (ESP_OK, 640, 480, 30, 3000)),
      task_create = True, task_stops = True, mutex_create = True, timer_create = ESP_OK,
      scan_images = (ESP_OK, None), adapter_alloc = ESP_OK, buffer_alloc = (True, True),
      selected_interval = 5000, codec_set_vol = ESP_OK\<rparr>"

definition mk_file :: "string \<Rightarrow> nat \<Rightarrow> image_file_info_t" where
  "mk_file name sz = \<lparr>filename = name, full_path = ''/sdcard/photos/'' @ name, file_size = sz\<rparr>"

text \<open>
  The state once the album, the slideshow timer (5000 ms) and the video player are
  initialised, with the entries \<open>fs\<close> scanned and entry \<open>i\<close> current; nothing is running.
\<close>

definition ex_world :: "image_file_info_t list \<Rightarrow> int \<Rightarrow> world" where
  "ex_world fs i =
     \<lparr>slideshow = snd (slideshow_ctrl_init True 5000 ESP_OK ESP_OK ss0),
      video = snd (video_player_init (ex_env []) False video0),
      album = \<lparr>collection = Some \<lparr>files = fs, current_index = i\<rparr>,
                album_interval_ms = 5000, initialized = True\<rparr>,
      pause_reason = PAUSE_REASON_NONE,
      ui_mode = UI_MODE_IMAGE, ui_loading = False, ui_progress = None,
      ui_settings_visible = False, ui_volume = None, attempts = []\<rparr>"

text \<open>
  The buffer array as \<^verbatim>\<open>video_player_init\<close> configures it has at least two buffers, all
  allocated.
\<close>

definition buffers_ready :: "app_stream_adapter_t \<Rightarrow> bool" where
  "buffers_ready a =
     (2 \<le> buffer_count a
      \<and> (\<forall>i < unat (buffer_count a). i < length (decode_buffers a) \<and> decode_buffers a ! i))"

text \<open>The adapter that \<^verbatim>\<open>video_player_init\<close> creates without an audio device.\<close>

definition ex_adapter :: app_stream_adapter_t where
  "ex_adapter =
     \<lparr>decode_buffers = [True, True], buffer_count = 2, buffer_size = VIDEO_BUFFER_SIZE,
      a_filename = None, running = False, current_buffer = 1, frame_count = 0,
      has_info = False, width = 0, height = 0, fps = 0, duration = 0,
      jpeg_buffer_size = 524288, extract_task_handle = False, event_bits = 0,
      frame_mutex = True, extract_audio = False, audio_dev = False\<rparr>"

text \<open>A 640 x 480 video frame of 20000 bytes that decodes.\<close>

definition ex_frame :: frame_in where
  "ex_frame =
     \<lparr>f_is_video = True, f_size = 20000, f_lock = True, f_info = ESP_OK, f_width = 640,
      f_height = 480, f_process = ESP_OK, f_out_size = 614400, f_cb = ESP_OK\<rparr>"

text \<open>An audio frame, and a video frame whose decode fails.\<close>

definition ex_audio_frame :: frame_in where
  "ex_audio_frame = ex_frame\<lparr>f_is_video := False, f_size := 1024\<rparr>"

definition ex_bad_frame :: frame_in where
  "ex_bad_frame = ex_frame\<lparr>f_process := ESP_FAIL\<rparr>"

text \<open>
  The operations of the video playback controller that can fail, as one call on the
  state; \<open>Switch None\<close> is \<^verbatim>\<open>video_player_switch_file(NULL)\<close>.
\<close>

datatype video_op = Play string | Switch "string option" | Pause | Resume

definition video_apply :: "env \<Rightarrow> video_op \<Rightarrow> world \<Rightarrow> esp_err \<times> world" where
  "video_apply e op w =
     (case op of
        Play p \<Rightarrow> video_player_play e p w
      | Switch p \<Rightarrow> on_video (video_player_switch_file e p) w
      | Pause \<Rightarrow> on_video video_player_pause w
      | Resume \<Rightarrow> on_video video_player_resume w)"

text \<open>The adapter is not marked running.\<close>

definition adapter_idle :: "app_stream_adapter_t option \<Rightarrow> bool" where
  "adapter_idle h = (case h of None \<Rightarrow> True | Some a \<Rightarrow> \<not> running a)"

text \<open>The playback state is Stopped or Error and the adapter is not marked running.\<close>

definition halted :: "video_t \<Rightarrow> bool" where
  "halted v =
     ((state v = VIDEO_STATE_STOPPED \<or> state v = VIDEO_STATE_ERROR) \<and> adapter_idle (adapter v))"

text \<open>
  Without an adapter the player is in its initial state: \<^verbatim>\<open>video_player_init\<close> has not
  succeeded and no operation has changed \<^verbatim>\<open>s_video.state\<close>.
\<close>

definition video_inv :: "video_t \<Rightarrow> bool" where
  "video_inv v = (adapter v \<noteq> None \<or> state v = VIDEO_STATE_STOPPED)"

text \<open>Two example paths and a collection of one image and one video.\<close>

definition ex_mp4 :: string where
  "ex_mp4 = ''/sdcard/photos/c.mp4''"

definition ex_files :: "image_file_info_t list" where
  "ex_files = [mk_file ''a.jpg'' 2000, mk_file ''c.mp4'' 900000]"

text \<open>
  What it means for the environment that an entry loads: for an image, every step of
  \<^verbatim>\<open>load_and_display_image\<close> succeeds (size within bounds, file read, decode, scaling when
  the image is larger than the screen, display); for a video, the container extractor
  starts on it. An entry of unknown type never loads. \<open>platform_ok\<close> says that the
  operating system creates the extraction task when asked and that a stop request
  leaves a usable frame mutex.
\<close>

definition image_loads :: "env \<Rightarrow> image_file_info_t \<Rightarrow> bool" where
  "image_loads e fi =
     (validate_file_for_decoding fi
      \<and> load_image e (full_path fi) = ESP_OK
      \<and> fst (decode_image e (full_path fi)) = ESP_OK
      \<and> (\<not> image_needs_processing e (fst (snd (decode_image e (full_path fi))))
                                       (snd (snd (decode_image e (full_path fi))))
          \<or> process_image e (full_path fi) = ESP_OK)
      \<and> display_image e (full_path fi) = ESP_OK)"

definition entry_loads :: "env \<Rightarrow> image_file_info_t \<Rightarrow> bool" where
  "entry_loads e fi =
     (case file_manager_get_media_type (full_path fi) of
        MEDIA_TYPE_IMAGE \<Rightarrow> image_loads e fi
      | MEDIA_TYPE_VIDEO \<Rightarrow> extractor_start e (full_path fi) = ESP_OK
      | MEDIA_TYPE_UNKNOWN \<Rightarrow> False)"

definition entry_fails :: "env \<Rightarrow> image_file_info_t \<Rightarrow> bool" where
  "entry_fails e fi =
     (case file_manager_get_media_type (full_path fi) of
        MEDIA_TYPE_IMAGE \<Rightarrow> \<not> image_loads e fi
      | MEDIA_TYPE_VIDEO \<Rightarrow> extractor_start e (full_path fi) \<noteq> ESP_OK
      | MEDIA_TYPE_UNKNOWN \<Rightarrow> True)"

definition platform_ok :: "env \<Rightarrow> bool" where
  "platform_ok e = (task_create e \<and> (task_stops e \<or> mutex_create e))"

text \<open>
  The state of an initialised album and video player: the collection holds the entries
  \<open>fs\<close>, \<^verbatim>\<open>current_index\<close> is inside it, and the adapter exists with its frame mutex.
\<close>

definition nav_inv :: "image_file_info_t list \<Rightarrow> world \<Rightarrow> bool" where
  "nav_inv fs w =
     (initialized (album w)
      \<and> (case collection (album w) of
            None \<Rightarrow> False
          | Some c \<Rightarrow> files c = fs \<and> 0 \<le> current_index c \<and> current_index c < int (length fs))
      \<and> (case adapter (video w) of None \<Rightarrow> False | Some a \<Rightarrow> frame_mutex a))"

text \<open>
  The container reports a known, non-zero duration for the file at \<open>p\<close>, and the timeout
  of the completion timer for it: the duration plus a margin of 500 ms, in microseconds.
\<close>

definition known_duration :: "env \<Rightarrow> string \<Rightarrow> bool" where
  "known_duration e p =
     (fst (extractor_video_info e p) = ESP_OK
      \<and> 0 < snd (snd (snd (snd (extractor_video_info e p)))))"

definition completion_timeout_us :: "env \<Rightarrow> string \<Rightarrow> nat" where
  "completion_timeout_us e p =
     (unat (snd (snd (snd (snd (extractor_video_info e p))))) + 500) * 1000"

text \<open>Two corrupt images, and the environment in which they are corrupt.\<close>

definition ex_corrupt :: "image_file_info_t list" where
  "ex_corrupt = [mk_file ''a.jpg'' 2000, mk_file ''b.jpg'' 2000]"

definition ex_corrupt_env :: env where
  "ex_corrupt_env = ex_env [''/sdcard/photos/a.jpg'', ''/sdcard/photos/b.jpg'']"

text \<open>
  The video entry of \<open>ex_files\<close> started with \<^verbatim>\<open>photo_album_goto\<close>, and then a USB host
  connecting while it plays: the USB status callback of usb\_manager.c pauses the video,
  switches the presenter to image mode and calls \<^verbatim>\<open>photo_album_pause_for_usb\<close>.
\<close>

definition ex_video_playing :: world where
  "ex_video_playing = snd (photo_album_goto (ex_env []) 1 (ex_world ex_files 0))"

definition ex_usb_hold :: world where
  "ex_usb_hold =
     snd (photo_album_pause_for_usb
       (ui_manager_switch_mode UI_MODE_IMAGE (snd (on_video video_player_pause ex_video_playing))))"

section \<open>Properties of the slideshow timer\<close>

lemma esp_timer_stop_some [simp]: "snd (esp_timer_stop (Some t)) = Some Disarmed"
  by (cases t) (simp_all add: esp_timer_stop_def)

lemma esp_timer_start_once_disarmed [simp]:
  "esp_timer_start_once (Some Disarmed) t = (ESP_OK, Some (Once t))"
  by (simp add: esp_timer_start_once_def)

lemma esp_timer_start_periodic_disarmed [simp]:
  "esp_timer_start_periodic (Some Disarmed) t = (ESP_OK, Some (Periodic t))"
  by (simp add: esp_timer_start_periodic_def)

lemma is_once_iff: "is_once h = (\<exists>t. h = Some (Once t))"
  by (cases h rule: is_once.cases) simp_all

lemma is_periodic_iff: "is_periodic h = (\<exists>t. h = Some (Periodic t))"
  by (cases h rule: is_periodic.cases) simp_all

lemma manual_trigger_step:
  assumes "slideshow_inv s" and "is_running s"
  shows "slideshow_ctrl_manual_trigger s =
           (ESP_OK, s\<lparr>manual_control := True, timer := Some Disarmed,
                       idle_timer := Some (Once (IDLE_TIMEOUT_MS * 1000))\<rparr>)"
  using assms
  by (auto simp: slideshow_inv_def slideshow_ctrl_manual_trigger_def slideshow_ctrl_pause_def
      is_once_iff is_periodic_iff Let_def split: if_splits)

text \<open>Every operation of the controller keeps it in one of its three states.\<close>

lemma slideshow_inv_init: "slideshow_inv (snd (slideshow_ctrl_init True i ESP_OK ESP_OK s))"
  by (simp add: slideshow_inv_def slideshow_ctrl_init_def Let_def)

lemma slideshow_inv_start: "slideshow_inv s \<Longrightarrow> slideshow_inv (snd (slideshow_ctrl_start s))"
  by (auto simp: slideshow_inv_def slideshow_ctrl_start_def Let_def split: if_splits)

lemma slideshow_inv_stop: "slideshow_inv s \<Longrightarrow> slideshow_inv (snd (slideshow_ctrl_stop s))"
  by (auto simp: slideshow_inv_def slideshow_ctrl_stop_def is_once_iff is_periodic_iff
      split: if_splits)

lemma slideshow_inv_pause: "slideshow_inv s \<Longrightarrow> slideshow_inv (snd (slideshow_ctrl_pause s))"
  by (auto simp: slideshow_inv_def slideshow_ctrl_pause_def is_once_iff is_periodic_iff
      split: if_splits)

lemma slideshow_inv_resume: "slideshow_inv s \<Longrightarrow> slideshow_inv (snd (slideshow_ctrl_resume s))"
  by (auto simp: slideshow_inv_def slideshow_ctrl_resume_def is_once_iff is_periodic_iff Let_def
      split: if_splits)

lemma slideshow_inv_set_interval:
  "slideshow_inv s \<Longrightarrow> slideshow_inv (snd (slideshow_ctrl_set_interval i s))"
  by (auto simp: slideshow_inv_def slideshow_ctrl_set_interval_def is_once_iff is_periodic_iff
      Let_def split: if_splits)

lemma slideshow_inv_manual_trigger:
  "slideshow_inv s \<Longrightarrow> slideshow_inv (snd (slideshow_ctrl_manual_trigger s))"
  by (cases "is_running s")
    (simp_all add: manual_trigger_step, simp_all add: slideshow_inv_def slideshow_ctrl_manual_trigger_def)

lemma slideshow_inv_idle_cb:
  "slideshow_inv s \<Longrightarrow> is_once (idle_timer s) \<Longrightarrow>
   slideshow_inv (idle_timer_callback (s\<lparr>idle_timer := Some Disarmed\<rparr>))"
  by (auto simp: slideshow_inv_def idle_timer_callback_def is_once_iff is_periodic_iff Let_def
      split: if_splits)

lemma manual_triggers_paused:
  assumes "slideshow_inv s" and "is_running s" and "0 < k"
  shows "manual_triggers k s =
           s\<lparr>manual_control := True, timer := Some Disarmed,
              idle_timer := Some (Once (IDLE_TIMEOUT_MS * 1000))\<rparr>"
  using assms
proof (induction k arbitrary: s)
  case 0
  then show ?case by simp
next
  case (Suc k)
  let ?s1 = "s\<lparr>manual_control := True, timer := Some Disarmed,
              idle_timer := Some (Once (IDLE_TIMEOUT_MS * 1000))\<rparr>"
  have step: "snd (slideshow_ctrl_manual_trigger s) = ?s1"
    using Suc.prems by (simp add: manual_trigger_step)
  have inv1: "slideshow_inv ?s1" and run1: "is_running ?s1"
    using Suc.prems by (simp_all add: slideshow_inv_def)
  show ?case
  proof (cases k)
    case 0
    then show ?thesis using step by simp
  next
    case (Suc j)
    then have "manual_triggers k ?s1 = ?s1\<lparr>manual_control := True, timer := Some Disarmed,
              idle_timer := Some (Once (IDLE_TIMEOUT_MS * 1000))\<rparr>"
      using Suc.IH [OF inv1 run1] by simp
    then show ?thesis using step by simp
  qed
qed

lemma manual_triggers_running:
  assumes "slideshow_inv s" and "is_running s"
  shows "is_running (manual_triggers k s) \<and> slideshow_inv (manual_triggers k s)"
proof (cases k)
  case 0
  then show ?thesis using assms by simp
next
  case (Suc j)
  then have "manual_triggers k s =
           s\<lparr>manual_control := True, timer := Some Disarmed,
              idle_timer := Some (Once (IDLE_TIMEOUT_MS * 1000))\<rparr>"
    using manual_triggers_paused [OF assms, of k] by simp
  then show ?thesis using assms by (simp add: slideshow_inv_def)
qed

text \<open>
  Claim C5. While the slideshow is running (its \<^verbatim>\<open>is_running\<close> flag set, in the running
  or in the manually paused state), every call in a sequence of
  \<^verbatim>\<open>slideshow_ctrl_manual_trigger\<close> calls with no idle expiry in between succeeds, and
  after each call the slideshow is paused: the periodic timer is stopped, so no periodic
  timer runs at all, and the idle timer is armed afresh with the full idle timeout.
\<close>

theorem manual_trigger_repeated:
  assumes "slideshow_inv s" and "is_running s"
  shows "fst (slideshow_ctrl_manual_trigger (manual_triggers k s)) = ESP_OK
         \<and> is_running (manual_triggers (Suc k) s)
         \<and> manual_control (manual_triggers (Suc k) s)
         \<and> timer (manual_triggers (Suc k) s) = Some Disarmed
         \<and> \<not> is_periodic (timer (manual_triggers (Suc k) s))
         \<and> idle_timer (manual_triggers (Suc k) s) = Some (Once (IDLE_TIMEOUT_MS * 1000))"
proof -
  have "is_running (manual_triggers k s)" and "slideshow_inv (manual_triggers k s)"
    using manual_triggers_running [OF assms] by simp_all
  then have ok: "fst (slideshow_ctrl_manual_trigger (manual_triggers k s)) = ESP_OK"
    by (simp add: manual_trigger_step)
  have "manual_triggers (Suc k) s =
           s\<lparr>manual_control := True, timer := Some Disarmed,
              idle_timer := Some (Once (IDLE_TIMEOUT_MS * 1000))\<rparr>"
    using manual_triggers_paused [OF assms, of "Suc k"] by simp
  then show ?thesis using ok assms by simp
qed

theorem manual_trigger_repeated_witness:
  "slideshow_inv (snd (slideshow_ctrl_start (snd (slideshow_ctrl_init True 5000 ESP_OK ESP_OK ss0))))
   \<and> is_running (snd (slideshow_ctrl_start (snd (slideshow_ctrl_init True 5000 ESP_OK ESP_OK ss0))))
   \<and> idle_timer (manual_triggers 3
        (snd (slideshow_ctrl_start (snd (slideshow_ctrl_init True 5000 ESP_OK ESP_OK ss0)))))
       = Some (Once 3000000)
   \<and> timer (manual_triggers 3
        (snd (slideshow_ctrl_start (snd (slideshow_ctrl_init True 5000 ESP_OK ESP_OK ss0)))))
       = Some Disarmed"
proof -
  let ?s = "snd (slideshow_ctrl_start (snd (slideshow_ctrl_init True 5000 ESP_OK ESP_OK ss0)))"
  have inv: "slideshow_inv ?s"
    by (rule slideshow_inv_start) (rule slideshow_inv_init)
  have run: "is_running ?s"
    by (simp add: slideshow_ctrl_start_def slideshow_ctrl_init_def ss0_def Let_def)
  show ?thesis
    using inv run manual_trigger_repeated [OF inv run, of 2]
    by (simp add: IDLE_TIMEOUT_MS_def numeral_3_eq_3)
qed

section \<open>Properties of the album navigator\<close>

text \<open>
  Claim C7. For every index outside \<open>[0, count)\<close>, where \<open>count\<close> is what
  \<^verbatim>\<open>photo_album_get_total_count\<close> reports, \<^verbatim>\<open>photo_album_goto\<close> fails with
  \<open>ESP_ERR_INVALID_ARG\<close> and leaves the whole state, \<^verbatim>\<open>current_index\<close> included, as it
  was.
\<close>

theorem goto_out_of_range:
  "index < 0 \<or> index \<ge> photo_album_get_total_count w \<Longrightarrow>
   photo_album_goto e index w = (ESP_ERR_INVALID_ARG, w)"
  by (auto simp: photo_album_goto_def photo_album_get_total_count_def split: option.splits)

theorem goto_out_of_range_witness:
  "photo_album_get_total_count (ex_world [mk_file ''a.jpg'' 2000, mk_file ''b.jpg'' 2000] 1) \<le> 3
   \<and> photo_album_goto (ex_env []) 3 (ex_world [mk_file ''a.jpg'' 2000, mk_file ''b.jpg'' 2000] 1)
       = (ESP_ERR_INVALID_ARG, ex_world [mk_file ''a.jpg'' 2000, mk_file ''b.jpg'' 2000] 1)
   \<and> photo_album_get_current_index
        (snd (photo_album_goto (ex_env []) 3
               (ex_world [mk_file ''a.jpg'' 2000, mk_file ''b.jpg'' 2000] 1))) = 1"
proof -
  let ?w = "ex_world [mk_file ''a.jpg'' 2000, mk_file ''b.jpg'' 2000] 1"
  have h: "(3::int) < 0 \<or> 3 \<ge> photo_album_get_total_count ?w"
    by (simp add: photo_album_get_total_count_def ex_world_def total_count_def)
  have "photo_album_get_current_index ?w = 1"
    by (simp add: photo_album_get_current_index_def ex_world_def)
  then show ?thesis
    using h goto_out_of_range [OF h, of "ex_env []"] by simp
qed

section \<open>Properties of the frame extraction pipeline\<close>

lemma buffers_ready_pos: "buffers_ready a \<Longrightarrow> 0 < buffer_count a"
  by (auto simp: buffers_ready_def word_le_nat_alt word_less_nat_alt)

lemma next_buffer_less: "0 < n \<Longrightarrow> next_buffer n b < n"
  unfolding next_buffer_def by (rule word_mod_less_divisor)

lemma next_buffer_unat:
  assumes "b < n"
  shows "unat (next_buffer n b) = (unat b + 1) mod unat n"
proof -
  have cn: "unat b < unat n" using assms by (simp add: word_less_nat_alt)
  have "unat n < 2 ^ LENGTH(32)" by (rule unsigned_less)
  then have "unat b + unat (1::32 word) < 2 ^ LENGTH(32)" using cn by simp
  then have c1: "unat (b + 1) = unat b + 1"
    by (simp add: unat_add_lem [THEN iffD1])
  show ?thesis unfolding next_buffer_def by (simp add: unat_mod c1)
qed

lemma funpow_next_buffer:
  assumes "b < n"
  shows "(next_buffer n ^^ m) b < n
         \<and> unat ((next_buffer n ^^ m) b) = (unat b + m) mod unat n"
proof (induction m)
  case 0
  have "unat b < unat n" using assms by (simp add: word_less_nat_alt)
  then show ?case using assms by simp
next
  case (Suc m)
  let ?c = "(next_buffer n ^^ m) b"
  have pos: "0 < n" using assms by (simp add: word_gt_0) (metis assms word_not_simps(1))
  have lt: "?c < n" and u: "unat ?c = (unat b + m) mod unat n" using Suc by simp_all
  have s: "(next_buffer n ^^ Suc m) b = next_buffer n ?c" by simp
  have "unat (next_buffer n ?c) = ((unat b + m) mod unat n + 1) mod unat n"
    using next_buffer_unat [OF lt] u by simp
  also have "\<dots> = (unat b + Suc m) mod unat n"
    by (simp add: mod_Suc_eq)
  finally show ?case using next_buffer_less [OF pos] s by simp
qed

lemma mod_back_iff:
  fixes b m N :: nat
  assumes "b < N"
  shows "((b + m) mod N = b) = (N dvd m)"
proof -
  define r where "r = m mod N"
  have r: "r < N" using assms by (simp add: r_def)
  have e: "(b + m) mod N = (b + r) mod N" by (simp add: r_def mod_add_right_eq)
  have d: "(N dvd m) = (r = 0)" by (simp add: r_def dvd_eq_mod_eq_0)
  show ?thesis
  proof (cases "b + r < N")
    case True
    then have "(b + r) mod N = b + r" by simp
    then show ?thesis unfolding e d by simp
  next
    case False
    then have "(b + r) mod N = (b + r - N) mod N" by (simp add: le_mod_geq)
    moreover have "b + r - N < N" using r assms by arith
    ultimately have "(b + r) mod N = b + r - N" by simp
    moreover have "b + r - N < b" using r False by arith
    moreover have "r \<noteq> 0" using False assms by arith
    ultimately show ?thesis unfolding e d by simp
  qed
qed

lemma frame_callback_decoded:
  assumes "buffers_ready a" and "frame_decodes a f"
  shows "extractor_frame_callback (Some a) f =
           (f_cb f,
            Some ((if has_info a then a else a\<lparr>width := f_width f, height := f_height f, has_info := True\<rparr>)
                    \<lparr>current_buffer := (current_buffer a + 1) mod buffer_count a,
                     frame_count := frame_count a + 1\<rparr>),
            Some ((current_buffer a + 1) mod buffer_count a, frame_count a))"
proof -
  have pos: "0 < buffer_count a"
    using assms(1) by (auto simp: buffers_ready_def word_le_nat_alt word_less_nat_alt)
  have "(current_buffer a + 1) mod buffer_count a < buffer_count a"
    using pos by (rule word_mod_less_divisor)
  then have "unat ((current_buffer a + 1) mod buffer_count a) < unat (buffer_count a)"
    by (simp add: word_less_nat_alt)
  then have "buffer_at (a\<lparr>current_buffer := (current_buffer a + 1) mod buffer_count a\<rparr>)"
    using assms(1) by (simp add: buffers_ready_def buffer_at_def)
  then show ?thesis
    using assms(2)
    by (simp add: extractor_frame_callback_def decode_jpeg_frame_def frame_decodes_def Let_def
        leD)
qed

lemma buffers_ready_at:
  assumes "buffers_ready a"
  shows "buffer_at (a\<lparr>current_buffer := (current_buffer a + 1) mod buffer_count a\<rparr>)"
proof -
  have pos: "0 < buffer_count a" using assms by (rule buffers_ready_pos)
  have "(current_buffer a + 1) mod buffer_count a < buffer_count a"
    using pos by (rule word_mod_less_divisor)
  then have "unat ((current_buffer a + 1) mod buffer_count a) < unat (buffer_count a)"
    by (simp add: word_less_nat_alt)
  then show ?thesis using assms by (simp add: buffers_ready_def buffer_at_def)
qed

lemma frame_callback_failed:
  assumes "buffers_ready a" and "frame_decode_fails a f"
  shows "extractor_frame_callback (Some a) f =
           (f_process f,
            Some (a\<lparr>current_buffer := next_buffer (buffer_count a) (current_buffer a)\<rparr>), None)"
  using assms(2) buffers_ready_at [OF assms(1)]
  by (simp add: extractor_frame_callback_def decode_jpeg_frame_def frame_decode_fails_def
      next_buffer_def Let_def leD)

lemma frame_callback_skipped:
  assumes "\<not> frame_decodes a f" and "\<not> frame_decode_fails a f"
  shows "snd (extractor_frame_callback (Some a) f) = (Some a, None)"
  using assms
  by (simp add: extractor_frame_callback_def decode_jpeg_frame_def frame_decodes_def
      frame_decode_fails_def Let_def not_less)

lemma frame_callback_delivered:
  assumes "buffers_ready a" and "frame_decodes a f"
  obtains a' where
    "extractor_frame_callback (Some a) f =
       (f_cb f, Some a', Some (next_buffer (buffer_count a) (current_buffer a), frame_count a))"
    and "current_buffer a' = next_buffer (buffer_count a) (current_buffer a)"
    and "frame_count a' = frame_count a + 1"
    and "buffer_count a' = buffer_count a" and "decode_buffers a' = decode_buffers a"
    and "jpeg_buffer_size a' = jpeg_buffer_size a"
proof -
  let ?a' = "(if has_info a then a
              else a\<lparr>width := f_width f, height := f_height f, has_info := True\<rparr>)
               \<lparr>current_buffer := (current_buffer a + 1) mod buffer_count a,
                frame_count := frame_count a + 1\<rparr>"
  note cb = frame_callback_decoded [OF assms]
  show thesis
  proof (rule that [of ?a'])
    show "extractor_frame_callback (Some a) f =
       (f_cb f, Some ?a', Some (next_buffer (buffer_count a) (current_buffer a), frame_count a))"
      unfolding cb next_buffer_def ..
  qed (simp_all add: next_buffer_def)
qed

lemma frame_decodes_same:
  "jpeg_buffer_size a' = jpeg_buffer_size a \<Longrightarrow> frame_decodes a' = frame_decodes a"
  by (simp add: fun_eq_iff frame_decodes_def)

lemma frame_decode_fails_same:
  "jpeg_buffer_size a' = jpeg_buffer_size a \<Longrightarrow> frame_decode_fails a' = frame_decode_fails a"
  by (simp add: fun_eq_iff frame_decode_fails_def)

lemma buffers_ready_same:
  "buffer_count a' = buffer_count a \<Longrightarrow> decode_buffers a' = decode_buffers a \<Longrightarrow>
   buffers_ready a' = buffers_ready a"
  by (simp add: buffers_ready_def)

text \<open>Whatever the frame, the adapter stays, with its buffers and sizes, and the frame counter
  counts the frames delivered.\<close>

lemma callback_keeps:
  assumes "buffers_ready a"
  obtains a' where "fst (snd (extractor_frame_callback (Some a) f)) = Some a'"
    and "buffer_count a' = buffer_count a" and "decode_buffers a' = decode_buffers a"
    and "jpeg_buffer_size a' = jpeg_buffer_size a"
    and "frame_count a' = frame_count a + of_nat (length (deliver_frames (Some a) [f]))"
proof (cases "frame_decodes a f")
  case True
  obtain a1 where a1: "extractor_frame_callback (Some a) f =
       (f_cb f, Some a1, Some (next_buffer (buffer_count a) (current_buffer a), frame_count a))"
    "frame_count a1 = frame_count a + 1"
    "buffer_count a1 = buffer_count a" "decode_buffers a1 = decode_buffers a"
    "jpeg_buffer_size a1 = jpeg_buffer_size a"
    using frame_callback_delivered [OF assms True] by metis
  show ?thesis
    by (rule that [of a1]) (simp_all add: a1)
next
  case False
  note nd = this
  show ?thesis
  proof (cases "frame_decode_fails a f")
    case True
    note cb = frame_callback_failed [OF assms True]
    show ?thesis
      by (rule that [of "a\<lparr>current_buffer := next_buffer (buffer_count a) (current_buffer a)\<rparr>"])
         (simp_all add: cb)
  next
    case False
    note cb = frame_callback_skipped [OF nd False]
    show ?thesis
      by (rule that [of a]) (simp_all add: cb)
  qed
qed

lemma deliver_frames_Cons:
  "deliver_frames g (f # fs) =
     deliver_frames g [f] @ deliver_frames (fst (snd (extractor_frame_callback g f))) fs"
  by (simp add: Let_def)

lemma deliver_frames_append:
  "deliver_frames g (xs @ ys) = deliver_frames g xs @ deliver_frames (adapter_after g xs) ys"
proof (induction xs arbitrary: g)
  case Nil
  show ?case by simp
next
  case (Cons x xs)
  have "deliver_frames g ((x # xs) @ ys) =
          deliver_frames g [x] @ deliver_frames (fst (snd (extractor_frame_callback g x))) (xs @ ys)"
    using deliver_frames_Cons [of g x "xs @ ys"] by simp
  also have "\<dots> = deliver_frames g [x]
               @ deliver_frames (fst (snd (extractor_frame_callback g x))) xs
               @ deliver_frames (adapter_after (fst (snd (extractor_frame_callback g x))) xs) ys"
    by (simp only: Cons.IH)
  also have "\<dots> = deliver_frames g (x # xs) @ deliver_frames (adapter_after g (x # xs)) ys"
    using deliver_frames_Cons [of g x xs] by simp
  finally show ?case .
qed

lemma adapter_after_keeps:
  assumes "buffers_ready a"
  shows "\<exists>a'. adapter_after (Some a) fs = Some a'
              \<and> buffer_count a' = buffer_count a \<and> decode_buffers a' = decode_buffers a
              \<and> jpeg_buffer_size a' = jpeg_buffer_size a
              \<and> frame_count a' = frame_count a + of_nat (length (deliver_frames (Some a) fs))"
  using assms
proof (induction fs arbitrary: a)
  case Nil
  show ?case by simp
next
  case (Cons f fs)
  from Cons.prems obtain a1 where a1: "fst (snd (extractor_frame_callback (Some a) f)) = Some a1"
      and b1: "buffer_count a1 = buffer_count a" and c1: "decode_buffers a1 = decode_buffers a"
      and j1: "jpeg_buffer_size a1 = jpeg_buffer_size a"
      and f1: "frame_count a1 = frame_count a + of_nat (length (deliver_frames (Some a) [f]))"
    by (rule callback_keeps)
  have "buffers_ready a1" using buffers_ready_same [OF b1 c1] Cons.prems by (rule iffD2)
  from Cons.IH [OF this] obtain a2 where a2: "adapter_after (Some a1) fs = Some a2"
      and b2: "buffer_count a2 = buffer_count a1" and c2: "decode_buffers a2 = decode_buffers a1"
      and j2: "jpeg_buffer_size a2 = jpeg_buffer_size a1"
      and f2: "frame_count a2 = frame_count a1 + of_nat (length (deliver_frames (Some a1) fs))"
    by blast
  have g: "adapter_after (Some a) (f # fs) = Some a2"
    by (simp only: adapter_after.simps a1 a2)
  have "deliver_frames (Some a) (f # fs) = deliver_frames (Some a) [f] @ deliver_frames (Some a1) fs"
    using deliver_frames_Cons [of "Some a" f fs] by (simp only: a1)
  then have d: "length (deliver_frames (Some a) (f # fs)) =
             length (deliver_frames (Some a) [f]) + length (deliver_frames (Some a1) fs)"
    by (simp only: length_append)
  have fc: "frame_count a2 = frame_count a + of_nat (length (deliver_frames (Some a) (f # fs)))"
    by (simp only: d f2 f1 of_nat_add add.assoc)
  show ?case
  proof (intro exI conjI)
    show "adapter_after (Some a) (f # fs) = Some a2" by (rule g)
    show "buffer_count a2 = buffer_count a" by (simp only: b2 b1)
    show "decode_buffers a2 = decode_buffers a" by (simp only: c2 c1)
    show "jpeg_buffer_size a2 = jpeg_buffer_size a" by (simp only: j2 j1)
    show "frame_count a2 = frame_count a + of_nat (length (deliver_frames (Some a) (f # fs)))"
      by (rule fc)
  qed
qed

text \<open>A stretch of frames of which none is delivered.\<close>

lemma undelivered_stretch:
  assumes "buffers_ready a" and "\<forall>m \<in> set mid. \<not> frame_decodes a m"
  shows "deliver_frames (Some a) mid = []
         \<and> adapter_after (Some a) mid =
             Some (a\<lparr>current_buffer :=
                      (next_buffer (buffer_count a) ^^ length (filter (frame_decode_fails a) mid))
                        (current_buffer a)\<rparr>)"
  using assms
proof (induction mid arbitrary: a)
  case Nil
  show ?case by simp
next
  case (Cons m mid)
  let ?n = "buffer_count a"
  let ?j = "length (filter (frame_decode_fails a) mid)"
  have nd: "\<not> frame_decodes a m" using Cons.prems(2) by simp
  have rest: "\<forall>x \<in> set mid. \<not> frame_decodes a x" using Cons.prems(2) by simp
  show ?case
  proof (cases "frame_decode_fails a m")
    case True
    let ?a1 = "a\<lparr>current_buffer := next_buffer ?n (current_buffer a)\<rparr>"
    note cb = frame_callback_failed [OF Cons.prems(1) True]
    have r1: "buffers_ready ?a1" using Cons.prems(1) by (simp add: buffers_ready_def)
    have fd: "frame_decodes ?a1 = frame_decodes a" by (rule frame_decodes_same) simp
    have ff: "frame_decode_fails ?a1 = frame_decode_fails a"
      by (rule frame_decode_fails_same) simp
    have nd1: "\<forall>x \<in> set mid. \<not> frame_decodes ?a1 x" using rest unfolding fd .
    have IH1: "deliver_frames (Some ?a1) mid = []"
      and IH2: "adapter_after (Some ?a1) mid =
             Some (?a1\<lparr>current_buffer := (next_buffer ?n ^^ ?j) (current_buffer ?a1)\<rparr>)"
      using Cons.IH [OF r1 nd1] unfolding ff by simp_all
    have sw: "(next_buffer ?n ^^ ?j) (next_buffer ?n (current_buffer a))
                = (next_buffer ?n ^^ Suc ?j) (current_buffer a)"
      by (simp only: funpow_Suc_right o_apply)
    have len: "length (filter (frame_decode_fails a) (m # mid)) = Suc ?j"
      using True by simp
    have d: "deliver_frames (Some a) (m # mid) = []"
      using deliver_frames_Cons [of "Some a" m mid] by (simp add: cb IH1)
    have "adapter_after (Some a) (m # mid) = adapter_after (Some ?a1) mid"
      by (simp add: cb)
    also have "\<dots> = Some (a\<lparr>current_buffer := (next_buffer ?n ^^ Suc ?j) (current_buffer a)\<rparr>)"
      unfolding IH2 using sw by simp
    finally show ?thesis unfolding len using d by simp
  next
    case False
    note cb = frame_callback_skipped [OF nd False]
    note IH = Cons.IH [OF Cons.prems(1) rest]
    have len: "length (filter (frame_decode_fails a) (m # mid)) = ?j"
      using False by simp
    have d: "deliver_frames (Some a) (m # mid) = []"
      using deliver_frames_Cons [of "Some a" m mid] IH by (simp add: cb)
    have g: "adapter_after (Some a) (m # mid) = adapter_after (Some a) mid"
      by (simp add: cb)
    show ?thesis unfolding len g using d IH by simp
  qed
qed

lemma buffers_ready_pair:
  "buffer_count a = 2 \<Longrightarrow> decode_buffers a = [True, True] \<Longrightarrow> buffers_ready a"
  by (auto simp: buffers_ready_def less_2_cases_iff)

lemma video_player_init_adapter:
  "video_player_init (ex_env []) False video0 =
     (ESP_OK, video0\<lparr>current_volume := DEFAULT_AUDIO_VOLUME, adapter := Some ex_adapter\<rparr>)"
  by (simp add: video_player_init_def app_stream_adapter_init_def ex_env_def video0_def
      ex_adapter_def Let_def)

text \<open>
  Claim C2, as amended. Let the adapter have at least two decode buffers, all of them
  allocated (\<^verbatim>\<open>video_player_init\<close> configures two). \<^verbatim>\<open>decode_jpeg_frame\<close> advances the
  buffer index by one modulo the buffer count before each decode attempt, whether the
  decode then succeeds or fails, and a callback that attempts no decode (an audio frame,
  a frame larger than the JPEG buffer, a lock timeout, a failed header read) leaves the
  index alone. So for two frames delivered to the frame callback one after the other,
  which carry consecutive frame numbers \<open>k\<close> and \<open>k + 1\<close>, with \<open>j\<close> failed decode attempts
  between them, the buffer of frame \<open>k + 1\<close> is \<open>j + 1\<close> steps after the buffer of frame
  \<open>k\<close>: the two frames are in different buffers exactly when \<open>j + 1\<close> is not a multiple
  of the buffer count, in particular whenever no decode attempt failed between them
  (\<open>j = 0\<close>), audio and dropped frames notwithstanding; with two buffers they are in the
  same buffer exactly when \<open>j\<close> is odd.

  Here \<open>pre @ f1 # mid @ f2 # post\<close> are the successive invocations of the extractor
  callback from the adapter state \<open>a\<close>, \<open>f1\<close> and \<open>f2\<close> the two that deliver, \<open>mid\<close> the
  invocations between them, none of which delivers, and \<open>k\<close> the number of frames
  delivered before \<open>f1\<close>.
\<close>

theorem successive_deliveries_buffers:
  assumes "buffers_ready a"
    and "frame_decodes a f1" and "frame_decodes a f2"
    and "\<forall>m \<in> set mid. \<not> frame_decodes a m"
    and "ds = deliver_frames (Some a) (pre @ f1 # mid @ f2 # post)"
    and "k = length (deliver_frames (Some a) pre)"
    and "j = length (filter (frame_decode_fails a) mid)"
  shows "Suc k < length ds
         \<and> snd (ds ! k) = frame_count a + of_nat k
         \<and> snd (ds ! Suc k) = snd (ds ! k) + 1
         \<and> fst (ds ! Suc k) = (next_buffer (buffer_count a) ^^ Suc j) (fst (ds ! k))
         \<and> unat (fst (ds ! Suc k)) = (unat (fst (ds ! k)) + Suc j) mod unat (buffer_count a)
         \<and> (fst (ds ! Suc k) \<noteq> fst (ds ! k)) = (\<not> unat (buffer_count a) dvd Suc j)
         \<and> (j = 0 \<longrightarrow> fst (ds ! Suc k) = (fst (ds ! k) + 1) mod buffer_count a
                      \<and> fst (ds ! Suc k) \<noteq> fst (ds ! k))
         \<and> (buffer_count a = 2 \<longrightarrow> (fst (ds ! Suc k) = fst (ds ! k)) = odd j)"
proof -
  let ?n = "buffer_count a"
  let ?P = "deliver_frames (Some a) pre"
  have pos: "0 < ?n" using assms(1) by (rule buffers_ready_pos)
  have two: "2 \<le> unat ?n" using assms(1) by (simp add: buffers_ready_def word_le_nat_alt)
  obtain a0 where a0: "adapter_after (Some a) pre = Some a0"
      and b0: "buffer_count a0 = ?n" and c0: "decode_buffers a0 = decode_buffers a"
      and j0: "jpeg_buffer_size a0 = jpeg_buffer_size a"
      and n0: "frame_count a0 = frame_count a + of_nat k"
    using adapter_after_keeps [OF assms(1), of pre] unfolding assms(6) by blast
  have r0: "buffers_ready a0" using buffers_ready_same [OF b0 c0] assms(1) by (rule iffD2)
  have d0: "frame_decodes a0 f1" using assms(2) by (simp only: frame_decodes_same [OF j0])
  from r0 d0 obtain a1 where cb1: "extractor_frame_callback (Some a0) f1 =
       (f_cb f1, Some a1, Some (next_buffer (buffer_count a0) (current_buffer a0), frame_count a0))"
      and cur1: "current_buffer a1 = next_buffer (buffer_count a0) (current_buffer a0)"
      and n1: "frame_count a1 = frame_count a0 + 1"
      and b1: "buffer_count a1 = buffer_count a0" and c1: "decode_buffers a1 = decode_buffers a0"
      and j1: "jpeg_buffer_size a1 = jpeg_buffer_size a0"
    by (rule frame_callback_delivered)
  let ?b1 = "next_buffer ?n (current_buffer a0)"
  have b1': "buffer_count a1 = ?n" by (simp only: b1 b0)
  have j1': "jpeg_buffer_size a1 = jpeg_buffer_size a" by (simp only: j1 j0)
  have r1: "buffers_ready a1" using buffers_ready_same [OF b1 c1] r0 by (rule iffD2)
  have nd1: "\<forall>m \<in> set mid. \<not> frame_decodes a1 m"
    using assms(4) by (simp only: frame_decodes_same [OF j1'])
  let ?a2 = "a1\<lparr>current_buffer := (next_buffer ?n ^^ j) ?b1\<rparr>"
  have st: "deliver_frames (Some a1) mid = []"
    and a2: "adapter_after (Some a1) mid = Some ?a2"
    using undelivered_stretch [OF r1 nd1]
    by (simp_all only: frame_decode_fails_same [OF j1'] b1' cur1 b0 assms(7) simp_thms)
  have r2: "buffers_ready ?a2" using r1 by (simp add: buffers_ready_def)
  have d2: "frame_decodes ?a2 f2"
    using assms(3) by (simp add: frame_decodes_def j1')
  from r2 d2 obtain a3 where cb2: "extractor_frame_callback (Some ?a2) f2 =
       (f_cb f2, Some a3, Some (next_buffer (buffer_count ?a2) (current_buffer ?a2), frame_count ?a2))"
    by (rule frame_callback_delivered)
  let ?b2 = "(next_buffer ?n ^^ Suc j) ?b1"
  have cb2': "extractor_frame_callback (Some ?a2) f2 =
                (f_cb f2, Some a3, Some (?b2, frame_count a0 + 1))"
    using cb2 by (simp add: b1' n1)
  have e1: "deliver_frames (Some a0) (f1 # mid @ f2 # post) =
              (?b1, frame_count a0) # deliver_frames (Some a1) (mid @ f2 # post)"
    using deliver_frames_Cons [of "Some a0" f1 "mid @ f2 # post"] by (simp add: cb1 b0)
  have e2: "deliver_frames (Some a1) (mid @ f2 # post) = deliver_frames (Some ?a2) (f2 # post)"
    by (simp only: deliver_frames_append [of "Some a1" mid] st a2 append_Nil)
  have e3: "deliver_frames (Some ?a2) (f2 # post) =
              (?b2, frame_count a0 + 1) # deliver_frames (Some a3) post"
    using deliver_frames_Cons [of "Some ?a2" f2 post] by (simp add: cb2')
  have ds: "ds = ?P @ (?b1, frame_count a0) # (?b2, frame_count a0 + 1)
                   # deliver_frames (Some a3) post"
    unfolding assms(5) deliver_frames_append [of "Some a" pre] a0 e1 e2 e3 ..
  have len: "Suc k < length ds" unfolding ds assms(6) by simp
  have k0: "ds ! k = (?b1, frame_count a0)"
    unfolding ds assms(6) by (simp add: nth_append)
  have k1: "ds ! Suc k = (?b2, frame_count a0 + 1)"
    unfolding ds assms(6) by (simp add: nth_append)
  have lt: "?b1 < ?n" using pos by (rule next_buffer_less)
  note fp = funpow_next_buffer [OF lt, of "Suc j"]
  have u: "unat ?b2 = (unat ?b1 + Suc j) mod unat ?n" using fp by simp
  have "(?b2 = ?b1) = (unat ?b2 = unat ?b1)" by (simp add: word_unat_eq_iff)
  also have "\<dots> = (unat ?n dvd Suc j)"
    unfolding u using lt by (intro mod_back_iff) (simp add: word_less_nat_alt)
  finally have same: "(?b2 \<noteq> ?b1) = (\<not> unat ?n dvd Suc j)" by simp
  have one: "j = 0 \<longrightarrow> ?b2 = (?b1 + 1) mod ?n \<and> ?b2 \<noteq> ?b1"
  proof
    assume z: "j = 0"
    have "\<not> unat ?n dvd Suc 0" using two by simp
    then have "?b2 \<noteq> ?b1" using same z by simp
    moreover have "?b2 = (?b1 + 1) mod ?n" using z by (simp add: next_buffer_def)
    ultimately show "?b2 = (?b1 + 1) mod ?n \<and> ?b2 \<noteq> ?b1" by simp
  qed
  have pair: "?n = 2 \<longrightarrow> (?b2 = ?b1) = odd j"
  proof
    assume "?n = 2"
    then have "unat ?n = 2" by simp
    then have "(?b2 \<noteq> ?b1) = (\<not> 2 dvd Suc j)" using same by (simp only:)
    then have "(?b2 = ?b1) = (2 dvd Suc j)" by blast
    then show "(?b2 = ?b1) = odd j" by (simp only: even_Suc)
  qed
  show ?thesis
    unfolding k0 k1 fst_conv snd_conv
  proof (intro conjI)
    show "?n = 2 \<longrightarrow> (?b2 = ?b1) = odd j" by (rule pair)
    show "Suc k < length ds" by (rule len)
    show "frame_count a0 = frame_count a + of_nat k" by (rule n0)
    show "frame_count a0 + 1 = frame_count a0 + 1" ..
    show "?b2 = (next_buffer ?n ^^ Suc j) ?b1" ..
    show "unat ?b2 = (unat ?b1 + Suc j) mod unat ?n" by (rule u)
    show "(?b2 \<noteq> ?b1) = (\<not> unat ?n dvd Suc j)" by (rule same)
    show "j = 0 \<longrightarrow> ?b2 = (?b1 + 1) mod ?n \<and> ?b2 \<noteq> ?b1" by (rule one)
  qed
qed

theorem successive_deliveries_buffers_witness:
  "buffers_ready ex_adapter
   \<and> frame_decodes ex_adapter ex_frame
   \<and> \<not> frame_decodes ex_adapter ex_audio_frame
   \<and> \<not> frame_decodes ex_adapter ex_bad_frame
   \<and> length (filter (frame_decode_fails ex_adapter) [ex_audio_frame, ex_bad_frame, ex_bad_frame]) = 2
   \<and> deliver_frames (Some ex_adapter)
        ([ex_frame] @ ex_frame # [ex_audio_frame, ex_bad_frame, ex_bad_frame] @ ex_frame # [ex_frame])
       = [(0, 0), (1, 1), (0, 2), (1, 3)]
   \<and> fst (deliver_frames (Some ex_adapter)
        ([ex_frame] @ ex_frame # [ex_audio_frame, ex_bad_frame, ex_bad_frame] @ ex_frame # [ex_frame])
           ! Suc 1)
       \<noteq> fst (deliver_frames (Some ex_adapter)
        ([ex_frame] @ ex_frame # [ex_audio_frame, ex_bad_frame, ex_bad_frame] @ ex_frame # [ex_frame])
           ! 1)"
proof -
  let ?mid = "[ex_audio_frame, ex_bad_frame, ex_bad_frame]"
  let ?ds = "deliver_frames (Some ex_adapter) ([ex_frame] @ ex_frame # ?mid @ ex_frame # [ex_frame])"
  have r: "buffers_ready ex_adapter"
    by (rule buffers_ready_pair) (simp_all add: ex_adapter_def)
  have d: "frame_decodes ex_adapter ex_frame"
    by (simp add: frame_decodes_def ex_frame_def ex_adapter_def)
  have na: "\<not> frame_decodes ex_adapter ex_audio_frame"
    by (simp add: frame_decodes_def ex_audio_frame_def ex_frame_def)
  have nb: "\<not> frame_decodes ex_adapter ex_bad_frame"
    by (simp add: frame_decodes_def ex_bad_frame_def ex_frame_def)
  have m: "\<forall>m \<in> set ?mid. \<not> frame_decodes ex_adapter m" using na nb by simp
  have k: "1 = length (deliver_frames (Some ex_adapter) [ex_frame])"
    by (simp add: extractor_frame_callback_def decode_jpeg_frame_def buffer_at_def
        ex_frame_def ex_adapter_def Let_def)
  have j: "2 = length (filter (frame_decode_fails ex_adapter) ?mid)"
    by (simp add: frame_decode_fails_def ex_audio_frame_def ex_bad_frame_def ex_frame_def
        ex_adapter_def)
  have v: "?ds = [(0, 0), (1, 1), (0, 2), (1, 3)]"
    by (simp add: extractor_frame_callback_def decode_jpeg_frame_def buffer_at_def
        ex_frame_def ex_audio_frame_def ex_bad_frame_def ex_adapter_def Let_def)
  have n: "unat (buffer_count ex_adapter) = 2" by (simp add: ex_adapter_def)
  note T = successive_deliveries_buffers [where post = "[ex_frame]", OF r d d m refl k j]
  from T have "(fst (?ds ! Suc 1) \<noteq> fst (?ds ! 1))
                 = (\<not> unat (buffer_count ex_adapter) dvd Suc 2)"
    by blast
  then have "fst (?ds ! Suc 1) \<noteq> fst (?ds ! 1)" unfolding n by simp
  then show ?thesis using r d na nb j v by simp
qed

text \<open>The claim as stated fails: a decode that fails between two delivered frames advances
  the buffer index too, and with the two buffers of the player frame 1 is then decoded
  into the buffer that holds frame 0.\<close>

theorem decode_failure_reuses_buffer:
  "buffers_ready ex_adapter
   \<and> deliver_frames (Some ex_adapter) [ex_frame, ex_bad_frame, ex_frame] = [(0, 0), (0, 1)]
   \<and> fst (deliver_frames (Some ex_adapter) [ex_frame, ex_bad_frame, ex_frame] ! 1)
       = fst (deliver_frames (Some ex_adapter) [ex_frame, ex_bad_frame, ex_frame] ! 0)"
proof -
  have r: "buffers_ready ex_adapter"
    by (rule buffers_ready_pair) (simp_all add: ex_adapter_def)
  have v: "deliver_frames (Some ex_adapter) [ex_frame, ex_bad_frame, ex_frame] = [(0, 0), (0, 1)]"
    by (simp add: extractor_frame_callback_def decode_jpeg_frame_def buffer_at_def
        ex_frame_def ex_bad_frame_def ex_adapter_def Let_def)
  show ?thesis using r v by simp
qed

section \<open>Properties of the video playback controller\<close>

lemma stop_extract_task_running [simp]:
  "running (stop_extract_task e a) = running a"
  by (simp add: stop_extract_task_def Let_def)

lemma stop_extract_task_handle [simp]:
  "extract_task_handle (stop_extract_task e a) = False"
  by (simp add: stop_extract_task_def Let_def)

lemma start_extract_task_running [simp]:
  "running (snd (start_extract_task e a)) = running a"
  by (simp add: start_extract_task_def Let_def)

lemma adapter_start_error_idle:
  "fst (app_stream_adapter_start e h) \<noteq> ESP_OK \<Longrightarrow> adapter_idle (snd (app_stream_adapter_start e h))"
  by (auto simp: app_stream_adapter_start_def adapter_idle_def Let_def
      split: option.splits if_splits prod.splits)

lemma adapter_set_file_idle:
  "fst (app_stream_adapter_set_file e h (Some p) b) = ESP_OK \<Longrightarrow>
   adapter_idle (snd (app_stream_adapter_set_file e h (Some p) b))"
  by (auto simp: app_stream_adapter_set_file_def app_stream_adapter_stop_def adapter_idle_def Let_def
      split: option.splits if_splits)

lemma adapter_set_file_result:
  "fst (app_stream_adapter_set_file e h (Some p) b) = (if h = None then ESP_ERR_INVALID_ARG else ESP_OK)"
  by (auto simp: app_stream_adapter_set_file_def Let_def split: option.splits)

lemma adapter_pause_error_idle:
  "fst (app_stream_adapter_pause h) \<noteq> ESP_OK \<Longrightarrow> adapter_idle (snd (app_stream_adapter_pause h))"
  by (auto simp: app_stream_adapter_pause_def adapter_idle_def split: option.splits if_splits)

lemma adapter_resume_error_idle:
  "fst (app_stream_adapter_resume h) \<noteq> ESP_OK \<Longrightarrow> adapter_idle (snd (app_stream_adapter_resume h))"
  by (auto simp: app_stream_adapter_resume_def adapter_idle_def split: option.splits if_splits)

lemma play_error_halted:
  assumes "video_inv (video w)" and "fst (video_player_play e p w) \<noteq> ESP_OK"
  shows "halted (video (snd (video_player_play e p w)))"
proof (cases "adapter (video w)")
  case None
  then show ?thesis using assms(1)
    by (simp add: video_player_play_def video_inv_def halted_def adapter_idle_def)
next
  case (Some a)
  let ?v1 = "(video w)\<lparr>current_file := take 255 p, has_error := False\<rparr>"
  let ?r1 = "app_stream_adapter_set_file e (adapter ?v1) (Some p) (v_audio_dev ?v1)"
  have ok1: "fst ?r1 = ESP_OK" using Some by (simp add: adapter_set_file_result)
  let ?r2 = "app_stream_adapter_start e (snd ?r1)"
  have bad2: "fst ?r2 \<noteq> ESP_OK"
    using assms(2) Some ok1 by (auto simp: video_player_play_def Let_def split: if_splits)
  then have "adapter_idle (snd ?r2)" by (rule adapter_start_error_idle)
  then show ?thesis
    using Some ok1 bad2 by (simp add: video_player_play_def Let_def halted_def)
qed

lemma switch_error_halted:
  assumes "video_inv v" and "fst (video_player_switch_file e (Some p) v) \<noteq> ESP_OK"
  shows "halted (snd (video_player_switch_file e (Some p) v))"
proof (cases "adapter v")
  case None
  then show ?thesis using assms(1)
    by (simp add: video_player_switch_file_def video_inv_def halted_def adapter_idle_def)
next
  case (Some a)
  let ?v1 = "v\<lparr>current_file := take 255 p\<rparr>"
  let ?v2 = "(if finish_timer ?v1 \<noteq> None
                then ?v1\<lparr>finish_timer := snd (esp_timer_stop (finish_timer ?v1))\<rparr> else ?v1)"
  let ?v3 = "(if state ?v2 \<noteq> VIDEO_STATE_STOPPED
                then ?v2\<lparr>adapter := snd (app_stream_adapter_stop e (adapter ?v2))\<rparr> else ?v2)"
  let ?v4 = "?v3\<lparr>has_error := False, playback_finished := False\<rparr>"
  let ?r1 = "app_stream_adapter_set_file e (adapter ?v4) (Some p) (v_audio_dev ?v4)"
  have some4: "adapter ?v4 \<noteq> None"
    using Some by (auto simp: app_stream_adapter_stop_def)
  have ok1: "fst ?r1 = ESP_OK" using some4 by (simp add: adapter_set_file_result)
  let ?r2 = "app_stream_adapter_start e (snd ?r1)"
  have unfold: "video_player_switch_file e (Some p) v =
      (if fst ?r2 = ESP_OK
       then (ESP_OK, arm_finish_timer e False (?v4\<lparr>adapter := snd ?r2, state := VIDEO_STATE_PLAYING\<rparr>))
       else (fst ?r2, ?v4\<lparr>adapter := snd ?r2, has_error := True, state := VIDEO_STATE_ERROR\<rparr>))"
    using Some ok1 unfolding video_player_switch_file_def Let_def by simp
  have bad2: "fst ?r2 \<noteq> ESP_OK"
    using assms(2) unfolding unfold by (simp split: if_splits)
  then have "adapter_idle (snd ?r2)" by (rule adapter_start_error_idle)
  then show ?thesis
    using bad2 unfolding unfold by (simp add: halted_def)
qed

lemma pause_error_halted:
  "fst (video_player_pause v) \<noteq> ESP_OK \<Longrightarrow> halted (snd (video_player_pause v))"
  using adapter_pause_error_idle [of "adapter v"]
  by (auto simp: video_player_pause_def halted_def Let_def split: if_splits)

lemma resume_error_halted:
  "fst (video_player_resume v) \<noteq> ESP_OK \<Longrightarrow> halted (snd (video_player_resume v))"
  using adapter_resume_error_idle [of "adapter v"]
  by (auto simp: video_player_resume_def halted_def Let_def split: if_splits)

lemma stop_extract_task_mutex:
  "frame_mutex a \<Longrightarrow> task_stops e \<or> mutex_create e \<Longrightarrow> frame_mutex (stop_extract_task e a)"
  by (auto simp: stop_extract_task_def Let_def)

lemma stop_extract_task_filename [simp]:
  "a_filename (stop_extract_task e a) = a_filename a"
  by (simp add: stop_extract_task_def Let_def)

lemma adapter_stop_some:
  assumes "frame_mutex a" and "task_stops e \<or> mutex_create e"
  shows "\<exists>a'. snd (app_stream_adapter_stop e (Some a)) = Some a' \<and> frame_mutex a'"
  using assms by (simp add: app_stream_adapter_stop_def stop_extract_task_mutex)

lemma adapter_set_file_some:
  assumes "frame_mutex a" and "task_stops e \<or> mutex_create e"
  shows "\<exists>a'. app_stream_adapter_set_file e (Some a) (Some p) b = (ESP_OK, Some a')
              \<and> frame_mutex a' \<and> \<not> running a' \<and> a_filename a' = Some p"
  using assms
  by (simp add: app_stream_adapter_set_file_def app_stream_adapter_stop_def Let_def
      stop_extract_task_mutex)

lemma start_extract_task_ok:
  assumes "frame_mutex a" and "task_stops e \<or> mutex_create e" and "task_create e"
  shows "fst (start_extract_task e a) = ESP_OK"
    and "extract_task_handle (snd (start_extract_task e a))"
    and "frame_mutex (snd (start_extract_task e a))"
    and "a_filename (snd (start_extract_task e a)) = a_filename a"
    and "has_info (snd (start_extract_task e a)) = has_info a"
    and "duration (snd (start_extract_task e a)) = duration a"
  using assms by (auto simp: start_extract_task_def Let_def stop_extract_task_def)

lemma adapter_start_some:
  assumes "frame_mutex a" and "task_stops e \<or> mutex_create e" and "task_create e"
    and "\<not> running a" and "a_filename a = Some p" and "extractor_start e p = ESP_OK"
    and "extractor_video_info e p = (ESP_OK, iw, ih, fr, d)"
  shows "\<exists>a'. app_stream_adapter_start e (Some a) = (ESP_OK, Some a')
              \<and> frame_mutex a' \<and> running a' \<and> a_filename a' = Some p
              \<and> extract_task_handle a' \<and> has_info a' \<and> duration a' = d"
proof -
  let ?a1 = "a\<lparr>frame_count := 0, has_info := False, current_buffer := buffer_count a - 1\<rparr>"
  let ?a2 = "?a1\<lparr>width := iw, height := ih, fps := fr, duration := d, has_info := True\<rparr>"
  have m: "frame_mutex ?a2" using assms(1) by simp
  note T = start_extract_task_ok [OF m assms(2) assms(3)]
  have "app_stream_adapter_start e (Some a) =
          (ESP_OK, Some ((snd (start_extract_task e ?a2))\<lparr>running := True\<rparr>))"
    using assms(4-7) T(1) by (simp add: app_stream_adapter_start_def Let_def)
  then show ?thesis using T assms(5) by simp
qed

lemma arm_finish_timer_known:
  assumes "adapter v = Some a" and "has_info a" and "duration a = d" and "0 < d"
    and "finish_timer v = Some Disarmed \<or> (finish_timer v = None \<and> timer_create e = ESP_OK)
         \<or> (stop_first \<and> finish_timer v \<noteq> None)"
  shows "arm_finish_timer e stop_first v = v\<lparr>finish_timer := Some (Once ((unat d + 500) * 1000))\<rparr>"
  using assms
  by (auto simp: arm_finish_timer_def app_stream_adapter_get_info_def Let_def split: option.splits)

lemma switch_file_ok:
  assumes "adapter v = Some a" and "frame_mutex a" and "task_stops e \<or> mutex_create e"
    and "task_create e" and "extractor_start e p = ESP_OK"
    and "extractor_video_info e p = (ESP_OK, iw, ih, fr, d)" and "0 < d"
    and "finish_timer v \<noteq> None \<or> timer_create e = ESP_OK"
  shows "\<exists>a'. video_player_switch_file e (Some p) v =
               (ESP_OK, v\<lparr>current_file := take 255 p, has_error := False,
                          playback_finished := False, adapter := Some a',
                          state := VIDEO_STATE_PLAYING,
                          finish_timer := Some (Once ((unat d + 500) * 1000))\<rparr>)
              \<and> running a' \<and> frame_mutex a' \<and> a_filename a' = Some p \<and> extract_task_handle a'"
proof -
  let ?v1 = "v\<lparr>current_file := take 255 p\<rparr>"
  let ?v2 = "(if finish_timer ?v1 \<noteq> None
                then ?v1\<lparr>finish_timer := snd (esp_timer_stop (finish_timer ?v1))\<rparr> else ?v1)"
  let ?v3 = "(if state ?v2 \<noteq> VIDEO_STATE_STOPPED
                then ?v2\<lparr>adapter := snd (app_stream_adapter_stop e (adapter ?v2))\<rparr> else ?v2)"
  let ?v4 = "?v3\<lparr>has_error := False, playback_finished := False\<rparr>"
  have v2: "adapter ?v2 = Some a" "state ?v2 = state v"
    using assms(1) by simp_all
  have "\<exists>a3. adapter ?v3 = Some a3 \<and> frame_mutex a3"
  proof (cases "state v = VIDEO_STATE_STOPPED")
    case True
    then have "adapter ?v3 = Some a" using v2 by simp
    then show ?thesis using assms(2) by blast
  next
    case False
    then have "adapter ?v3 = snd (app_stream_adapter_stop e (Some a))" using v2 by simp
    then show ?thesis using adapter_stop_some [OF assms(2) assms(3)] by simp
  qed
  then obtain a3 where a3: "adapter ?v4 = Some a3" "frame_mutex a3"
    by auto
  obtain a4 where a4: "app_stream_adapter_set_file e (Some a3) (Some p) (v_audio_dev ?v4) = (ESP_OK, Some a4)"
      "frame_mutex a4" "\<not> running a4" "a_filename a4 = Some p"
    using adapter_set_file_some [OF a3(2) assms(3)] by blast
  obtain a5 where a5: "app_stream_adapter_start e (Some a4) = (ESP_OK, Some a5)"
      "frame_mutex a5" "running a5" "a_filename a5 = Some p" "extract_task_handle a5"
      "has_info a5" "duration a5 = d"
    using adapter_start_some [OF a4(2) assms(3) assms(4) a4(3) a4(4) assms(5) assms(6)] by blast
  have ft: "finish_timer ?v4 = Some Disarmed \<or> (finish_timer ?v4 = None \<and> timer_create e = ESP_OK)"
    using assms(8) by (cases "finish_timer v") auto
  let ?v5 = "?v4\<lparr>adapter := Some a5, state := VIDEO_STATE_PLAYING\<rparr>"
  have arm: "arm_finish_timer e False ?v5 = ?v5\<lparr>finish_timer := Some (Once ((unat d + 500) * 1000))\<rparr>"
    by (rule arm_finish_timer_known [where a = a5]) (use a5 assms(7) ft in auto)
  have "video_player_switch_file e (Some p) v = (ESP_OK, arm_finish_timer e False ?v5)"
    using assms(1) a3(1) a4(1) a5(1) unfolding video_player_switch_file_def Let_def by simp
  then have "video_player_switch_file e (Some p) v =
               (ESP_OK, v\<lparr>current_file := take 255 p, has_error := False,
                          playback_finished := False, adapter := Some a5,
                          state := VIDEO_STATE_PLAYING,
                          finish_timer := Some (Once ((unat d + 500) * 1000))\<rparr>)"
    unfolding arm by (simp split: if_splits)
  then show ?thesis using a5 by blast
qed

lemma adapter_start_any_info:
  assumes "frame_mutex a" and "task_stops e \<or> mutex_create e" and "task_create e"
    and "\<not> running a" and "a_filename a = Some p" and "extractor_start e p = ESP_OK"
  shows "\<exists>a'. app_stream_adapter_start e (Some a) = (ESP_OK, Some a')
              \<and> frame_mutex a' \<and> running a' \<and> a_filename a' = Some p
              \<and> has_info a' = (fst (extractor_video_info e p) = ESP_OK)
              \<and> (has_info a' \<longrightarrow> duration a' = snd (snd (snd (snd (extractor_video_info e p)))))"
proof -
  obtain ri iw ih fr d where info: "extractor_video_info e p = (ri, iw, ih, fr, d)"
    by (metis prod_cases5)
  let ?a1 = "a\<lparr>frame_count := 0, has_info := False, current_buffer := buffer_count a - 1\<rparr>"
  let ?a2 = "if ri = ESP_OK
             then ?a1\<lparr>width := iw, height := ih, fps := fr, duration := d, has_info := True\<rparr>
             else ?a1"
  have m: "frame_mutex ?a2" using assms(1) by simp
  note T = start_extract_task_ok [OF m assms(2) assms(3)]
  have "app_stream_adapter_start e (Some a) =
          (ESP_OK, Some ((snd (start_extract_task e ?a2))\<lparr>running := True\<rparr>))"
    using assms(4-6) T(1) info by (simp add: app_stream_adapter_start_def Let_def)
  then show ?thesis using T assms(5) info by simp
qed

lemma arm_finish_timer_unknown:
  "adapter v = Some a \<Longrightarrow> \<not> has_info a \<or> duration a = 0 \<Longrightarrow> arm_finish_timer e s v = v"
  by (auto simp: arm_finish_timer_def app_stream_adapter_get_info_def Let_def)

lemma play_ok:
  assumes "adapter (video w) = Some a" and "frame_mutex a" and "task_stops e \<or> mutex_create e"
    and "task_create e" and "extractor_start e p = ESP_OK"
  shows "\<exists>a' ft. video_player_play e p w =
               (ESP_OK, w\<lparr>video := (video w)\<lparr>current_file := take 255 p, has_error := False,
                             adapter := Some a', state := VIDEO_STATE_PLAYING,
                             playback_finished := False, finish_timer := ft\<rparr>,
                           ui_mode := UI_MODE_VIDEO\<rparr>)
              \<and> running a' \<and> frame_mutex a' \<and> a_filename a' = Some p
              \<and> (fst (extractor_video_info e p) = ESP_OK
                   \<and> 0 < snd (snd (snd (snd (extractor_video_info e p))))
                   \<and> (finish_timer (video w) \<noteq> None \<or> timer_create e = ESP_OK)
                 \<longrightarrow> ft = Some (Once ((unat (snd (snd (snd (snd (extractor_video_info e p))))) + 500) * 1000)))
              \<and> (fst (extractor_video_info e p) \<noteq> ESP_OK
                   \<or> snd (snd (snd (snd (extractor_video_info e p)))) = 0
                 \<longrightarrow> ft = finish_timer (video w))"
proof -
  let ?d = "snd (snd (snd (snd (extractor_video_info e p))))"
  let ?v1 = "(video w)\<lparr>current_file := take 255 p, has_error := False\<rparr>"
  obtain a4 where a4: "app_stream_adapter_set_file e (Some a) (Some p) (v_audio_dev ?v1) = (ESP_OK, Some a4)"
      "frame_mutex a4" "\<not> running a4" "a_filename a4 = Some p"
    using adapter_set_file_some [OF assms(2) assms(3)] by blast
  obtain a5 where a5: "app_stream_adapter_start e (Some a4) = (ESP_OK, Some a5)"
      "frame_mutex a5" "running a5" "a_filename a5 = Some p"
      "has_info a5 = (fst (extractor_video_info e p) = ESP_OK)"
      "has_info a5 \<longrightarrow> duration a5 = ?d"
    using adapter_start_any_info [OF a4(2) assms(3) assms(4) a4(3) a4(4) assms(5)] by blast
  let ?v2 = "?v1\<lparr>adapter := Some a5, state := VIDEO_STATE_PLAYING, playback_finished := False\<rparr>"
  have unfold: "video_player_play e p w =
      (ESP_OK, w\<lparr>video := arm_finish_timer e True ?v2, ui_mode := UI_MODE_VIDEO\<rparr>)"
    using assms(1) a4(1) a5(1)
    by (simp add: video_player_play_def Let_def ui_manager_switch_mode_def)
  have same: "arm_finish_timer e True ?v2 = ?v2\<lparr>finish_timer := finish_timer (arm_finish_timer e True ?v2)\<rparr>"
    by (auto simp: arm_finish_timer_def Let_def split: option.splits)
  have known: "fst (extractor_video_info e p) = ESP_OK \<and> 0 < ?d
                 \<and> (finish_timer (video w) \<noteq> None \<or> timer_create e = ESP_OK)
               \<longrightarrow> finish_timer (arm_finish_timer e True ?v2) = Some (Once ((unat ?d + 500) * 1000))"
  proof
    assume h: "fst (extractor_video_info e p) = ESP_OK \<and> 0 < ?d
                 \<and> (finish_timer (video w) \<noteq> None \<or> timer_create e = ESP_OK)"
    have "arm_finish_timer e True ?v2 = ?v2\<lparr>finish_timer := Some (Once ((unat ?d + 500) * 1000))\<rparr>"
      by (rule arm_finish_timer_known [where a = a5]) (use a5 h in auto)
    then show "finish_timer (arm_finish_timer e True ?v2) = Some (Once ((unat ?d + 500) * 1000))"
      by simp
  qed
  have unknown: "fst (extractor_video_info e p) \<noteq> ESP_OK \<or> ?d = 0
               \<longrightarrow> finish_timer (arm_finish_timer e True ?v2) = finish_timer (video w)"
  proof
    assume h: "fst (extractor_video_info e p) \<noteq> ESP_OK \<or> ?d = 0"
    have "\<not> has_info a5 \<or> duration a5 = 0" using h a5(5,6) by auto
    then have "arm_finish_timer e True ?v2 = ?v2"
      by (intro arm_finish_timer_unknown [where a = a5]) simp_all
    then show "finish_timer (arm_finish_timer e True ?v2) = finish_timer (video w)" by simp
  qed
  have "video_player_play e p w =
               (ESP_OK, w\<lparr>video := (video w)\<lparr>current_file := take 255 p, has_error := False,
                             adapter := Some a5, state := VIDEO_STATE_PLAYING,
                             playback_finished := False,
                             finish_timer := finish_timer (arm_finish_timer e True ?v2)\<rparr>,
                           ui_mode := UI_MODE_VIDEO\<rparr>)"
    unfolding unfold using same by simp
  then show ?thesis using a5(2,3,4) known unknown by blast
qed

lemma ex_world_video:
  "video (ex_world fs i) = video0\<lparr>current_volume := DEFAULT_AUDIO_VOLUME, adapter := Some ex_adapter\<rparr>"
  by (simp add: ex_world_def video_player_init_adapter)

lemma ex_env_simps [simp]:
  "task_create (ex_env bad)" "task_stops (ex_env bad)" "mutex_create (ex_env bad)"
  "timer_create (ex_env bad) = ESP_OK"
  "extractor_start (ex_env bad) p = (if p \<in> set bad then ESP_FAIL else ESP_OK)"
  "extractor_video_info (ex_env bad) p = (ESP_OK, 640, 480, 30, 3000)"
  by (simp_all add: ex_env_def)

text \<open>
  The initial state satisfies \<open>video_inv\<close>, and initialisation and every operation of the
  player keep it.
\<close>

lemma adapter_kept:
  "(snd (app_stream_adapter_stop e h) = None) = (h = None)"
  "(snd (app_stream_adapter_set_file e h f b) = None) = (h = None)"
  "(snd (app_stream_adapter_start e h) = None) = (h = None)"
  "(snd (app_stream_adapter_pause h) = None) = (h = None)"
  "(snd (app_stream_adapter_resume h) = None) = (h = None)"
  by (auto simp: app_stream_adapter_stop_def app_stream_adapter_set_file_def
      app_stream_adapter_start_def app_stream_adapter_pause_def app_stream_adapter_resume_def
      Let_def split: option.splits prod.splits)

lemma video_inv_initial: "video_inv video0"
  by (simp add: video_inv_def video0_def)

lemma video_inv_init: "video_inv v \<Longrightarrow> video_inv (snd (video_player_init e b v))"
  by (auto simp: video_inv_def video_player_init_def app_stream_adapter_init_def Let_def)

lemma video_inv_stop: "video_inv v \<Longrightarrow> video_inv (snd (video_player_stop e v))"
  by (auto simp: video_inv_def video_player_stop_def Let_def)

lemma video_inv_apply:
  assumes "video_inv (video w)"
  shows "video_inv (video (snd (video_apply e op w)))"
proof (cases "adapter (video w)")
  case None
  then have "state (video w) = VIDEO_STATE_STOPPED" using assms by (simp add: video_inv_def)
  then have "snd (video_apply e op w) = w"
    using None
    by (cases op)
      (simp_all add: video_apply_def video_player_play_def on_video_def
        video_player_switch_file_def video_player_pause_def video_player_resume_def Let_def)
  then show ?thesis using assms by simp
next
  case (Some a)
  have arm: "\<And>b v. adapter (arm_finish_timer e b v) = adapter v"
    by (simp add: arm_finish_timer_def Let_def split: option.splits)
  have "adapter (video (snd (video_apply e op w))) \<noteq> None"
  proof (cases op)
    case (Play p)
    then show ?thesis
      using Some
      by (simp add: video_apply_def video_player_play_def Let_def adapter_kept arm
          ui_manager_switch_mode_def del: not_None_eq)
  next
    case (Switch po)
    then show ?thesis
      using Some
      by (cases po)
        (simp_all add: video_apply_def on_video_def video_player_switch_file_def Let_def
          adapter_kept arm del: not_None_eq)
  next
    case Pause
    then show ?thesis
      using Some
      by (simp add: video_apply_def on_video_def video_player_pause_def Let_def adapter_kept
          del: not_None_eq)
  next
    case Resume
    then show ?thesis
      using Some
      by (simp add: video_apply_def on_video_def video_player_resume_def Let_def adapter_kept
          del: not_None_eq)
  qed
  then show ?thesis by (simp add: video_inv_def)
qed

text \<open>
  Claim C8, as amended. For play, switch with a path, pause and resume, every error return
  leaves the playback state Stopped or Error with the adapter not marked running, and a
  failed \<^verbatim>\<open>app_stream_adapter_start\<close> leaves the adapter not marked running. The
  exception is the argument check of \<^verbatim>\<open>video_player_switch_file\<close>: with a \<^verbatim>\<open>NULL\<close>
  path it returns an error and leaves the state, whatever it is, untouched.
\<close>

theorem video_error_paths_halt:
  assumes "video_inv (video w)" and "op \<noteq> Switch None" and "fst (video_apply e op w) \<noteq> ESP_OK"
  shows "halted (video (snd (video_apply e op w)))
         \<and> (fst (app_stream_adapter_start e h) \<noteq> ESP_OK
              \<longrightarrow> adapter_idle (snd (app_stream_adapter_start e h)))
         \<and> video_apply e (Switch None) w
             = (if adapter (video w) = None then ESP_ERR_INVALID_STATE else ESP_ERR_INVALID_ARG, w)"
proof -
  have 1: "halted (video (snd (video_apply e op w)))"
  proof (cases op)
    case (Play p)
    then show ?thesis using assms play_error_halted [of w e p] by (simp add: video_apply_def)
  next
    case (Switch po)
    then obtain p where "po = Some p" using assms(2) by (cases po) auto
    then show ?thesis
      using Switch assms switch_error_halted [of "video w" e p]
      by (simp add: video_apply_def on_video_def Let_def)
  next
    case Pause
    then show ?thesis
      using assms pause_error_halted [of "video w"] by (simp add: video_apply_def on_video_def Let_def)
  next
    case Resume
    then show ?thesis
      using assms resume_error_halted [of "video w"] by (simp add: video_apply_def on_video_def Let_def)
  qed
  have 2: "fst (app_stream_adapter_start e h) \<noteq> ESP_OK
              \<longrightarrow> adapter_idle (snd (app_stream_adapter_start e h))"
    using adapter_start_error_idle by blast
  have 3: "video_apply e (Switch None) w
             = (if adapter (video w) = None then ESP_ERR_INVALID_STATE else ESP_ERR_INVALID_ARG, w)"
    by (simp add: video_apply_def on_video_def video_player_switch_file_def Let_def)
  show ?thesis using 1 2 3 by blast
qed

theorem video_error_paths_halt_witness:
  "video_inv (video (ex_world ex_files 0))
   \<and> Play ex_mp4 \<noteq> Switch None
   \<and> fst (video_apply (ex_env [ex_mp4]) (Play ex_mp4) (ex_world ex_files 0)) = ESP_FAIL
   \<and> state (video (snd (video_apply (ex_env [ex_mp4]) (Play ex_mp4) (ex_world ex_files 0))))
       = VIDEO_STATE_ERROR
   \<and> halted (video (snd (video_apply (ex_env [ex_mp4]) (Play ex_mp4) (ex_world ex_files 0))))"
proof -
  let ?w = "ex_world ex_files 0"
  let ?e = "ex_env [ex_mp4]"
  have inv: "video_inv (video ?w)"
    by (simp add: video_inv_def ex_world_video)
  have ne: "Play ex_mp4 \<noteq> Switch None" by simp
  have r: "fst (video_apply ?e (Play ex_mp4) ?w) = ESP_FAIL"
    and st: "state (video (snd (video_apply ?e (Play ex_mp4) ?w))) = VIDEO_STATE_ERROR"
    by (simp_all add: video_apply_def video_player_play_def ex_world_video
        app_stream_adapter_set_file_def app_stream_adapter_start_def ex_adapter_def Let_def)
  have bad: "fst (video_apply ?e (Play ex_mp4) ?w) \<noteq> ESP_OK" using r by simp
  show ?thesis
    using inv ne r st video_error_paths_halt [OF inv ne bad] by simp
qed

text \<open>
  The claim as stated fails: while a video plays, \<^verbatim>\<open>video_player_switch_file(NULL)\<close>
  returns \<open>ESP_ERR_INVALID_ARG\<close> and the state stays Playing.
\<close>

theorem switch_null_keeps_playing:
  "fst (video_apply (ex_env []) (Switch None)
          (snd (video_player_play (ex_env []) ex_mp4 (ex_world ex_files 1))))
     = ESP_ERR_INVALID_ARG
   \<and> state (video (snd (video_apply (ex_env []) (Switch None)
          (snd (video_player_play (ex_env []) ex_mp4 (ex_world ex_files 1))))))
     = VIDEO_STATE_PLAYING"
proof -
  let ?w = "ex_world ex_files 1"
  have a: "adapter (video ?w) = Some ex_adapter" by (simp add: ex_world_video)
  have m: "frame_mutex ex_adapter" by (simp add: ex_adapter_def)
  have x: "extractor_start (ex_env []) ex_mp4 = ESP_OK" by simp
  obtain a' ft where p: "video_player_play (ex_env []) ex_mp4 ?w =
               (ESP_OK, ?w\<lparr>video := (video ?w)\<lparr>current_file := take 255 ex_mp4, has_error := False,
                             adapter := Some a', state := VIDEO_STATE_PLAYING,
                             playback_finished := False, finish_timer := ft\<rparr>,
                           ui_mode := UI_MODE_VIDEO\<rparr>)"
    using play_ok [OF a m _ _ x] by auto
  show ?thesis
    unfolding p by (simp add: video_apply_def on_video_def video_player_switch_file_def Let_def)
qed

text \<open>
  Claim C9, as amended. \<^verbatim>\<open>video_player_switch_file\<close> has no check of the playback state:
  called in any state, Stopped and Error included, it stops the pipeline, restarts it on
  the new path, returns \<open>ESP_OK\<close>, enters Playing, arms the completion timer for the
  duration plus 500 ms and leaves the presentation mode alone, under these conditions:
  the adapter is initialised and its frame mutex exists; the path is not \<^verbatim>\<open>NULL\<close>, the
  extractor starts on it and reports its video information with a nonzero duration; the
  extraction task can be created (\<^verbatim>\<open>xTaskCreate\<close> succeeds); a stop of the extraction task
  leaves a frame mutex (the task acknowledges the stop, or the mutex can be created anew
  after the stop timeout); and the completion timer exists already or can be created
  (\<^verbatim>\<open>esp_timer_create\<close> succeeds). Without one of the last three the call ends otherwise:
  a task that cannot be created gives an error return and the Error state, a timer that
  cannot be created gives Playing with no completion timer armed.
\<close>

theorem switch_file_any_state:
  assumes "adapter v = Some a" and "frame_mutex a" and "task_stops e \<or> mutex_create e"
    and "task_create e" and "extractor_start e p = ESP_OK"
    and "extractor_video_info e p = (ESP_OK, iw, ih, fr, d)" and "0 < d"
    and "finish_timer v \<noteq> None \<or> timer_create e = ESP_OK"
  shows "fst (video_player_switch_file e (Some p) v) = ESP_OK
         \<and> state (snd (video_player_switch_file e (Some p) v)) = VIDEO_STATE_PLAYING
         \<and> \<not> adapter_idle (adapter (snd (video_player_switch_file e (Some p) v)))
         \<and> map_option a_filename (adapter (snd (video_player_switch_file e (Some p) v))) = Some (Some p)
         \<and> finish_timer (snd (video_player_switch_file e (Some p) v))
             = Some (Once ((unat d + 500) * 1000))
         \<and> current_file (snd (video_player_switch_file e (Some p) v)) = take 255 p
         \<and> ui_mode (snd (on_video (video_player_switch_file e (Some p)) (w\<lparr>video := v\<rparr>))) = ui_mode w"
proof -
  obtain a' where r: "video_player_switch_file e (Some p) v =
               (ESP_OK, v\<lparr>current_file := take 255 p, has_error := False,
                          playback_finished := False, adapter := Some a',
                          state := VIDEO_STATE_PLAYING,
                          finish_timer := Some (Once ((unat d + 500) * 1000))\<rparr>)"
      and a': "running a'" "a_filename a' = Some p"
    using switch_file_ok [OF assms] by blast
  show ?thesis
    unfolding r using a' by (simp add: adapter_idle_def on_video_def Let_def)
qed

theorem switch_file_any_state_witness:
  "adapter (video (ex_world ex_files 0)) = Some ex_adapter
   \<and> frame_mutex ex_adapter
   \<and> state (video (ex_world ex_files 0)) = VIDEO_STATE_STOPPED
   \<and> fst (video_player_switch_file (ex_env []) (Some ex_mp4) (video (ex_world ex_files 0))) = ESP_OK
   \<and> finish_timer (snd (video_player_switch_file (ex_env []) (Some ex_mp4) (video (ex_world ex_files 0))))
       = Some (Once 3500000)"
proof -
  let ?v = "video (ex_world ex_files 0)"
  have a: "adapter ?v = Some ex_adapter" by (simp add: ex_world_video)
  have m: "frame_mutex ex_adapter" by (simp add: ex_adapter_def)
  have s: "state ?v = VIDEO_STATE_STOPPED" by (simp add: ex_world_video video0_def)
  have t: "task_stops (ex_env []) \<or> mutex_create (ex_env [])" by simp
  have c: "task_create (ex_env [])" by simp
  have x: "extractor_start (ex_env []) ex_mp4 = ESP_OK" by simp
  have i: "extractor_video_info (ex_env []) ex_mp4 = (ESP_OK, 640, 480, 30, 3000)" by simp
  have d: "(0::32 word) < 3000" by simp
  have f: "finish_timer ?v \<noteq> None \<or> timer_create (ex_env []) = ESP_OK" by simp
  show ?thesis
    using a m s switch_file_any_state [OF a m t c x i d f] by simp
qed

text \<open>
  The claim as stated fails: called in the Stopped state, \<^verbatim>\<open>video_player_switch_file\<close>
  performs the transition and playback starts.
\<close>

theorem switch_file_from_stopped:
  "state (video (ex_world ex_files 0)) = VIDEO_STATE_STOPPED
   \<and> fst (video_player_switch_file (ex_env []) (Some ex_mp4) (video (ex_world ex_files 0))) = ESP_OK
   \<and> state (snd (video_player_switch_file (ex_env []) (Some ex_mp4) (video (ex_world ex_files 0))))
       = VIDEO_STATE_PLAYING
   \<and> \<not> adapter_idle (adapter (snd (video_player_switch_file (ex_env []) (Some ex_mp4)
                                      (video (ex_world ex_files 0)))))"
proof -
  let ?v = "video (ex_world ex_files 0)"
  have a: "adapter ?v = Some ex_adapter" by (simp add: ex_world_video)
  have m: "frame_mutex ex_adapter" by (simp add: ex_adapter_def)
  have s: "state ?v = VIDEO_STATE_STOPPED" by (simp add: ex_world_video video0_def)
  obtain a' where r: "video_player_switch_file (ex_env []) (Some ex_mp4) ?v =
               (ESP_OK, ?v\<lparr>current_file := take 255 ex_mp4, has_error := False,
                          playback_finished := False, adapter := Some a',
                          state := VIDEO_STATE_PLAYING,
                          finish_timer := Some (Once ((unat (3000::32 word) + 500) * 1000))\<rparr>)"
      and a': "running a'"
    using switch_file_ok [OF a m, of "ex_env []" ex_mp4 640 480 30 3000] by auto
  show ?thesis unfolding r using s a' by (simp add: adapter_idle_def)
qed

section \<open>Navigation over entries that load\<close>

text \<open>On the indices of a collection the C remainder is the mathematical one.\<close>

lemma smod_nonneg: "0 \<le> a \<Longrightarrow> 0 < b \<Longrightarrow> a smod b = a mod (b::int)"
  by (cases "a = 0") (simp_all add: smod_int_alt_def sgn_if)

lemma set_current_index_simps [simp]:
  "slideshow (set_current_index i w) = slideshow w"
  "video (set_current_index i w) = video w"
  "pause_reason (set_current_index i w) = pause_reason w"
  "ui_mode (set_current_index i w) = ui_mode w"
  "attempts (set_current_index i w) = attempts w"
  "initialized (album (set_current_index i w)) = initialized (album w)"
  "collection (album (set_current_index i w)) = map_option (\<lambda>c. c\<lparr>current_index := i\<rparr>) (collection (album w))"
  by (simp_all add: set_current_index_def)

lemma ui_simps [simp]:
  "slideshow (ui_manager_switch_mode m w) = slideshow w"
  "video (ui_manager_switch_mode m w) = video w"
  "album (ui_manager_switch_mode m w) = album w"
  "pause_reason (ui_manager_switch_mode m w) = pause_reason w"
  "attempts (ui_manager_switch_mode m w) = attempts w"
  "ui_mode (ui_manager_switch_mode m w) = m"
  "slideshow (ui_manager_show_loading w) = slideshow w"
  "video (ui_manager_show_loading w) = video w"
  "album (ui_manager_show_loading w) = album w"
  "pause_reason (ui_manager_show_loading w) = pause_reason w"
  "attempts (ui_manager_show_loading w) = attempts w"
  "ui_mode (ui_manager_show_loading w) = ui_mode w"
  "slideshow (ui_manager_hide_loading w) = slideshow w"
  "video (ui_manager_hide_loading w) = video w"
  "album (ui_manager_hide_loading w) = album w"
  "pause_reason (ui_manager_hide_loading w) = pause_reason w"
  "attempts (ui_manager_hide_loading w) = attempts w"
  "ui_mode (ui_manager_hide_loading w) = ui_mode w"
  "slideshow (ui_manager_update_progress c t w) = slideshow w"
  "video (ui_manager_update_progress c t w) = video w"
  "album (ui_manager_update_progress c t w) = album w"
  "pause_reason (ui_manager_update_progress c t w) = pause_reason w"
  "attempts (ui_manager_update_progress c t w) = attempts w"
  "ui_mode (ui_manager_update_progress c t w) = ui_mode w"
  by (simp_all add: ui_manager_switch_mode_def ui_manager_show_loading_def
      ui_manager_hide_loading_def ui_manager_update_progress_def)

lemma on_slideshow_simps [simp]:
  "video (snd (on_slideshow f w)) = video w"
  "album (snd (on_slideshow f w)) = album w"
  "pause_reason (snd (on_slideshow f w)) = pause_reason w"
  "attempts (snd (on_slideshow f w)) = attempts w"
  "ui_mode (snd (on_slideshow f w)) = ui_mode w"
  "slideshow (snd (on_slideshow f w)) = snd (f (slideshow w))"
  "fst (on_slideshow f w) = fst (f (slideshow w))"
  by (simp_all add: on_slideshow_def Let_def)

lemma on_video_simps [simp]:
  "slideshow (snd (on_video f w)) = slideshow w"
  "album (snd (on_video f w)) = album w"
  "pause_reason (snd (on_video f w)) = pause_reason w"
  "attempts (snd (on_video f w)) = attempts w"
  "ui_mode (snd (on_video f w)) = ui_mode w"
  "video (snd (on_video f w)) = snd (f (video w))"
  "fst (on_video f w) = fst (f (video w))"
  by (simp_all add: on_video_def Let_def)

lemma display_image_simps [simp]:
  "slideshow (snd (ui_manager_display_image e p w)) = slideshow w"
  "video (snd (ui_manager_display_image e p w)) = video w"
  "album (snd (ui_manager_display_image e p w)) = album w"
  "pause_reason (snd (ui_manager_display_image e p w)) = pause_reason w"
  "attempts (snd (ui_manager_display_image e p w)) = attempts w"
  "fst (ui_manager_display_image e p w) = display_image e p"
  by (auto simp: ui_manager_display_image_def Let_def ui_manager_switch_mode_def)

text \<open>What a successful load of an image entry leaves behind.\<close>

lemma load_image_ok:
  assumes "collection (album w) = Some c" and "0 \<le> i" and "i < total_count c"
    and "image_loads e (files c ! nat i)"
  shows "fst (load_and_display_image e i w) = ESP_OK"
    and "collection (album (snd (load_and_display_image e i w))) = Some (c\<lparr>current_index := i\<rparr>)"
    and "initialized (album (snd (load_and_display_image e i w))) = initialized (album w)"
    and "video (snd (load_and_display_image e i w)) = video w"
    and "attempts (snd (load_and_display_image e i w)) = attempts w"
    and "pause_reason (snd (load_and_display_image e i w)) = pause_reason w"
    and "slideshow (snd (load_and_display_image e i w)) =
           (if \<not> is_running (slideshow w) \<and> pause_reason w = PAUSE_REASON_NONE
            then snd (slideshow_ctrl_start (slideshow w)) else slideshow w)"
  using assms
  by (auto simp: load_and_display_image_def image_loads_def Let_def slideshow_ctrl_is_running_def
      split: prod.splits)

text \<open>A failed load of an image entry changes nothing but the presenter.\<close>

lemma load_image_fail:
  assumes "collection (album w) = Some c" and "0 \<le> i" and "i < total_count c"
    and "\<not> image_loads e (files c ! nat i)"
  shows "fst (load_and_display_image e i w) \<noteq> ESP_OK"
    and "album (snd (load_and_display_image e i w)) = album w"
    and "video (snd (load_and_display_image e i w)) = video w"
    and "attempts (snd (load_and_display_image e i w)) = attempts w"
    and "pause_reason (snd (load_and_display_image e i w)) = pause_reason w"
    and "slideshow (snd (load_and_display_image e i w)) = slideshow w"
  using assms
  by (auto simp: load_and_display_image_def image_loads_def Let_def
      split: prod.splits)

lemma nav_inv_D:
  assumes "nav_inv fs w"
  obtains c a where "collection (album w) = Some c" and "files c = fs" and "0 \<le> current_index c"
    and "current_index c < int (length fs)" and "adapter (video w) = Some a" and "frame_mutex a"
    and "initialized (album w)"
  using assms by (auto simp: nav_inv_def split: option.splits)

lemma nav_inv_I:
  "initialized (album w) \<Longrightarrow> collection (album w) = Some c \<Longrightarrow> files c = fs \<Longrightarrow>
   0 \<le> current_index c \<Longrightarrow> current_index c < int (length fs) \<Longrightarrow>
   adapter (video w) = Some a \<Longrightarrow> frame_mutex a \<Longrightarrow> nav_inv fs w"
  by (simp add: nav_inv_def)

lemma media_loop_first_ok:
  assumes inv: "nav_inv fs w" and cur: "0 \<le> cur" "cur < int (length fs)"
    and loads: "entry_loads e (fs ! nat cur)" and plat: "platform_ok e"
  shows "fst (media_loop e False fs (Suc k) cur w) = ESP_OK
         \<and> nav_inv fs (snd (media_loop e False fs (Suc k) cur w))
         \<and> index_of (snd (media_loop e False fs (Suc k) cur w)) = cur
         \<and> attempts (snd (media_loop e False fs (Suc k) cur w)) = attempts w @ [cur]
         \<and> pause_reason (snd (media_loop e False fs (Suc k) cur w)) = pause_reason w
         \<and> slideshow (snd (media_loop e False fs (Suc k) cur w)) =
             (if file_manager_get_media_type (full_path (fs ! nat cur)) = MEDIA_TYPE_VIDEO
              then snd (slideshow_ctrl_stop (slideshow w))
              else if \<not> is_running (slideshow w) \<and> pause_reason w = PAUSE_REASON_NONE
              then snd (slideshow_ctrl_start (slideshow w)) else slideshow w)"
proof -
  obtain c a where c: "collection (album w) = Some c" "files c = fs"
    and a: "adapter (video w) = Some a" "frame_mutex a" and ini: "initialized (album w)"
    using inv by (rule nav_inv_D)
  let ?p = "full_path (fs ! nat cur)"
  let ?w0 = "w\<lparr>attempts := attempts w @ [cur]\<rparr>"
  show ?thesis
  proof (cases "file_manager_get_media_type ?p")
    case MEDIA_TYPE_UNKNOWN
    then show ?thesis using loads by (simp add: entry_loads_def)
  next
    case MEDIA_TYPE_IMAGE
    let ?w1 = "ui_manager_switch_mode UI_MODE_IMAGE ?w0"
    have c1: "collection (album ?w1) = Some c" using c by simp
    have il: "image_loads e (files c ! nat cur)"
      using loads MEDIA_TYPE_IMAGE c by (simp add: entry_loads_def)
    have tc: "cur < total_count c" using cur c by (simp add: total_count_def)
    note L = load_image_ok [OF c1 cur(1) tc il]
    have r: "media_loop e False fs (Suc k) cur w = (ESP_OK, snd (load_and_display_image e cur ?w1))"
      using MEDIA_TYPE_IMAGE L(1) by (simp add: Let_def)
    have "nav_inv fs (snd (load_and_display_image e cur ?w1))"
      using L(2,3,4) c a ini cur
      by (intro nav_inv_I [where a = a and c = "c\<lparr>current_index := cur\<rparr>"]) simp_all
    then show ?thesis
      unfolding r using L(2,5,6,7) MEDIA_TYPE_IMAGE by (simp add: index_of_def)
  next
    case MEDIA_TYPE_VIDEO
    let ?w1 = "ui_manager_switch_mode UI_MODE_VIDEO (ui_manager_show_loading ?w0)"
    let ?w2 = "snd (on_slideshow slideshow_ctrl_stop ?w1)"
    have a2: "adapter (video ?w2) = Some a" using a by simp
    have x: "extractor_start e ?p = ESP_OK"
      using loads MEDIA_TYPE_VIDEO by (simp add: entry_loads_def)
    have p1: "task_stops e \<or> mutex_create e" and p2: "task_create e"
      using plat by (simp_all add: platform_ok_def)
    obtain a' ft where play: "video_player_play e ?p ?w2 =
               (ESP_OK, ?w2\<lparr>video := (video ?w2)\<lparr>current_file := take 255 ?p, has_error := False,
                             adapter := Some a', state := VIDEO_STATE_PLAYING,
                             playback_finished := False, finish_timer := ft\<rparr>,
                           ui_mode := UI_MODE_VIDEO\<rparr>)"
      and a': "frame_mutex a'"
      using play_ok [OF a2 a(2) p1 p2 x] by blast
    let ?w3 = "?w2\<lparr>video := (video ?w2)\<lparr>current_file := take 255 ?p, has_error := False,
                             adapter := Some a', state := VIDEO_STATE_PLAYING,
                             playback_finished := False, finish_timer := ft\<rparr>,
                           ui_mode := UI_MODE_VIDEO\<rparr>"
    let ?w4 = "ui_manager_update_progress cur (int (length fs))
                 (set_current_index cur (ui_manager_hide_loading ?w3))"
    have r: "media_loop e False fs (Suc k) cur w = (ESP_OK, ?w4)"
      using MEDIA_TYPE_VIDEO play by (simp add: Let_def)
    have "nav_inv fs ?w4"
      using c a' ini cur by (intro nav_inv_I [where a = a' and c = "c\<lparr>current_index := cur\<rparr>"]) simp_all
    moreover have "index_of ?w4 = cur" using c by (simp add: index_of_def)
    ultimately show ?thesis unfolding r using MEDIA_TYPE_VIDEO by simp
  qed
qed

lemma stop_video_nav:
  assumes inv: "nav_inv fs w" and plat: "platform_ok e"
  shows "nav_inv fs (stop_video_before_switch e w)"
    and "state (video (stop_video_before_switch e w)) \<noteq> VIDEO_STATE_PLAYING"
    and "state (video (stop_video_before_switch e w)) \<noteq> VIDEO_STATE_PAUSED"
    and "collection (album (stop_video_before_switch e w)) = collection (album w)"
    and "attempts (stop_video_before_switch e w) = attempts w"
    and "pause_reason (stop_video_before_switch e w) = pause_reason w"
    and "slideshow (stop_video_before_switch e w) = slideshow w"
proof -
  obtain c a where c: "collection (album w) = Some c" "files c = fs" "0 \<le> current_index c"
      "current_index c < int (length fs)"
    and a: "adapter (video w) = Some a" "frame_mutex a" and ini: "initialized (album w)"
    using inv by (rule nav_inv_D)
  have p1: "task_stops e \<or> mutex_create e" using plat by (simp add: platform_ok_def)
  obtain a' where s: "snd (app_stream_adapter_stop e (Some a)) = Some a'" "frame_mutex a'"
    using adapter_stop_some [OF a(2) p1] by blast
  have v: "adapter (snd (video_player_stop e (video w))) = Some a
           \<or> adapter (snd (video_player_stop e (video w))) = Some a'"
    using a s by (auto simp: video_player_stop_def Let_def)
  have st: "state (video w) \<noteq> VIDEO_STATE_STOPPED \<longrightarrow>
            state (snd (video_player_stop e (video w))) = VIDEO_STATE_STOPPED"
    using a by (auto simp: video_player_stop_def Let_def)
  show "nav_inv fs (stop_video_before_switch e w)"
    using v c a s ini
    by (auto simp: stop_video_before_switch_def video_player_get_state_def Let_def
        intro!: nav_inv_I [where c = c])
  show "state (video (stop_video_before_switch e w)) \<noteq> VIDEO_STATE_PLAYING"
    and "state (video (stop_video_before_switch e w)) \<noteq> VIDEO_STATE_PAUSED"
    using st by (auto simp: stop_video_before_switch_def video_player_get_state_def Let_def)
  show "collection (album (stop_video_before_switch e w)) = collection (album w)"
    and "attempts (stop_video_before_switch e w) = attempts w"
    and "pause_reason (stop_video_before_switch e w) = pause_reason w"
    and "slideshow (stop_video_before_switch e w) = slideshow w"
    by (simp_all add: stop_video_before_switch_def Let_def)
qed

lemma next_ok:
  assumes inv: "nav_inv fs w" and plat: "platform_ok e"
    and loads: "entry_loads e (fs ! nat ((index_of w + 1) mod int (length fs)))"
  shows "fst (photo_album_next e w) = ESP_OK
         \<and> nav_inv fs (snd (photo_album_next e w))
         \<and> index_of (snd (photo_album_next e w)) = (index_of w + 1) mod int (length fs)
         \<and> attempts (snd (photo_album_next e w)) = attempts w @ [(index_of w + 1) mod int (length fs)]
         \<and> pause_reason (snd (photo_album_next e w)) = pause_reason w
         \<and> slideshow (snd (photo_album_next e w)) =
             (if file_manager_get_media_type
                   (full_path (fs ! nat ((index_of w + 1) mod int (length fs)))) = MEDIA_TYPE_VIDEO
              then snd (slideshow_ctrl_stop (slideshow w))
              else if \<not> is_running (slideshow w) \<and> pause_reason w = PAUSE_REASON_NONE
              then snd (slideshow_ctrl_start (slideshow w)) else slideshow w)"
proof -
  obtain c a where c: "collection (album w) = Some c" "files c = fs" "0 \<le> current_index c"
      "current_index c < int (length fs)"
    and ini: "initialized (album w)"
    using inv by (rule nav_inv_D)
  let ?n = "int (length fs)"
  let ?i = "(current_index c + 1) mod ?n"
  have n: "0 < ?n" using c by linarith
  have i: "0 \<le> ?i" "?i < ?n" using n by simp_all
  have sm: "(current_index c + 1) smod total_count c = ?i"
    using c n by (simp add: smod_nonneg total_count_def)
  let ?w1 = "stop_video_before_switch e w"
  note S = stop_video_nav [OF inv plat]
  have idx: "index_of w = current_index c" using c by (simp add: index_of_def)
  have c1: "collection (album ?w1) = Some c" using S(4) c by simp
  have "load_and_display_media e ?i ?w1 = media_loop e False fs (nat ?n) ?i ?w1"
    using c1 c i S(2,3)
    by (simp add: load_and_display_media_def total_count_def video_player_get_state_def Let_def)
  moreover obtain k where "nat ?n = Suc k" using n by (cases "nat ?n") auto
  ultimately have lm: "load_and_display_media e ?i ?w1 = media_loop e False fs (Suc k) ?i ?w1"
    by simp
  have r: "photo_album_next e w = load_and_display_media e ?i ?w1"
    using c ini n sm by (simp add: photo_album_next_def total_count_def Let_def)
  have loads': "entry_loads e (fs ! nat ?i)" using loads idx by simp
  show ?thesis
    unfolding r lm idx
    using media_loop_first_ok [OF S(1) i loads' plat, of k] S(5,6,7) by simp
qed

lemma nexts_index:
  assumes "nav_inv fs w" and "platform_ok e" and "\<forall>fi \<in> set fs. entry_loads e fi"
  shows "nav_inv fs (nexts e k w)
         \<and> index_of (nexts e k w) = (index_of w + int k) mod int (length fs)"
  using assms(1)
proof (induction k arbitrary: w)
  case 0
  then obtain c where "collection (album w) = Some c" "0 \<le> current_index c"
      "current_index c < int (length fs)"
    by (rule nav_inv_D)
  then show ?case using 0 by (simp add: index_of_def)
next
  case (Suc k)
  obtain c where c: "collection (album w) = Some c" "0 \<le> current_index c"
      "current_index c < int (length fs)"
    using Suc.prems by (rule nav_inv_D)
  let ?n = "int (length fs)"
  have n: "0 < ?n" using c by linarith
  have "(index_of w + 1) mod ?n < ?n" using n by (rule pos_mod_bound)
  moreover have "0 \<le> (index_of w + 1) mod ?n" using n by (rule pos_mod_sign)
  ultimately have "nat ((index_of w + 1) mod ?n) < length fs" by linarith
  then have "entry_loads e (fs ! nat ((index_of w + 1) mod ?n))"
    using assms(3) by simp
  note N = next_ok [OF Suc.prems assms(2) this]
  have "index_of (nexts e (Suc k) w) = ((index_of w + 1) mod ?n + int k) mod ?n"
    using Suc.IH [of "snd (photo_album_next e w)"] N by simp
  also have "\<dots> = (index_of w + int (Suc k)) mod ?n"
    by (metis mod_add_left_eq add.assoc add.commute of_nat_Suc)
  finally show ?case using Suc.IH [of "snd (photo_album_next e w)"] N by simp
qed

section \<open>Evaluation on the example configurations\<close>

lemmas eval_defs =
  photo_album_goto_def load_and_display_media_def load_and_display_image_def
  photo_album_next_def photo_album_prev_def stop_video_before_switch_def
  video_player_play_def video_player_stop_def video_player_pause_def video_player_switch_file_def
  video_player_get_state_def arm_finish_timer_def
  app_stream_adapter_set_file_def app_stream_adapter_start_def app_stream_adapter_stop_def
  app_stream_adapter_pause_def app_stream_adapter_get_info_def
  start_extract_task_def stop_extract_task_def
  slideshow_ctrl_start_def slideshow_ctrl_stop_def slideshow_ctrl_pause_def slideshow_ctrl_init_def
  slideshow_ctrl_is_running_def period_us_def
  on_slideshow_def on_video_def set_current_index_def
  ui_manager_switch_mode_def ui_manager_show_loading_def ui_manager_hide_loading_def
  ui_manager_update_progress_def ui_manager_display_image_def
  validate_file_for_decoding_def image_needs_processing_def
  photo_album_pause_for_usb_def photo_album_pause_def
  finish_timer_expires_def video_finish_timer_cb_def idle_timer_expires_def
  total_count_def ex_files_def mk_file_def ex_mp4_def
  EXTRACT_TASK_START_BIT_def EXTRACT_TASK_PAUSE_BIT_def ALL_TASK_BITS_def
  DEFAULT_AUDIO_VOLUME_def Let_def

lemma ex_world_eval:
  "ex_world fs i =
     \<lparr>slideshow = \<lparr>timer = Some Disarmed, idle_timer = Some Disarmed, next_cb = True,
                    interval_ms = 5000, is_running = False, manual_control = False\<rparr>,
      video = \<lparr>adapter = Some ex_adapter, state = VIDEO_STATE_STOPPED, playback_finished = False,
                v_audio_dev = False, current_volume = 50, current_file = [], has_error = False,
                finish_timer = None\<rparr>,
      album = \<lparr>collection = Some \<lparr>files = fs, current_index = i\<rparr>,
                album_interval_ms = 5000, initialized = True\<rparr>,
      pause_reason = PAUSE_REASON_NONE,
      ui_mode = UI_MODE_IMAGE, ui_loading = False, ui_progress = None,
      ui_settings_visible = False, ui_volume = None, attempts = []\<rparr>"
  unfolding ex_world_def video_player_init_adapter
  by (simp add: slideshow_ctrl_init_def ss0_def video0_def DEFAULT_AUDIO_VOLUME_def Let_def)

lemma ex_env_fields [simp]:
  "screen_width (ex_env bad) = 1024" "screen_height (ex_env bad) = 600"
  "load_image (ex_env bad) p = ESP_OK"
  "decode_image (ex_env bad) p = (if p \<in> set bad then (ESP_FAIL, 0, 0) else (ESP_OK, 800, 480))"
  "process_image (ex_env bad) p = ESP_OK" "display_image (ex_env bad) p = ESP_OK"
  by (simp_all add: ex_env_def)

lemma mt_jpg [simp]: "file_manager_get_media_type ''/sdcard/photos/a.jpg'' = MEDIA_TYPE_IMAGE"
  by (simp add: file_manager_get_media_type_def strcasecmp_eq_def tolower_c_def)
lemma mt_jpg_b [simp]: "file_manager_get_media_type ''/sdcard/photos/b.jpg'' = MEDIA_TYPE_IMAGE"
  by (simp add: file_manager_get_media_type_def strcasecmp_eq_def tolower_c_def)
lemma mt_mp4 [simp]: "file_manager_get_media_type ''/sdcard/photos/c.mp4'' = MEDIA_TYPE_VIDEO"
  by (simp add: file_manager_get_media_type_def strcasecmp_eq_def tolower_c_def)

lemma media_loop_numeral [simp]:
  "media_loop e pl fs (numeral v) cur w = media_loop e pl fs (Suc (pred_numeral v)) cur w"
  "media_loop e pl fs 1 cur w = media_loop e pl fs (Suc 0) cur w"
  by (simp_all only: numeral_eq_Suc One_nat_def)

lemma prev_loop_numeral [simp]:
  "prev_loop e n (numeral v) i w = prev_loop e n (Suc (pred_numeral v)) i w"
  "prev_loop e n 1 i w = prev_loop e n (Suc 0) i w"
  by (simp_all only: numeral_eq_Suc One_nat_def)

lemma nexts_numeral [simp]:
  "nexts e (numeral v) w = nexts e (Suc (pred_numeral v)) w"
  "nexts e 1 w = nexts e (Suc 0) w"
  by (simp_all only: numeral_eq_Suc One_nat_def)

section \<open>Properties of navigation\<close>

text \<open>
  Claim C6. In an initialised album of \<open>n \<ge> 1\<close> entries that all load, each call of
  \<^verbatim>\<open>photo_album_next\<close> succeeds and advances \<^verbatim>\<open>current_index\<close> by one modulo \<open>n\<close>, so
  \<open>n\<close> calls bring it back to where it was.
\<close>

theorem next_n_times_returns:
  assumes "nav_inv fs w" and "platform_ok e" and "\<forall>fi \<in> set fs. entry_loads e fi"
  shows "1 \<le> length fs
         \<and> photo_album_get_total_count w = int (length fs)
         \<and> photo_album_get_current_index (nexts e (length fs) w) = photo_album_get_current_index w
         \<and> photo_album_get_current_index (nexts e k w)
             = (photo_album_get_current_index w + int k) mod int (length fs)
         \<and> fst (photo_album_next e (nexts e k w)) = ESP_OK"
proof -
  let ?n = "int (length fs)"
  have cur: "\<And>u. nav_inv fs u \<Longrightarrow> photo_album_get_current_index u = index_of u"
    by (auto simp: nav_inv_def photo_album_get_current_index_def index_of_def split: option.splits)
  obtain c where c: "collection (album w) = Some c" "files c = fs" "0 \<le> current_index c"
      "current_index c < ?n" and ini: "initialized (album w)"
    using assms(1) by (rule nav_inv_D)
  have n: "0 < ?n" using c by linarith
  have idx: "index_of w = current_index c" using c by (simp add: index_of_def)
  note K = nexts_index [OF assms, of k]
  note N = nexts_index [OF assms, of "length fs"]
  have full: "index_of (nexts e (length fs) w) = index_of w"
    using N c idx by simp
  have "(index_of (nexts e k w) + 1) mod ?n < ?n" using n by (rule pos_mod_bound)
  moreover have "0 \<le> (index_of (nexts e k w) + 1) mod ?n" using n by (rule pos_mod_sign)
  ultimately have "nat ((index_of (nexts e k w) + 1) mod ?n) < length fs" by linarith
  then have "entry_loads e (fs ! nat ((index_of (nexts e k w) + 1) mod ?n))"
    using assms(3) by simp
  then have ok: "fst (photo_album_next e (nexts e k w)) = ESP_OK"
    using next_ok [of fs "nexts e k w" e] K assms(2) by simp
  have cnt: "photo_album_get_total_count w = ?n"
    using c ini by (simp add: photo_album_get_total_count_def total_count_def)
  have one: "1 \<le> length fs" using n by (cases fs) simp_all
  show ?thesis
    using one cnt full ok K N cur [OF assms(1)] cur [of "nexts e k w"] cur [of "nexts e (length fs) w"]
    by simp
qed

lemma ex_entry_loads:
  "entry_loads (ex_env []) (mk_file ''a.jpg'' 2000)"
  "entry_loads (ex_env []) (mk_file ''c.mp4'' 900000)"
  by (simp_all add: entry_loads_def image_loads_def mk_file_def validate_file_for_decoding_def
      image_needs_processing_def)

lemma ex_nav_inv: "0 \<le> i \<Longrightarrow> i < int (length fs) \<Longrightarrow> nav_inv fs (ex_world fs i)"
  by (simp add: nav_inv_def ex_world_eval ex_adapter_def)

lemma ex_platform_ok [simp]: "platform_ok (ex_env bad)"
  by (simp add: platform_ok_def)

theorem next_n_times_returns_witness:
  "nav_inv ex_files (ex_world ex_files 0) \<and> platform_ok (ex_env [])
   \<and> entry_loads (ex_env []) (ex_files ! 0) \<and> entry_loads (ex_env []) (ex_files ! 1)
   \<and> photo_album_get_current_index (ex_world ex_files 0) = 0
   \<and> photo_album_get_current_index (nexts (ex_env []) 1 (ex_world ex_files 0)) = 1
   \<and> photo_album_get_current_index (nexts (ex_env []) (length ex_files) (ex_world ex_files 0)) = 0"
proof -
  have i: "nav_inv ex_files (ex_world ex_files 0)"
    by (rule ex_nav_inv) (simp_all add: ex_files_def)
  have p: "platform_ok (ex_env [])" by simp
  have l: "\<forall>fi \<in> set ex_files. entry_loads (ex_env []) fi"
    by (simp add: ex_files_def ex_entry_loads)
  have z: "photo_album_get_current_index (ex_world ex_files 0) = 0"
    by (simp add: photo_album_get_current_index_def ex_world_eval)
  have len: "int (length ex_files) = 2" by (simp add: ex_files_def)
  show ?thesis
    using i p l z next_n_times_returns [OF i p l, of 1] len by simp
qed

section \<open>Navigation over entries that fail, and the slideshow timers under a pause\<close>

lemma play_frame [simp]:
  "album (snd (video_player_play e p w)) = album w"
  "attempts (snd (video_player_play e p w)) = attempts w"
  "slideshow (snd (video_player_play e p w)) = slideshow w"
  "pause_reason (snd (video_player_play e p w)) = pause_reason w"
  by (simp_all add: video_player_play_def Let_def ui_manager_switch_mode_def)

lemma adapter_set_file_fresh:
  "\<exists>a'. app_stream_adapter_set_file e (Some a) (Some p) b = (ESP_OK, Some a')
        \<and> \<not> running a' \<and> a_filename a' = Some p"
  by (simp add: app_stream_adapter_set_file_def app_stream_adapter_stop_def Let_def)

lemma adapter_start_fails:
  "\<not> running a \<Longrightarrow> a_filename a = Some p \<Longrightarrow> extractor_start e p \<noteq> ESP_OK \<Longrightarrow>
   fst (app_stream_adapter_start e (Some a)) \<noteq> ESP_OK"
  by (simp add: app_stream_adapter_start_def Let_def)

lemma play_fails:
  assumes "extractor_start e p \<noteq> ESP_OK"
  shows "fst (video_player_play e p w) \<noteq> ESP_OK"
proof (cases "adapter (video w)")
  case None
  then show ?thesis by (simp add: video_player_play_def)
next
  case (Some a)
  obtain a' where s: "app_stream_adapter_set_file e (Some a) (Some p) (v_audio_dev (video w)) = (ESP_OK, Some a')"
    and a': "\<not> running a'" "a_filename a' = Some p"
    using adapter_set_file_fresh by blast
  have "fst (app_stream_adapter_start e (Some a')) \<noteq> ESP_OK"
    using a' assms by (rule adapter_start_fails)
  then show ?thesis using Some s by (simp add: video_player_play_def Let_def)
qed

lemma switch_fails:
  assumes "extractor_start e p \<noteq> ESP_OK"
  shows "fst (video_player_switch_file e (Some p) v) \<noteq> ESP_OK"
proof (cases "adapter v")
  case None
  then show ?thesis by (simp add: video_player_switch_file_def)
next
  case (Some a)
  let ?v1 = "v\<lparr>current_file := take 255 p\<rparr>"
  let ?v2 = "(if finish_timer ?v1 \<noteq> None
                then ?v1\<lparr>finish_timer := snd (esp_timer_stop (finish_timer ?v1))\<rparr> else ?v1)"
  let ?v3 = "(if state ?v2 \<noteq> VIDEO_STATE_STOPPED
                then ?v2\<lparr>adapter := snd (app_stream_adapter_stop e (adapter ?v2))\<rparr> else ?v2)"
  let ?v4 = "?v3\<lparr>has_error := False, playback_finished := False\<rparr>"
  have "\<exists>a3. adapter ?v4 = Some a3"
    using Some by (auto simp: app_stream_adapter_stop_def)
  then obtain a3 where a3: "adapter ?v4 = Some a3" by blast
  obtain a' where s: "app_stream_adapter_set_file e (Some a3) (Some p) (v_audio_dev ?v4) = (ESP_OK, Some a')"
    and a': "\<not> running a'" "a_filename a' = Some p"
    using adapter_set_file_fresh by blast
  have "fst (app_stream_adapter_start e (Some a')) \<noteq> ESP_OK"
    using a' assms by (rule adapter_start_fails)
  then show ?thesis
    using Some a3 s unfolding video_player_switch_file_def Let_def by simp
qed

text \<open>
  When every entry fails to load, the retry loop of \<^verbatim>\<open>load_and_display_media\<close> makes one
  attempt per retry and changes nothing in the album.
\<close>

lemma media_loop_all_fail:
  assumes "collection (album w) = Some c" and "files c = fs"
    and "\<forall>fi \<in> set fs. entry_fails e fi" and "0 \<le> cur" and "cur < int (length fs)"
  shows "fst (media_loop e playing fs k cur w) = ESP_ERR_NOT_FOUND
         \<and> album (snd (media_loop e playing fs k cur w)) = album w
         \<and> length (attempts (snd (media_loop e playing fs k cur w))) = length (attempts w) + k"
  using assms(1,4,5)
proof (induction k arbitrary: cur w)
  case 0
  then show ?case by simp
next
  case (Suc k)
  let ?n = "int (length fs)"
  let ?p = "full_path (fs ! nat cur)"
  let ?w0 = "w\<lparr>attempts := attempts w @ [cur]\<rparr>"
  let ?nxt = "(cur + 1) smod ?n"
  have n: "0 < ?n" using Suc.prems by linarith
  have nx: "?nxt = (cur + 1) mod ?n" using Suc.prems n by (simp add: smod_nonneg)
  have nxt: "0 \<le> ?nxt" "?nxt < ?n" unfolding nx using n by simp_all
  have mem: "fs ! nat cur \<in> set fs" using Suc.prems by simp
  then have fails: "entry_fails e (fs ! nat cur)" using assms(3) by blast
  have IH: "\<And>u. album u = album w \<Longrightarrow>
              fst (media_loop e playing fs k ?nxt u) = ESP_ERR_NOT_FOUND
              \<and> album (snd (media_loop e playing fs k ?nxt u)) = album w
              \<and> length (attempts (snd (media_loop e playing fs k ?nxt u))) = length (attempts u) + k"
    using Suc.IH [OF _ nxt] Suc.prems(1) by simp
  show ?case
  proof (cases "file_manager_get_media_type ?p")
    case MEDIA_TYPE_UNKNOWN
    have "media_loop e playing fs (Suc k) cur w = media_loop e playing fs k ?nxt ?w0"
      using MEDIA_TYPE_UNKNOWN by (simp add: Let_def)
    then show ?thesis using IH [of ?w0] by simp
  next
    case MEDIA_TYPE_IMAGE
    let ?w1 = "ui_manager_switch_mode UI_MODE_IMAGE ?w0"
    let ?r = "load_and_display_image e cur ?w1"
    have c1: "collection (album ?w1) = Some c" using Suc.prems(1) by simp
    have nl: "\<not> image_loads e (files c ! nat cur)"
      using fails MEDIA_TYPE_IMAGE assms(2) by (simp add: entry_fails_def)
    have tc: "cur < total_count c" using Suc.prems(3) assms(2) by (simp add: total_count_def)
    note L = load_image_fail [OF c1 Suc.prems(2) tc nl]
    have "media_loop e playing fs (Suc k) cur w = media_loop e playing fs k ?nxt (snd ?r)"
      using MEDIA_TYPE_IMAGE L(1) by (simp add: Let_def)
    then show ?thesis using IH [of "snd ?r"] L(2,4) by simp
  next
    case MEDIA_TYPE_VIDEO
    have x: "extractor_start e ?p \<noteq> ESP_OK"
      using fails MEDIA_TYPE_VIDEO by (simp add: entry_fails_def)
    show ?thesis
    proof (cases playing)
      case True
      let ?r = "on_video (video_player_switch_file e (Some ?p)) ?w0"
      have bad: "fst ?r \<noteq> ESP_OK" using switch_fails [OF x] by simp
      have "media_loop e playing fs (Suc k) cur w = media_loop e playing fs k ?nxt (snd ?r)"
        using MEDIA_TYPE_VIDEO True bad by (simp add: Let_def)
      then show ?thesis using IH [of "snd ?r"] by simp
    next
      case False
      let ?w2 = "snd (on_slideshow slideshow_ctrl_stop
                   (ui_manager_switch_mode UI_MODE_VIDEO (ui_manager_show_loading ?w0)))"
      let ?r0 = "video_player_play e ?p ?w2"
      let ?u = "ui_manager_switch_mode UI_MODE_IMAGE (ui_manager_hide_loading (snd ?r0))"
      have bad: "fst ?r0 \<noteq> ESP_OK" using play_fails [OF x] by simp
      have "media_loop e playing fs (Suc k) cur w = media_loop e playing fs k ?nxt ?u"
        using MEDIA_TYPE_VIDEO False bad by (simp add: Let_def)
      then show ?thesis using IH [of ?u] by simp
    qed
  qed
qed

text \<open>
  So \<^verbatim>\<open>photo_album_next\<close> on a collection whose entries all fail returns
  \<open>ESP_ERR_NOT_FOUND\<close> after exactly as many attempts as there are entries.
\<close>

lemma next_all_fail:
  assumes "initialized (album w)" and "collection (album w) = Some c" and "files c = fs"
    and "fs \<noteq> []" and "0 \<le> current_index c" and "\<forall>fi \<in> set fs. entry_fails e fi"
  shows "fst (photo_album_next e w) = ESP_ERR_NOT_FOUND
         \<and> length (attempts (snd (photo_album_next e w))) = length (attempts w) + length fs"
proof -
  let ?n = "int (length fs)"
  let ?i = "(current_index c + 1) smod ?n"
  let ?w1 = "stop_video_before_switch e w"
  have n: "0 < ?n" using assms(4) by simp
  have i: "0 \<le> ?i" "?i < ?n" using assms(5) n by (simp_all add: smod_nonneg)
  have c1: "collection (album ?w1) = Some c" "attempts ?w1 = attempts w"
    using assms(2) by (simp_all add: stop_video_before_switch_def Let_def)
  have "photo_album_next e w = load_and_display_media e ?i ?w1"
    using assms(1,2,3,4) by (simp add: photo_album_next_def total_count_def Let_def)
  also have "\<dots> = media_loop e (state (video ?w1) = VIDEO_STATE_PLAYING \<or> state (video ?w1) = VIDEO_STATE_PAUSED)
                     fs (length fs) ?i ?w1"
    using c1 assms(3) i
    by (simp add: load_and_display_media_def total_count_def video_player_get_state_def Let_def)
  finally show ?thesis
    using media_loop_all_fail [OF c1(1) assms(3) assms(6) i] c1(2) by simp
qed

text \<open>
  \<^verbatim>\<open>photo_album_prev\<close> wraps that loop in a retry loop of its own, so on such a collection
  it makes as many attempts as the square of the number of entries.
\<close>

lemma load_media_all_fail:
  assumes "collection (album w) = Some c" and "files c = fs"
    and "\<forall>fi \<in> set fs. entry_fails e fi" and "0 \<le> i" and "i < int (length fs)"
  shows "fst (load_and_display_media e i w) = ESP_ERR_NOT_FOUND
         \<and> album (snd (load_and_display_media e i w)) = album w
         \<and> length (attempts (snd (load_and_display_media e i w))) = length (attempts w) + length fs"
proof -
  have "load_and_display_media e i w =
          media_loop e (state (video w) = VIDEO_STATE_PLAYING \<or> state (video w) = VIDEO_STATE_PAUSED)
            fs (length fs) i w"
    using assms(1,2,4,5)
    by (simp add: load_and_display_media_def total_count_def video_player_get_state_def Let_def)
  then show ?thesis using media_loop_all_fail [OF assms] by simp
qed

lemma prev_loop_all_fail:
  assumes "collection (album w) = Some c" and "files c = fs"
    and "\<forall>fi \<in> set fs. entry_fails e fi" and "0 \<le> i" and "i < int (length fs)"
  shows "fst (prev_loop e (int (length fs)) k i w) = ESP_ERR_NOT_FOUND
         \<and> length (attempts (snd (prev_loop e (int (length fs)) k i w)))
             = length (attempts w) + k * length fs"
  using assms(1,4,5)
proof (induction k arbitrary: i w)
  case 0
  then show ?case by simp
next
  case (Suc k)
  let ?n = "int (length fs)"
  let ?r = "load_and_display_media e i w"
  let ?j = "(i - 1 + ?n) smod ?n"
  note L = load_media_all_fail [OF Suc.prems(1) assms(2) assms(3) Suc.prems(2) Suc.prems(3)]
  have n: "0 < ?n" using Suc.prems by linarith
  have "0 \<le> i - 1 + ?n" using Suc.prems by linarith
  then have j: "0 \<le> ?j" "?j < ?n" using n by (simp_all add: smod_nonneg)
  have c': "collection (album (snd ?r)) = Some c" using L Suc.prems(1) by simp
  have "prev_loop e ?n (Suc k) i w = prev_loop e ?n k ?j (snd ?r)"
    using L by (simp add: Let_def)
  then show ?case using Suc.IH [OF c' j] L by (simp add: algebra_simps)
qed

lemma prev_all_fail:
  assumes "initialized (album w)" and "collection (album w) = Some c" and "files c = fs"
    and "fs \<noteq> []" and "0 \<le> current_index c" and "\<forall>fi \<in> set fs. entry_fails e fi"
  shows "fst (photo_album_prev e w) = ESP_ERR_NOT_FOUND
         \<and> length (attempts (snd (photo_album_prev e w)))
             = length (attempts w) + length fs * length fs"
proof -
  let ?n = "int (length fs)"
  let ?i = "(current_index c - 1 + ?n) smod ?n"
  let ?w1 = "stop_video_before_switch e w"
  have n: "0 < ?n" using assms(4) by simp
  have "0 \<le> current_index c - 1 + ?n" using assms(5) n by linarith
  then have i: "0 \<le> ?i" "?i < ?n" using n by (simp_all add: smod_nonneg)
  have c1: "collection (album ?w1) = Some c" "attempts ?w1 = attempts w"
    using assms(2) by (simp_all add: stop_video_before_switch_def Let_def)
  have "photo_album_prev e w = prev_loop e ?n (length fs) ?i ?w1"
    using assms(1,2,3,4) by (simp add: photo_album_prev_def total_count_def Let_def)
  then show ?thesis
    using prev_loop_all_fail [OF c1(1) assms(3) assms(6) i] c1(2) by simp
qed

text \<open>After a user pause of a running slideshow, the idle expiry restarts the periodic timer.\<close>

lemma user_pause_auto_resumes:
  assumes "initialized (album w)" and "slideshow_inv (slideshow w)" and "is_running (slideshow w)"
  shows "pause_reason (snd (photo_album_pause w)) = PAUSE_REASON_USER
         \<and> \<not> is_periodic (timer (slideshow (snd (photo_album_pause w))))
         \<and> map_option (\<lambda>u. is_periodic (timer (slideshow u)) \<and> \<not> manual_control (slideshow u))
              (idle_timer_expires (snd (photo_album_pause w))) = Some True"
  using assms
  by (auto simp: photo_album_pause_def on_slideshow_def slideshow_ctrl_pause_def slideshow_inv_def
      idle_timer_expires_def idle_timer_callback_def is_once_iff is_periodic_iff Let_def
      split: if_splits)

text \<open>After a pause for USB neither timer of the slideshow controller is armed.\<close>

lemma usb_pause_disarms_slideshow:
  assumes "initialized (album w)" and "slideshow_inv (slideshow w)"
  shows "pause_reason (snd (photo_album_pause_for_usb w)) = PAUSE_REASON_USB
         \<and> idle_timer_expires (snd (photo_album_pause_for_usb w)) = None
         \<and> slideshow_timer_expires e (snd (photo_album_pause_for_usb w)) = None"
  using assms
  by (auto simp: photo_album_pause_for_usb_def on_slideshow_def slideshow_ctrl_stop_def
      slideshow_inv_def idle_timer_expires_def slideshow_timer_expires_def is_once_iff
      is_periodic_iff Let_def split: if_splits)

section \<open>Pause state, retries and timers\<close>

lemma manual_triggers_numeral [simp]:
  "manual_triggers (numeral v) s = manual_triggers (Suc (pred_numeral v)) s"
  "manual_triggers 1 s = manual_triggers (Suc 0) s"
  by (simp_all only: numeral_eq_Suc One_nat_def)

lemma scan_simps [simp]:
  "slideshow (snd (file_manager_scan_images e w)) = slideshow w"
  "video (snd (file_manager_scan_images e w)) = video w"
  "attempts (snd (file_manager_scan_images e w)) = attempts w"
  "ui_mode (snd (file_manager_scan_images e w)) = ui_mode w"
  "pause_reason (snd (file_manager_scan_images e w)) = pause_reason w"
  "initialized (album (snd (file_manager_scan_images e w))) = initialized (album w)"
  by (simp_all add: file_manager_scan_images_def split: option.splits)

lemma refresh_skips_when_paused:
  assumes "photo_album_is_paused w"
  shows "attempts (snd (photo_album_refresh e w)) = attempts w"
    and "video (snd (photo_album_refresh e w)) = video w"
    and "slideshow (snd (photo_album_refresh e w)) = slideshow w"
    and "ui_mode (snd (photo_album_refresh e w)) = ui_mode w"
  using assms
  by (auto simp: photo_album_refresh_def photo_album_is_paused_def Let_def split: option.splits)

text \<open>
  Claim C10, as amended. \<^verbatim>\<open>photo_album_is_paused\<close> returns true exactly when the album is
  not initialised or the controller's \<^verbatim>\<open>is_running\<close> flag is clear, which for an
  initialised controller means that neither the periodic nor the idle timer is armed; the
  pause reason plays no part. In the manually paused state the periodic timer is stopped
  and the function still returns false. Once the slideshow has been stopped, as it is for
  video playback and for the settings panel, the album reports itself paused, and
  \<^verbatim>\<open>photo_album_refresh\<close> then makes no attempt to display an entry.
\<close>

theorem is_paused_iff_stopped:
  assumes "slideshow_inv (slideshow w)"
  shows "photo_album_is_paused w
           = (\<not> initialized (album w)
              \<or> (timer (slideshow w) = Some Disarmed \<and> idle_timer (slideshow w) = Some Disarmed))
         \<and> photo_album_is_paused w = (\<not> initialized (album w) \<or> \<not> is_running (slideshow w))
         \<and> photo_album_is_paused (w\<lparr>pause_reason := r\<rparr>) = photo_album_is_paused w
         \<and> (initialized (album w) \<and> is_running (slideshow w) \<and> manual_control (slideshow w)
              \<longrightarrow> \<not> photo_album_is_paused w \<and> \<not> is_periodic (timer (slideshow w)))
         \<and> photo_album_is_paused (snd (on_slideshow slideshow_ctrl_stop w))
         \<and> photo_album_is_paused (ui_event_handler e UI_EVENT_LONG_PRESS w)
         \<and> (photo_album_is_paused w
              \<longrightarrow> attempts (snd (photo_album_refresh e w)) = attempts w
                  \<and> video (snd (photo_album_refresh e w)) = video w
                  \<and> ui_mode (snd (photo_album_refresh e w)) = ui_mode w)"
proof -
  have 1: "photo_album_is_paused w
           = (\<not> initialized (album w)
              \<or> (timer (slideshow w) = Some Disarmed \<and> idle_timer (slideshow w) = Some Disarmed))"
    using assms
    by (auto simp: photo_album_is_paused_def slideshow_ctrl_is_running_def slideshow_inv_def
        is_once_iff is_periodic_iff split: if_splits)
  have 2: "photo_album_is_paused w = (\<not> initialized (album w) \<or> \<not> is_running (slideshow w))"
    by (simp add: photo_album_is_paused_def slideshow_ctrl_is_running_def)
  have 3: "photo_album_is_paused (w\<lparr>pause_reason := r\<rparr>) = photo_album_is_paused w"
    by (simp add: photo_album_is_paused_def)
  have 4: "initialized (album w) \<and> is_running (slideshow w) \<and> manual_control (slideshow w)
              \<longrightarrow> \<not> photo_album_is_paused w \<and> \<not> is_periodic (timer (slideshow w))"
    using assms
    by (auto simp: photo_album_is_paused_def slideshow_ctrl_is_running_def slideshow_inv_def)
  have 5: "photo_album_is_paused (snd (on_slideshow slideshow_ctrl_stop w))"
    by (simp add: photo_album_is_paused_def slideshow_ctrl_is_running_def slideshow_ctrl_stop_def)
  have 6: "photo_album_is_paused (ui_event_handler e UI_EVENT_LONG_PRESS w)"
    by (simp add: ui_event_handler_def photo_album_is_paused_def slideshow_ctrl_is_running_def
        slideshow_ctrl_stop_def ui_manager_show_settings_def on_slideshow_def Let_def)
  show ?thesis
    using 1 2 3 4 5 6 refresh_skips_when_paused [of w e] by blast
qed

theorem is_paused_iff_stopped_witness:
  "slideshow_inv (slideshow (snd (photo_album_pause
        (snd (on_slideshow slideshow_ctrl_start (ex_world ex_files 0))))))
   \<and> \<not> photo_album_is_paused (snd (photo_album_pause
        (snd (on_slideshow slideshow_ctrl_start (ex_world ex_files 0)))))
   \<and> photo_album_is_paused (ex_world ex_files 0)
   \<and> attempts (snd (photo_album_refresh (ex_env []) (ex_world ex_files 0))) = []"
proof -
  let ?w = "snd (photo_album_pause (snd (on_slideshow slideshow_ctrl_start (ex_world ex_files 0))))"
  have inv: "slideshow_inv (slideshow ?w)"
    by (simp add: photo_album_pause_def ex_world_eval slideshow_inv_def slideshow_ctrl_start_def
        slideshow_ctrl_pause_def on_slideshow_def Let_def)
  have inv0: "slideshow_inv (slideshow (ex_world ex_files 0))"
    by (simp add: ex_world_eval slideshow_inv_def)
  have run: "initialized (album ?w) \<and> is_running (slideshow ?w) \<and> manual_control (slideshow ?w)"
    by (simp add: photo_album_pause_def ex_world_eval slideshow_ctrl_start_def
        slideshow_ctrl_pause_def on_slideshow_def Let_def)
  have p0: "photo_album_is_paused (ex_world ex_files 0)"
    by (simp add: photo_album_is_paused_def slideshow_ctrl_is_running_def ex_world_eval)
  have a0: "attempts (ex_world ex_files 0) = []" by (simp add: ex_world_eval)
  have np: "\<not> photo_album_is_paused ?w"
    using run is_paused_iff_stopped [OF inv, of PAUSE_REASON_NONE "ex_env []"] by blast
  have "attempts (snd (photo_album_refresh (ex_env []) (ex_world ex_files 0)))
          = attempts (ex_world ex_files 0)"
    using p0 is_paused_iff_stopped [OF inv0, of PAUSE_REASON_NONE "ex_env []"] by blast
  then show ?thesis
    using inv np p0 a0 by simp
qed

text \<open>
  The claim as stated fails: after \<^verbatim>\<open>photo_album_pause\<close> on a running slideshow the
  periodic timer is stopped, and \<^verbatim>\<open>photo_album_is_paused\<close> returns false.
\<close>

theorem is_paused_false_while_timer_stopped:
  "initialized (album (snd (photo_album_pause
        (snd (on_slideshow slideshow_ctrl_start (ex_world ex_files 0))))))
   \<and> timer (slideshow (snd (photo_album_pause
        (snd (on_slideshow slideshow_ctrl_start (ex_world ex_files 0)))))) = Some Disarmed
   \<and> \<not> is_periodic (timer (slideshow (snd (photo_album_pause
        (snd (on_slideshow slideshow_ctrl_start (ex_world ex_files 0)))))))
   \<and> \<not> photo_album_is_paused (snd (photo_album_pause
        (snd (on_slideshow slideshow_ctrl_start (ex_world ex_files 0)))))"
  by (simp add: photo_album_pause_def photo_album_is_paused_def slideshow_ctrl_is_running_def
      ex_world_eval slideshow_ctrl_start_def slideshow_ctrl_pause_def on_slideshow_def Let_def)

text \<open>
  Claim C1, on a collection of two corrupt images. \<^verbatim>\<open>photo_album_next\<close> returns
  \<open>ESP_ERR_NOT_FOUND\<close> after two load attempts, one per entry. \<^verbatim>\<open>photo_album_prev\<close>
  returns \<open>ESP_ERR_NOT_FOUND\<close> only after four: each pass of its own retry loop calls
  \<^verbatim>\<open>load_and_display_media\<close>, which already tries every entry.
\<close>

theorem prev_all_corrupt_attempts:
  "photo_album_get_total_count (ex_world ex_corrupt 0) = 2
   \<and> fst (load_and_display_image ex_corrupt_env 0 (ex_world ex_corrupt 0)) = ESP_FAIL
   \<and> fst (load_and_display_image ex_corrupt_env 1 (ex_world ex_corrupt 0)) = ESP_FAIL
   \<and> fst (photo_album_prev ex_corrupt_env (ex_world ex_corrupt 0)) = ESP_ERR_NOT_FOUND
   \<and> attempts (snd (photo_album_prev ex_corrupt_env (ex_world ex_corrupt 0))) = [1, 0, 0, 1]
   \<and> length (attempts (snd (photo_album_prev ex_corrupt_env (ex_world ex_corrupt 0)))) = 4
   \<and> fst (photo_album_next ex_corrupt_env (ex_world ex_corrupt 0)) = ESP_ERR_NOT_FOUND
   \<and> attempts (snd (photo_album_next ex_corrupt_env (ex_world ex_corrupt 0))) = [1, 0]"
  by (simp add: eval_defs ex_world_eval ex_adapter_def ex_corrupt_def ex_corrupt_env_def
      photo_album_get_total_count_def smod_nonneg)

theorem prev_all_corrupt_attempts_witness:
  "initialized (album (ex_world ex_corrupt 0))
   \<and> photo_album_get_total_count (ex_world ex_corrupt 0) \<noteq> 0
   \<and> int (length (attempts (snd (photo_album_prev ex_corrupt_env (ex_world ex_corrupt 0)))))
       \<noteq> photo_album_get_total_count (ex_world ex_corrupt 0)
   \<and> int (length (attempts (snd (photo_album_next ex_corrupt_env (ex_world ex_corrupt 0)))))
       = photo_album_get_total_count (ex_world ex_corrupt 0)"
proof -
  have "initialized (album (ex_world ex_corrupt 0))" by (simp add: ex_world_eval)
  then show ?thesis using prev_all_corrupt_attempts by simp
qed

text \<open>
  Claim C3, while a video is on screen. A USB host connects: the video is paused, the
  album is paused with the USB reason and the slideshow timer is stopped; the completion
  timer of the video stays armed. When it expires, \<^verbatim>\<open>video_finish_timer_cb\<close> starts the
  slideshow timer and moves to the next entry, although the pause reason is still the
  USB one and no resume was called.
\<close>

theorem finish_timer_restarts_under_usb_hold:
  "pause_reason ex_usb_hold = PAUSE_REASON_USB
   \<and> \<not> is_running (slideshow ex_usb_hold)
   \<and> timer (slideshow ex_usb_hold) = Some Disarmed
   \<and> state (video ex_usb_hold) = VIDEO_STATE_PAUSED
   \<and> finish_timer (video ex_usb_hold) = Some (Once 3500000)
   \<and> map_option (\<lambda>w. (pause_reason w, is_running (slideshow w), timer (slideshow w),
                       photo_album_get_current_index w))
        (finish_timer_expires (ex_env []) ex_usb_hold)
       = Some (PAUSE_REASON_USB, True, Some (Periodic 5000000), 0)"
  by (simp add: ex_usb_hold_def ex_video_playing_def eval_defs ex_world_eval ex_adapter_def smod_nonneg
      photo_album_get_current_index_def)

theorem finish_timer_restarts_under_usb_hold_witness:
  "initialized (album ex_usb_hold)
   \<and> is_once (finish_timer (video ex_usb_hold))
   \<and> finish_timer_expires (ex_env []) ex_usb_hold \<noteq> None
   \<and> map_option (\<lambda>w. pause_reason w = PAUSE_REASON_USB \<and> is_periodic (timer (slideshow w)))
        (finish_timer_expires (ex_env []) ex_usb_hold) = Some True"
proof -
  have i: "initialized (album ex_usb_hold)"
    by (simp add: ex_usb_hold_def ex_video_playing_def eval_defs ex_world_eval ex_adapter_def
        smod_nonneg)
  have "map_option (\<lambda>w. (pause_reason w, is_running (slideshow w), timer (slideshow w),
                       photo_album_get_current_index w))
        (finish_timer_expires (ex_env []) ex_usb_hold)
       = Some (PAUSE_REASON_USB, True, Some (Periodic 5000000), 0)"
    and o: "is_once (finish_timer (video ex_usb_hold))"
    using finish_timer_restarts_under_usb_hold by simp_all
  then show ?thesis using i by auto
qed

lemma start_from_unpaused:
  assumes "slideshow_inv s" and "\<not> manual_control s"
  shows "is_running (snd (slideshow_ctrl_start s))"
    and "is_periodic (timer (snd (slideshow_ctrl_start s)))"
    and "\<not> manual_control (snd (slideshow_ctrl_start s))"
  using assms
  by (auto simp: slideshow_inv_def slideshow_ctrl_start_def Let_def is_periodic_iff split: if_splits)

lemma play_timer:
  assumes "adapter (video w) = Some a" and "frame_mutex a" and "task_stops e \<or> mutex_create e"
    and "task_create e" and "extractor_start e p = ESP_OK"
    and "finish_timer (video w) \<noteq> None \<or> timer_create e = ESP_OK"
  shows "fst (video_player_play e p w) = ESP_OK"
    and "state (video (snd (video_player_play e p w))) = VIDEO_STATE_PLAYING"
    and "finish_timer (video (snd (video_player_play e p w))) =
           (if known_duration e p then Some (Once (completion_timeout_us e p))
            else finish_timer (video w))"
proof -
  obtain a' ft where r: "video_player_play e p w =
               (ESP_OK, w\<lparr>video := (video w)\<lparr>current_file := take 255 p, has_error := False,
                             adapter := Some a', state := VIDEO_STATE_PLAYING,
                             playback_finished := False, finish_timer := ft\<rparr>,
                           ui_mode := UI_MODE_VIDEO\<rparr>)"
    and k: "fst (extractor_video_info e p) = ESP_OK
                   \<and> 0 < snd (snd (snd (snd (extractor_video_info e p))))
                   \<and> (finish_timer (video w) \<noteq> None \<or> timer_create e = ESP_OK)
                 \<longrightarrow> ft = Some (Once ((unat (snd (snd (snd (snd (extractor_video_info e p))))) + 500) * 1000))"
    and u: "fst (extractor_video_info e p) \<noteq> ESP_OK
                   \<or> snd (snd (snd (snd (extractor_video_info e p)))) = 0
                 \<longrightarrow> ft = finish_timer (video w)"
    using play_ok [OF assms(1-5)] by blast
  show "fst (video_player_play e p w) = ESP_OK"
    and "state (video (snd (video_player_play e p w))) = VIDEO_STATE_PLAYING"
    unfolding r by simp_all
  show "finish_timer (video (snd (video_player_play e p w))) =
           (if known_duration e p then Some (Once (completion_timeout_us e p))
            else finish_timer (video w))"
    unfolding r using k u assms(6)
    by (auto simp: known_duration_def completion_timeout_us_def word_gt_0)
qed

lemma switch_timer:
  assumes "adapter v = Some a" and "frame_mutex a" and "task_stops e \<or> mutex_create e"
    and "task_create e" and "extractor_start e p = ESP_OK"
    and "finish_timer v \<noteq> None \<or> timer_create e = ESP_OK"
  shows "fst (video_player_switch_file e (Some p) v) = ESP_OK"
    and "finish_timer (snd (video_player_switch_file e (Some p) v)) =
           (if known_duration e p then Some (Once (completion_timeout_us e p))
            else if finish_timer v = None then None else Some Disarmed)"
proof -
  let ?v1 = "v\<lparr>current_file := take 255 p\<rparr>"
  let ?v2 = "(if finish_timer ?v1 \<noteq> None
                then ?v1\<lparr>finish_timer := snd (esp_timer_stop (finish_timer ?v1))\<rparr> else ?v1)"
  let ?v3 = "(if state ?v2 \<noteq> VIDEO_STATE_STOPPED
                then ?v2\<lparr>adapter := snd (app_stream_adapter_stop e (adapter ?v2))\<rparr> else ?v2)"
  let ?v4 = "?v3\<lparr>has_error := False, playback_finished := False\<rparr>"
  have v2: "adapter ?v2 = Some a" "state ?v2 = state v"
    using assms(1) by simp_all
  have "\<exists>a3. adapter ?v3 = Some a3 \<and> frame_mutex a3"
  proof (cases "state v = VIDEO_STATE_STOPPED")
    case True
    then have "adapter ?v3 = Some a" using v2 by simp
    then show ?thesis using assms(2) by blast
  next
    case False
    then have "adapter ?v3 = snd (app_stream_adapter_stop e (Some a))" using v2 by simp
    then show ?thesis using adapter_stop_some [OF assms(2) assms(3)] by simp
  qed
  then obtain a3 where a3: "adapter ?v4 = Some a3" "frame_mutex a3"
    by auto
  obtain a4 where a4: "app_stream_adapter_set_file e (Some a3) (Some p) (v_audio_dev ?v4) = (ESP_OK, Some a4)"
      "frame_mutex a4" "\<not> running a4" "a_filename a4 = Some p"
    using adapter_set_file_some [OF a3(2) assms(3)] by blast
  obtain a5 where a5: "app_stream_adapter_start e (Some a4) = (ESP_OK, Some a5)"
      "has_info a5 = (fst (extractor_video_info e p) = ESP_OK)"
      "has_info a5 \<longrightarrow> duration a5 = snd (snd (snd (snd (extractor_video_info e p))))"
    using adapter_start_any_info [OF a4(2) assms(3) assms(4) a4(3) a4(4) assms(5)] by blast
  have ft: "finish_timer ?v4 = (if finish_timer v = None then None else Some Disarmed)"
    by (cases "finish_timer v") auto
  let ?v5 = "?v4\<lparr>adapter := Some a5, state := VIDEO_STATE_PLAYING\<rparr>"
  have r: "video_player_switch_file e (Some p) v = (ESP_OK, arm_finish_timer e False ?v5)"
    using assms(1) a3(1) a4(1) a5(1) unfolding video_player_switch_file_def Let_def by simp
  show "fst (video_player_switch_file e (Some p) v) = ESP_OK" unfolding r by simp
  show "finish_timer (snd (video_player_switch_file e (Some p) v)) =
           (if known_duration e p then Some (Once (completion_timeout_us e p))
            else if finish_timer v = None then None else Some Disarmed)"
  proof (cases "known_duration e p")
    case True
    have "arm_finish_timer e False ?v5 =
            ?v5\<lparr>finish_timer := Some (Once ((unat (snd (snd (snd (snd (extractor_video_info e p))))) + 500) * 1000))\<rparr>"
      by (rule arm_finish_timer_known [where a = a5])
        (use a5 True ft assms(6) in \<open>auto simp: known_duration_def\<close>)
    then show ?thesis unfolding r using True by (simp add: completion_timeout_us_def)
  next
    case False
    then have "\<not> has_info a5 \<or> duration a5 = 0"
      using a5(2,3) by (auto simp: known_duration_def word_gt_0)
    then have "arm_finish_timer e False ?v5 = ?v5"
      by (intro arm_finish_timer_unknown [where a = a5]) simp_all
    then show ?thesis unfolding r using False ft by simp
  qed
qed

text \<open>
  Claim C4. When the completion timer expires, \<^verbatim>\<open>video_finish_timer_cb\<close> runs: it
  starts the slideshow, so that the slideshow is running and, unless a manual pause is in
  its idle window, the periodic timer is armed when \<^verbatim>\<open>photo_album_next\<close> is entered;
  \<^verbatim>\<open>photo_album_next\<close> then moves the album to the next entry (which stays on the running
  slideshow unless it is a video, for which the navigator stops the slideshow again). The
  timer is armed by \<^verbatim>\<open>video_player_play\<close> and \<^verbatim>\<open>video_player_switch_file\<close> for the
  reported duration plus 500 ms, and only when a non-zero duration is known.
\<close>

theorem completion_timer_expiry:
  assumes inv: "nav_inv fs w" and plat: "platform_ok e"
    and sinv: "slideshow_inv (slideshow w)"
    and armed: "is_once (finish_timer (video w))"
    and loads: "entry_loads e (fs ! nat ((index_of w + 1) mod int (length fs)))"
  shows "finish_timer_expires e w =
           Some (snd (photo_album_next e (snd (on_slideshow slideshow_ctrl_start
                   (w\<lparr>video := (video w)\<lparr>finish_timer := Some Disarmed\<rparr>\<rparr>)))))
         \<and> slideshow_ctrl_is_running (slideshow (snd (on_slideshow slideshow_ctrl_start
                   (w\<lparr>video := (video w)\<lparr>finish_timer := Some Disarmed\<rparr>\<rparr>))))
         \<and> (\<not> manual_control (slideshow w)
             \<longrightarrow> is_periodic (timer (slideshow (snd (on_slideshow slideshow_ctrl_start
                   (w\<lparr>video := (video w)\<lparr>finish_timer := Some Disarmed\<rparr>\<rparr>))))))
         \<and> fst (photo_album_next e (snd (on_slideshow slideshow_ctrl_start
                   (w\<lparr>video := (video w)\<lparr>finish_timer := Some Disarmed\<rparr>\<rparr>)))) = ESP_OK
         \<and> map_option index_of (finish_timer_expires e w)
             = Some ((index_of w + 1) mod int (length fs))
         \<and> (\<not> manual_control (slideshow w)
             \<and> file_manager_get_media_type
                 (full_path (fs ! nat ((index_of w + 1) mod int (length fs)))) \<noteq> MEDIA_TYPE_VIDEO
             \<longrightarrow> map_option (\<lambda>u. is_running (slideshow u) \<and> is_periodic (timer (slideshow u)))
                   (finish_timer_expires e w) = Some True)
         \<and> (extractor_start e p = ESP_OK
             \<longrightarrow> fst (video_player_play e p w) = ESP_OK
                 \<and> finish_timer (video (snd (video_player_play e p w)))
                     = (if known_duration e p then Some (Once (completion_timeout_us e p))
                        else finish_timer (video w))
                 \<and> fst (video_player_switch_file e (Some p) (video w)) = ESP_OK
                 \<and> finish_timer (snd (video_player_switch_file e (Some p) (video w)))
                     = (if known_duration e p then Some (Once (completion_timeout_us e p))
                        else Some Disarmed))"
proof -
  let ?w0 = "w\<lparr>video := (video w)\<lparr>finish_timer := Some Disarmed\<rparr>\<rparr>"
  let ?ws = "snd (on_slideshow slideshow_ctrl_start ?w0)"
  let ?n = "int (length fs)"
  let ?i = "(index_of w + 1) mod ?n"
  obtain c a where c: "collection (album w) = Some c" "files c = fs" "0 \<le> current_index c"
      "current_index c < int (length fs)"
    and a: "adapter (video w) = Some a" "frame_mutex a" and ini: "initialized (album w)"
    using inv by (rule nav_inv_D)
  have p1: "task_stops e \<or> mutex_create e" and p2: "task_create e"
    using plat by (simp_all add: platform_ok_def)
  have ft: "finish_timer (video w) \<noteq> None" using armed by (auto simp: is_once_iff)
  have inv_s: "nav_inv fs ?ws"
    using c a ini by (intro nav_inv_I [where c = c and a = a]) simp_all
  have idx_s: "index_of ?ws = index_of w" by (simp add: index_of_def)
  have ss: "slideshow ?ws = snd (slideshow_ctrl_start (slideshow w))" by simp
  have loads_s: "entry_loads e (fs ! nat ((index_of ?ws + 1) mod ?n))"
    using loads idx_s by simp
  note N = next_ok [OF inv_s plat loads_s, unfolded idx_s]
  have exp: "finish_timer_expires e w = Some (snd (photo_album_next e ?ws))"
    using armed by (simp add: finish_timer_expires_def video_finish_timer_cb_def)
  have run: "is_running (slideshow ?ws)"
    unfolding ss by (simp add: slideshow_ctrl_start_def Let_def)
  have per: "\<not> manual_control (slideshow w) \<longrightarrow> is_periodic (timer (slideshow ?ws))"
    unfolding ss using start_from_unpaused [OF sinv] by blast
  have final: "\<not> manual_control (slideshow w)
             \<and> file_manager_get_media_type (full_path (fs ! nat ?i)) \<noteq> MEDIA_TYPE_VIDEO
             \<longrightarrow> map_option (\<lambda>u. is_running (slideshow u) \<and> is_periodic (timer (slideshow u)))
                   (finish_timer_expires e w) = Some True"
    unfolding exp using N run per by simp
  have arm: "extractor_start e p = ESP_OK
             \<longrightarrow> fst (video_player_play e p w) = ESP_OK
                 \<and> finish_timer (video (snd (video_player_play e p w)))
                     = (if known_duration e p then Some (Once (completion_timeout_us e p))
                        else finish_timer (video w))
                 \<and> fst (video_player_switch_file e (Some p) (video w)) = ESP_OK
                 \<and> finish_timer (snd (video_player_switch_file e (Some p) (video w)))
                     = (if known_duration e p then Some (Once (completion_timeout_us e p))
                        else Some Disarmed)"
  proof
    assume x: "extractor_start e p = ESP_OK"
    have t: "finish_timer (video w) \<noteq> None \<or> timer_create e = ESP_OK" using ft by simp
    show "fst (video_player_play e p w) = ESP_OK
                 \<and> finish_timer (video (snd (video_player_play e p w)))
                     = (if known_duration e p then Some (Once (completion_timeout_us e p))
                        else finish_timer (video w))
                 \<and> fst (video_player_switch_file e (Some p) (video w)) = ESP_OK
                 \<and> finish_timer (snd (video_player_switch_file e (Some p) (video w)))
                     = (if known_duration e p then Some (Once (completion_timeout_us e p))
                        else Some Disarmed)"
      using play_timer [OF a p1 p2 x t] switch_timer [OF a p1 p2 x t] ft by auto
  qed
  have r: "slideshow_ctrl_is_running (slideshow ?ws)"
    using run by (simp add: slideshow_ctrl_is_running_def)
  show ?thesis
    unfolding exp using N r per final [unfolded exp] arm by simp
qed

lemma ex_video_playing_facts:
  "nav_inv ex_files ex_video_playing"
  "slideshow_inv (slideshow ex_video_playing)"
  "\<not> manual_control (slideshow ex_video_playing)"
  "\<not> is_running (slideshow ex_video_playing)"
  "finish_timer (video ex_video_playing) = Some (Once 3500000)"
  "state (video ex_video_playing) = VIDEO_STATE_PLAYING"
  "index_of ex_video_playing = 1"
  by (simp_all add: ex_video_playing_def eval_defs ex_world_eval ex_adapter_def smod_nonneg
      nav_inv_def slideshow_inv_def index_of_def)

theorem completion_timer_expiry_witness:
  "nav_inv ex_files ex_video_playing \<and> platform_ok (ex_env [])
   \<and> slideshow_inv (slideshow ex_video_playing) \<and> \<not> manual_control (slideshow ex_video_playing)
   \<and> is_once (finish_timer (video ex_video_playing))
   \<and> entry_loads (ex_env []) (ex_files ! nat ((index_of ex_video_playing + 1) mod int (length ex_files)))
   \<and> finish_timer (video ex_video_playing) = Some (Once 3500000)
   \<and> map_option index_of (finish_timer_expires (ex_env []) ex_video_playing) = Some 0
   \<and> map_option (\<lambda>u. is_running (slideshow u) \<and> is_periodic (timer (slideshow u)))
        (finish_timer_expires (ex_env []) ex_video_playing) = Some True"
proof -
  note F = ex_video_playing_facts
  have p: "platform_ok (ex_env [])" by simp
  have o: "is_once (finish_timer (video ex_video_playing))" using F(5) by simp
  have nx: "nat ((index_of ex_video_playing + 1) mod int (length ex_files)) = 0"
    using F(7) by (simp add: ex_files_def)
  have l: "entry_loads (ex_env []) (ex_files ! nat ((index_of ex_video_playing + 1) mod int (length ex_files)))"
    unfolding nx by (simp add: ex_files_def ex_entry_loads)
  have mt: "file_manager_get_media_type
              (full_path (ex_files ! nat ((index_of ex_video_playing + 1) mod int (length ex_files))))
            \<noteq> MEDIA_TYPE_VIDEO"
    unfolding nx by (simp add: ex_files_def mk_file_def)
  note T = completion_timer_expiry [OF F(1) p F(2) o l, of ex_mp4]
  have "map_option index_of (finish_timer_expires (ex_env []) ex_video_playing)
          = Some ((index_of ex_video_playing + 1) mod int (length ex_files))"
    using T by blast
  then have i0: "map_option index_of (finish_timer_expires (ex_env []) ex_video_playing) = Some 0"
    by (simp add: F(7) ex_files_def)
  have r: "map_option (\<lambda>u. is_running (slideshow u) \<and> is_periodic (timer (slideshow u)))
        (finish_timer_expires (ex_env []) ex_video_playing) = Some True"
    using T mt F(3) by blast
  show ?thesis
    using F(1,2,3,5) p o l i0 r by simp
qed

end
